(* ===== verification/Sltv_Prelude.thy ===== *)
theory Sltv_Prelude
  imports
    Main
    "HOL-Library.Word"
    "HOL-Library.Char_ord"
    "HOL-Library.List_Lexorder"
    "HOL-Library.Product_Lexorder"
    "HOL-Library.AList"
    "HOL-Library.Sublist"
    "HOL-Library.Multiset"
begin

text \<open>
  Shared ground of the development: the types that stand for Go's basic types, errors as
  values, Go maps as association lists, sorted listings, and the facts about them the
  component theories use. Strings are byte strings (\<open>string\<close> is a list of 8-bit
  \<open>char\<close>s, as a Go string is a sequence of bytes), ordered bytewise.
\<close>

named_theorems catalog_simps \<open>observations of the catalog after a store operation\<close>
named_theorems proc_simps \<open>running a handler one interface call at a time\<close>

section \<open>Machine integers and time\<close>

text \<open>
  \<open>u64\<close> is Go's \<open>uint64\<close>: arithmetic wraps. Go's \<open>int\<close> is modelled by
  \<open>int\<close> where it only carries configuration values or list indices. A
  \<open>time.Time\<close> in UTC is its distance in nanoseconds from the Unix epoch; the zero
  \<open>time.Time\<close> is January 1 of year 1.
\<close>

type_synonym u64 = "64 word"
type_synonym gotime = int

definition zeroTime :: gotime where
  "zeroTime = - 62135596800000000000"

definition IsZero :: "gotime \<Rightarrow> bool" where
  "IsZero t \<longleftrightarrow> t = zeroTime"

lemma u64_add_no_wrap:
  fixes a b :: u64
  assumes "unat a + unat b < 2 ^ 64"
  shows "unat (a + b) = unat a + unat b"
  using assms by (simp add: unat_word_ariths)

lemma u64_mult_no_wrap:
  fixes a b :: u64
  assumes "unat a * unat b < 2 ^ 64"
  shows "unat (a * b) = unat a * unat b"
  using assms by (simp add: unat_word_ariths)

lemma u64_bound: "unat (a :: u64) < 2 ^ 64"
  using unsigned_less [of a] by simp

section \<open>Errors as values\<close>

text \<open>
  \<open>ErrNotFound\<close> and \<open>ErrAlreadyExists\<close> are the sentinel errors of the store
  package. \<open>Errorf f as\<close> is an error made by \<open>errors.New\<close> or by
  \<open>fmt.Errorf\<close> without \<open>%w\<close>, kept as its format and its string arguments;
  \<open>Wrapf f as e\<close> is \<open>fmt.Errorf\<close> with \<open>%w\<close> around \<open>e\<close>.
  \<open>ExecError m\<close> is an error reported by a program or service outside the repository,
  with its message.
\<close>

datatype error =
    ErrNotFound
  | ErrAlreadyExists
  | Errorf string "string list"
  | Wrapf string "string list" error
  | ExecError string

primrec errors_Is :: "error \<Rightarrow> error \<Rightarrow> bool" where
  "errors_Is ErrNotFound t \<longleftrightarrow> t = ErrNotFound"
| "errors_Is ErrAlreadyExists t \<longleftrightarrow> t = ErrAlreadyExists"
| "errors_Is (Errorf f as) t \<longleftrightarrow> t = Errorf f as"
| "errors_Is (Wrapf f as e) t \<longleftrightarrow> t = Wrapf f as e \<or> errors_Is e t"
| "errors_Is (ExecError m) t \<longleftrightarrow> t = ExecError m"

lemma errors_Is_refl [simp]: "errors_Is e e"
  by (cases e) simp_all

lemma errors_Is_Wrapf_sentinel [simp]:
  "errors_Is (Wrapf f as e) ErrNotFound = errors_Is e ErrNotFound"
  "errors_Is (Wrapf f as e) ErrAlreadyExists = errors_Is e ErrAlreadyExists"
  by simp_all

type_synonym 'a result = "error + 'a"

section \<open>Go maps as association lists\<close>

text \<open>
  A Go map is an association list without repeated keys. Iteration order over a Go map is
  unspecified; wherever the code ranges over a map, the order of this list stands for the
  order the runtime happens to choose, and no theorem may depend on it.
\<close>

type_synonym ('k, 'v) gomap = "('k \<times> 'v) list"

definition gomap_ok :: "('k, 'v) gomap \<Rightarrow> bool" where
  "gomap_ok m \<longleftrightarrow> distinct (map fst m)"

lemma gomap_ok_Nil [simp]: "gomap_ok []"
  by (simp add: gomap_ok_def)

lemma gomap_ok_update [simp]: "gomap_ok m \<Longrightarrow> gomap_ok (AList.update k v m)"
  by (simp add: gomap_ok_def distinct_update)

lemma gomap_ok_delete [simp]: "gomap_ok m \<Longrightarrow> gomap_ok (AList.delete k m)"
  by (simp add: gomap_ok_def distinct_delete)

lemma map_of_update [simp]: "map_of (AList.update k v m) = (map_of m)(k \<mapsto> v)"
  by (rule update_conv')

lemma map_of_delete [simp]: "map_of (AList.delete k m) = (map_of m)(k := None)"
  by (rule delete_conv')

lemma gomap_in_set: "gomap_ok m \<Longrightarrow> (k, v) \<in> set m \<longleftrightarrow> map_of m k = Some v"
  by (auto simp: gomap_ok_def dest: map_of_SomeD)

lemma gomap_same_entries:
  assumes "gomap_ok m" "gomap_ok m'" "map_of m = map_of m'"
  shows "mset m = mset m'"
proof -
  have "distinct m" "distinct m'"
    using assms(1,2) by (auto simp: gomap_ok_def simp: distinct_map)
  moreover have "set m = set m'"
    using assms gomap_in_set [of m] gomap_in_set [of m'] by auto
  ultimately show ?thesis by (simp add: set_eq_iff_mset_eq_distinct)
qed

section \<open>Sorted listings\<close>

text \<open>
  \<open>sort.Slice\<close> rearranges a slice so that it is sorted under the given order. Where
  the sort keys are pairwise distinct the outcome is determined: any permutation of the
  same entries sorts to the same list.
\<close>

lemma sort_key_perm_unique:
  fixes f :: "'a \<Rightarrow> 'b::linorder"
  assumes "mset xs = mset ys" "inj_on f (set xs)"
  shows "sort_key f xs = sort_key f ys"
proof -
  have s: "set xs = set ys" using assms(1) by (rule mset_eq_setD)
  have "mset (map f (sort_key f xs)) = mset (map f (sort_key f ys))"
    using assms(1) by simp
  then have "map f (sort_key f xs) = map f (sort_key f ys)"
    by (metis properties_for_sort sorted_sort_key)
  moreover have "inj_on f (set (sort_key f xs) \<union> set (sort_key f ys))"
    using assms(2) s by simp
  ultimately show ?thesis by (rule map_inj_on)
qed

section \<open>Step relations\<close>

text \<open>
  Goroutines that share state are step relations, one rule per action. What every step keeps,
  every reachable state has; an observation that no step changes any more stays as it is.
\<close>

locale step_invariant =
  fixes step :: "'s \<Rightarrow> 's \<Rightarrow> bool" and good :: "'s \<Rightarrow> bool"
  assumes preserved: "good s \<Longrightarrow> step s s' \<Longrightarrow> good s'"
begin

lemma reachable: "step\<^sup>*\<^sup>* s s' \<Longrightarrow> good s \<Longrightarrow> good s'"
  by (induction rule: rtranclp_induct) (auto intro: preserved)

lemma unchanged:
  assumes "step\<^sup>*\<^sup>* s s'" "good s" "\<And>s s'. good s \<Longrightarrow> step s s' \<Longrightarrow> f s' = f s"
  shows "f s' = f s"
  using assms(1)
proof (induction rule: rtranclp_induct)
  case (step s' s'')
  then show ?case using assms(2,3) reachable by metis
qed simp

end

lemma reach_via: "step s s' \<Longrightarrow> \<exists>t. step\<^sup>*\<^sup>* s' t \<and> Q t \<Longrightarrow> \<exists>t. step\<^sup>*\<^sup>* s t \<and> Q t"
  by (blast intro: converse_rtranclp_into_rtranclp)

end
