(* ===== verification/Go_Strings.thy ===== *)
theory Go_Strings
  imports Sltv_Prelude
begin

text \<open>
  The parts of Go's \<open>strings\<close> and \<open>strconv\<close> packages the program uses, as
  executable functions on byte strings: trimming, splitting, searching, decimal printing
  and the integer parsers with their two kinds of error. The lemmas show that printing and
  parsing decimals round-trip over the whole 64-bit range and where each parser fails.
\<close>

section \<open>Searching, splitting and joining\<close>

abbreviation HasPrefix :: "string \<Rightarrow> string \<Rightarrow> bool" where
  "HasPrefix s p \<equiv> prefix p s"

definition TrimPrefix :: "string \<Rightarrow> string \<Rightarrow> string" where
  "TrimPrefix s p = (if HasPrefix s p then drop (length p) s else s)"

fun Contains :: "string \<Rightarrow> string \<Rightarrow> bool" where
  "Contains [] sub \<longleftrightarrow> sub = []"
| "Contains (c # cs) sub \<longleftrightarrow> HasPrefix (c # cs) sub \<or> Contains cs sub"

definition ContainsAny :: "string \<Rightarrow> string \<Rightarrow> bool" where
  "ContainsAny s chars \<longleftrightarrow> list_ex (\<lambda>c. c \<in> set chars) s"

text \<open>\<open>cut c s\<close>: the text before the first \<open>c\<close> and, if there is one, the text after it.\<close>

fun cut :: "char \<Rightarrow> string \<Rightarrow> string \<times> string option" where
  "cut c [] = ([], None)"
| "cut c (x # xs) =
     (if x = c then ([], Some xs) else (case cut c xs of (a, r) \<Rightarrow> (x # a, r)))"

fun SplitN :: "nat \<Rightarrow> char \<Rightarrow> string \<Rightarrow> string list" where
  "SplitN 0 c s = []"
| "SplitN (Suc 0) c s = [s]"
| "SplitN (Suc (Suc n)) c s =
     (case cut c s of (a, None) \<Rightarrow> [a] | (a, Some r) \<Rightarrow> a # SplitN (Suc n) c r)"

fun Split :: "char \<Rightarrow> string \<Rightarrow> string list" where
  "Split c [] = [[]]"
| "Split c (x # xs) =
     (if x = c then [] # Split c xs
      else (case Split c xs of [] \<Rightarrow> [[x]] | y # ys \<Rightarrow> (x # y) # ys))"

fun Join :: "string list \<Rightarrow> string \<Rightarrow> string" where
  "Join [] sep = []"
| "Join [x] sep = x"
| "Join (x # y # zs) sep = x @ sep @ Join (y # zs) sep"

text \<open>\<open>TrimRight s c\<close> for a single-character cutset.\<close>

definition TrimRight :: "string \<Rightarrow> char \<Rightarrow> string" where
  "TrimRight s c = rev (dropWhile (\<lambda>x. x = c) (rev s))"

lemma cut_append: "c \<notin> set a \<Longrightarrow> cut c (a @ c # r) = (a, Some r)"
  by (induction a) auto

lemma cut_absent: "c \<notin> set s \<Longrightarrow> cut c s = (s, None)"
  by (induction s) auto

lemma cut_cases:
  obtains (absent) "c \<notin> set s" "cut c s = (s, None)"
  | (present) a r where "s = a @ c # r" "c \<notin> set a" "cut c s = (a, Some r)"
proof (cases "c \<in> set s")
  case True
  then obtain a r where "s = a @ c # r" "c \<notin> set a" by (meson split_list_first)
  then show ?thesis using present cut_append by blast
next
  case False
  then show ?thesis using absent cut_absent by blast
qed

lemma cut_Some_iff: "cut c s = (a, Some r) \<longleftrightarrow> s = a @ c # r \<and> c \<notin> set a"
  using cut_append [of c a r] by (cases rule: cut_cases [of c s]) auto

lemma cut_None_iff: "cut c s = (a, None) \<longleftrightarrow> s = a \<and> c \<notin> set a"
  by (cases rule: cut_cases [of c s]) (auto simp: cut_append)

lemma Split_not_Nil [simp]: "Split c s \<noteq> []"
  by (induction s) (auto split: list.splits)

lemma Split_no_sep: "p \<in> set (Split c s) \<Longrightarrow> c \<notin> set p"
  by (induction s arbitrary: p) (fastforce split: list.splits if_splits)+

lemma Join_Split: "Join (Split c s) [c] = s"
proof (induction s)
  case Nil
  show ?case by simp
next
  case (Cons x xs)
  obtain y ys where ys: "Split c xs = y # ys" by (cases "Split c xs") auto
  with Cons show ?case by (cases ys) auto
qed

lemma Contains_iff: "Contains s sub \<longleftrightarrow> (\<exists>a b. s = a @ sub @ b)"
proof (induction s)
  case Nil
  show ?case by auto
next
  case (Cons c cs)
  show ?case
  proof
    assume "Contains (c # cs) sub"
    then consider "prefix sub (c # cs)" | "Contains cs sub" by auto
    then show "\<exists>a b. c # cs = a @ sub @ b"
    proof cases
      case 1
      then show ?thesis by (auto simp: prefix_def intro: exI [of _ "[]"])
    next
      case 2
      with Cons.IH obtain a b where "cs = a @ sub @ b" by auto
      then have "c # cs = (c # a) @ sub @ b" by simp
      then show ?thesis by blast
    qed
  next
    assume "\<exists>a b. c # cs = a @ sub @ b"
    then obtain a b where e: "c # cs = a @ sub @ b" by blast
    show "Contains (c # cs) sub"
    proof (cases a)
      case Nil
      with e have "prefix sub (c # cs)" by (auto simp: prefix_def)
      then show ?thesis by simp
    next
      case (Cons d a')
      with e Cons.IH show ?thesis by auto
    qed
  qed
qed

section \<open>White space\<close>

text \<open>
  \<open>strings.TrimSpace\<close> removes leading and trailing white space as Unicode defines it;
  these are the UTF-8 encodings of the white-space code points: the six ASCII ones, U+0085,
  U+00A0, U+1680, U+2000 to U+200A, U+2028, U+2029, U+202F, U+205F and U+3000.
\<close>

definition go_spaces :: "string list" where
  "go_spaces = map (\<lambda>n. [char_of (n::nat)]) [9, 10, 11, 12, 13, 32]
     @ [[CHR 0xC2, CHR 0x85], [CHR 0xC2, CHR 0xA0], [CHR 0xE1, CHR 0x9A, CHR 0x80]]
     @ map (\<lambda>n. [CHR 0xE2, CHR 0x80, char_of (n::nat)]) ([128..<139] @ [168, 169, 175])
     @ [[CHR 0xE2, CHR 0x81, CHR 0x9F], [CHR 0xE3, CHR 0x80, CHR 0x80]]"

function trim_with :: "string list \<Rightarrow> string \<Rightarrow> string" where
  "trim_with ps s =
     (case find (\<lambda>p. p \<noteq> [] \<and> prefix p s) ps of
        None \<Rightarrow> s
      | Some p \<Rightarrow> trim_with ps (drop (length p) s))"
  by pat_completeness auto
termination
proof (relation "measure (\<lambda>(ps, s). length s)")
  fix ps s p
  assume "find (\<lambda>p. p \<noteq> [] \<and> prefix p s) ps = Some p"
  then have "p \<noteq> [] \<and> prefix p s" by (auto simp: find_Some_iff)
  then show "((ps, drop (length p) s), ps, s) \<in> measure (\<lambda>(ps, s). length s)"
    by (auto simp: prefix_def)
qed simp

declare trim_with.simps [simp del]

definition TrimSpace :: "string \<Rightarrow> string" where
  "TrimSpace s = rev (trim_with (map rev go_spaces) (rev (trim_with go_spaces s)))"

lemma trim_with_fix:
  "\<forall>p \<in> set ps. p \<noteq> [] \<longrightarrow> \<not> prefix p s \<Longrightarrow> trim_with ps s = s"
  by (subst trim_with.simps) (auto simp: find_Some_iff split: option.splits)

lemma trim_with_suffix: "suffix (trim_with ps s) s"
proof (induction ps s rule: trim_with.induct)
  case (1 ps s)
  show ?case
  proof (cases "find (\<lambda>p. p \<noteq> [] \<and> prefix p s) ps")
    case None
    then show ?thesis by (subst trim_with.simps) simp
  next
    case (Some p)
    with "1.IH" have "suffix (trim_with ps (drop (length p) s)) (drop (length p) s)" by simp
    then have "suffix (trim_with ps (drop (length p) s)) s"
      by (meson suffix_drop suffix_order.trans)
    with Some show ?thesis by (simp add: trim_with.simps [of ps s])
  qed
qed

lemma trim_with_no_more: "p \<in> set ps \<Longrightarrow> p \<noteq> [] \<Longrightarrow> \<not> prefix p (trim_with ps s)"
proof (induction ps s rule: trim_with.induct)
  case (1 ps s)
  show ?case
  proof (cases "find (\<lambda>p. p \<noteq> [] \<and> prefix p s) ps")
    case None
    then have "trim_with ps s = s" by (simp add: trim_with.simps [of ps s])
    with None "1.prems" show ?thesis by (auto simp: find_None_iff)
  next
    case (Some q)
    with "1.IH" "1.prems" show ?thesis by (simp add: trim_with.simps [of ps s])
  qed
qed

section \<open>Decimal numbers\<close>

definition is_digit :: "char \<Rightarrow> bool" where
  "is_digit c \<longleftrightarrow> 48 \<le> (of_char c :: nat) \<and> (of_char c :: nat) \<le> 57"

definition digit_val :: "char \<Rightarrow> nat" where
  "digit_val c = of_char c - 48"

definition digit_char :: "nat \<Rightarrow> char" where
  "digit_char d = char_of (48 + d)"

text \<open>\<open>fmt.Sprintf("%d", n)\<close> for an unsigned integer.\<close>

fun dec :: "nat \<Rightarrow> string" where
  "dec n = (if n < 10 then [digit_char n] else dec (n div 10) @ [digit_char (n mod 10)])"

declare dec.simps [simp del]

text \<open>The two kinds of \<open>strconv.NumError\<close>.\<close>

datatype num_error = ErrSyntax | ErrRange

abbreviation maxUint64 :: nat where
  "maxUint64 \<equiv> 18446744073709551615"

text \<open>
  \<open>strconv.ParseUint(s, 10, 64)\<close> reads byte by byte; it returns the value and an
  error together: \<open>0\<close> with a syntax error, the largest value with a range error.
\<close>

fun ParseUint_loop :: "nat \<Rightarrow> string \<Rightarrow> nat \<times> num_error option" where
  "ParseUint_loop n [] = (n, None)"
| "ParseUint_loop n (c # cs) =
     (if \<not> is_digit c then (0, Some ErrSyntax)
      else let n' = 10 * n + digit_val c
           in if maxUint64 < n' then (maxUint64, Some ErrRange) else ParseUint_loop n' cs)"

definition ParseUint :: "string \<Rightarrow> nat \<times> num_error option" where
  "ParseUint s = (if s = [] then (0, Some ErrSyntax) else ParseUint_loop 0 s)"

text \<open>
  \<open>strconv.Atoi\<close>: an optional sign and a decimal number in the range of a 64-bit
  \<open>int\<close>.
\<close>

definition Atoi :: "string \<Rightarrow> num_error + int" where
  "Atoi s =
     (let (neg, digits) =
        (case s of [] \<Rightarrow> (False, [])
         | c # cs \<Rightarrow> if c = CHR ''-'' then (True, cs) else if c = CHR ''+'' then (False, cs) else (False, s))
      in case ParseUint digits of
           (_, Some e) \<Rightarrow> Inl e
         | (n, None) \<Rightarrow>
             if \<not> neg \<and> 2 ^ 63 \<le> n then Inl ErrRange
             else if neg \<and> 2 ^ 63 < n then Inl ErrRange
             else Inr (if neg then - int n else int n))"

lemma digit_char_simps [simp]:
  assumes "d < 10"
  shows "is_digit (digit_char d)" and "digit_val (digit_char d) = d"
  using assms by (simp_all add: is_digit_def digit_val_def digit_char_def)

lemma dec_not_Nil [simp]: "dec n \<noteq> []"
  by (subst dec.simps) simp

lemma dec_digits: "c \<in> set (dec n) \<Longrightarrow> is_digit c"
proof (induction n rule: dec.induct)
  case (1 n)
  then show ?case by (cases "n < 10") (auto simp: dec.simps [of n])
qed

lemma digit_not_special:
  assumes "is_digit c"
  shows "c \<noteq> CHR ''-''" "c \<noteq> CHR ''+''" "c \<noteq> CHR ''.''" "c \<noteq> CHR ''=''" "c \<noteq> CHR '' ''"
  using assms by (auto simp: is_digit_def)

lemma ParseUint_loop_append:
  "ParseUint_loop m (xs @ ys) =
     (case ParseUint_loop m xs of (n, None) \<Rightarrow> ParseUint_loop n ys | (n, Some e) \<Rightarrow> (n, Some e))"
  by (induction xs arbitrary: m) (auto simp: Let_def)

lemma ParseUint_loop_dec_eq: "n \<le> maxUint64 \<Longrightarrow> ParseUint_loop 0 (dec n) = (n, None)"
proof (induction n rule: dec.induct)
  case (1 n)
  show ?case
  proof (cases "n < 10")
    case True
    then show ?thesis by (simp add: dec.simps [of n])
  next
    case False
    have "ParseUint_loop 0 (dec (n div 10)) = (n div 10, None)"
      using "1.IH" [OF False] "1.prems" by simp
    moreover have "10 * (n div 10) + n mod 10 = n" by simp
    ultimately show ?thesis
      using False "1.prems" by (simp add: dec.simps [of n] ParseUint_loop_append)
  qed
qed

lemma ParseUint_dec: "n \<le> maxUint64 \<Longrightarrow> ParseUint (dec n) = (n, None)"
  by (simp add: ParseUint_def ParseUint_loop_dec_eq)

lemma ParseUint_loop_bound: "m \<le> maxUint64 \<Longrightarrow> fst (ParseUint_loop m s) \<le> maxUint64"
  by (induction s arbitrary: m) (auto simp: Let_def)

lemma ParseUint_bound: "fst (ParseUint s) \<le> maxUint64"
  by (simp add: ParseUint_def ParseUint_loop_bound)

lemma ParseUint_loop_ok_digits: "ParseUint_loop m s = (n, None) \<Longrightarrow> list_all is_digit s"
  by (induction s arbitrary: m) (auto simp: Let_def split: if_splits)

lemma ParseUint_ok_digits: "ParseUint s = (n, None) \<Longrightarrow> s \<noteq> [] \<and> list_all is_digit s"
  by (auto simp: ParseUint_def dest: ParseUint_loop_ok_digits split: if_splits)

lemma dec_u64_inject: "dec (unat (a :: u64)) = dec (unat b) \<longleftrightarrow> a = b"
proof
  assume "dec (unat a) = dec (unat b)"
  moreover have "unat a \<le> maxUint64" "unat b \<le> maxUint64"
    using u64_bound [of a] u64_bound [of b] by simp_all
  ultimately have "(unat a, None :: num_error option) = (unat b, None)"
    by (metis ParseUint_dec)
  then show "a = b" by (simp add: word_unat_eq_iff)
qed simp

lemma Atoi_dec:
  assumes "n < 2 ^ 63"
  shows "Atoi (dec n) = Inr (int n)"
proof -
  obtain c cs where cs: "dec n = c # cs" by (cases "dec n") auto
  then have "is_digit c" using dec_digits [of c n] by simp
  moreover have "ParseUint (dec n) = (n, None)"
    using assms by (intro ParseUint_dec) simp
  ultimately show ?thesis
    using assms cs by (simp add: Atoi_def digit_not_special)
qed

text \<open>\<open>fmt.Sprintf("%d", n)\<close> for a signed integer.\<close>

definition dec_int :: "int \<Rightarrow> string" where
  "dec_int n = (if n < 0 then CHR ''-'' # dec (nat (- n)) else dec (nat n))"

text \<open>A text whose first and last bytes begin and end no white space is not trimmed.\<close>

definition plain_ends :: "string \<Rightarrow> bool" where
  "plain_ends s \<longleftrightarrow> s \<noteq> [] \<and> list_all (\<lambda>p. hd p \<noteq> hd s \<and> last p \<noteq> last s) go_spaces"

lemma go_spaces_not_Nil: "p \<in> set go_spaces \<Longrightarrow> p \<noteq> []"
proof -
  have "list_all (\<lambda>p. p \<noteq> []) go_spaces" by code_simp
  then show "p \<in> set go_spaces \<Longrightarrow> p \<noteq> []" by (auto simp: list_all_iff)
qed

lemma TrimSpace_Nil: "TrimSpace [] = []"
  by (simp add: TrimSpace_def trim_with_fix)

lemma TrimSpace_plain:
  assumes "plain_ends s"
  shows "TrimSpace s = s"
proof -
  have ends: "hd p \<noteq> hd s" "last p \<noteq> last s" "p \<noteq> []" if "p \<in> set go_spaces" for p
    using assms that go_spaces_not_Nil by (auto simp: plain_ends_def list_all_iff)
  have front: "\<not> prefix p s" if "p \<in> set go_spaces" for p
    using ends [OF that] by (auto simp: prefix_def)
  have rear: "\<not> prefix (rev p) (rev s)" if "p \<in> set go_spaces" for p
    using ends [OF that] by (auto simp: suffix_to_prefix [symmetric] suffix_def)
  have "trim_with go_spaces s = s" by (rule trim_with_fix) (use front in blast)
  moreover have "trim_with (map rev go_spaces) (rev s) = rev s" by (rule trim_with_fix) (use rear in auto)
  ultimately show ?thesis by (simp add: TrimSpace_def)
qed

lemma plain_ends_digits: "s \<noteq> [] \<Longrightarrow> (\<And>c. c \<in> set s \<Longrightarrow> is_digit c) \<Longrightarrow> plain_ends s"
proof -
  assume s: "s \<noteq> []" "\<And>c. c \<in> set s \<Longrightarrow> is_digit c"
  then have "is_digit (hd s)" "is_digit (last s)" by simp_all
  moreover have "list_all (\<lambda>p. \<not> is_digit (hd p) \<and> \<not> is_digit (last p)) go_spaces" by code_simp
  ultimately show ?thesis using s(1) by (auto simp: plain_ends_def list_all_iff)
qed

definition is_letter :: "char \<Rightarrow> bool" where
  "is_letter c \<longleftrightarrow> 65 \<le> (of_char c :: nat) \<and> (of_char c :: nat) \<le> 122"

lemma plain_ends_letters: "is_letter (hd s) \<Longrightarrow> is_letter (last s) \<Longrightarrow> s \<noteq> [] \<Longrightarrow> plain_ends s"
proof -
  have "list_all (\<lambda>p. \<not> is_letter (hd p) \<and> \<not> is_letter (last p)) go_spaces" by code_simp
  then show "is_letter (hd s) \<Longrightarrow> is_letter (last s) \<Longrightarrow> s \<noteq> [] \<Longrightarrow> plain_ends s"
    by (auto simp: plain_ends_def list_all_iff)
qed

lemma plain_ends_append: "plain_ends s \<Longrightarrow> plain_ends t \<Longrightarrow> plain_ends (s @ t)"
  by (auto simp: plain_ends_def list_all_iff)

section \<open>Slash-separated paths\<close>

text \<open>
  \<open>filepath.Clean\<close>, \<open>Join\<close> and \<open>Dir\<close> on Unix: empty and dot components
  vanish, a double dot removes the component before it.
\<close>

definition clean_step :: "bool \<Rightarrow> string \<Rightarrow> string list \<Rightarrow> string list" where
  "clean_step rooted c stack =
     (if c = [] \<or> c = ''.'' then stack
      else if c = ''..'' then
        (case stack of
           [] \<Rightarrow> if rooted then [] else [c]
         | d # ds \<Rightarrow> if d = ''..'' then c # stack else ds)
      else c # stack)"

definition path_Clean :: "string \<Rightarrow> string" where
  "path_Clean p =
     (let rooted = HasPrefix p ''/'';
          comps = rev (fold (clean_step rooted) (Split (CHR ''/'') p) []);
          body = Join comps ''/''
      in if rooted then CHR ''/'' # body else if body = [] then ''.'' else body)"

definition path_Join :: "string \<Rightarrow> string \<Rightarrow> string" where
  "path_Join a b = (if a = [] \<and> b = [] then []
     else if a = [] then path_Clean b else if b = [] then path_Clean a else path_Clean (a @ ''/'' @ b))"

definition path_Dir :: "string \<Rightarrow> string" where
  "path_Dir p = path_Clean (rev (dropWhile (\<lambda>c. c \<noteq> CHR ''/'') (rev p)))"

lemma clean_step_no_slash:
  "CHR ''/'' \<notin> set c \<Longrightarrow> \<forall>x \<in> set st. CHR ''/'' \<notin> set x \<Longrightarrow> \<forall>x \<in> set (clean_step r c st). CHR ''/'' \<notin> set x"
  by (auto simp: clean_step_def split: list.splits if_splits)

end
