(* ===== verification/Store_Types.thy ===== *)
theory Store_Types
  imports Go_Strings
begin

text \<open>
  The store package's records (\<open>src/internal/store/types.go\<close>), its interface
  (\<open>src/internal/store/store.go\<close>) as a record of functions over a backend state, the
  abstract catalog a backend represents, and the contract of the interface as the locale
  \<open>store_contract\<close>: every write is atomic, a write that reports success has happened,
  the two sentinel errors tell the truth, and reads return what the catalog holds. The
  contract leaves room for any other error, after which a write may or may not have taken
  effect; \<open>reliable_store\<close> adds that no other error occurs.
\<close>

section \<open>Records\<close>

text \<open>\<open>ProvisionMode\<close> is a Go \<open>int\<close> with three named values.\<close>

type_synonym ProvisionMode = int

definition ProvisionUnspecified :: ProvisionMode where "ProvisionUnspecified = 0"
definition ProvisionThick :: ProvisionMode where "ProvisionThick = 1"
definition ProvisionThin :: ProvisionMode where "ProvisionThin = 2"

lemmas mode_defs = ProvisionUnspecified_def ProvisionThick_def ProvisionThin_def

lemma mode_distinct [simp]:
  "ProvisionThick \<noteq> ProvisionThin" "ProvisionThin \<noteq> ProvisionThick"
  "ProvisionUnspecified \<noteq> ProvisionThick" "ProvisionUnspecified \<noteq> ProvisionThin"
  "ProvisionThick \<noteq> ProvisionUnspecified" "ProvisionThin \<noteq> ProvisionUnspecified"
  by (simp_all add: mode_defs)

definition ProvisionMode_String :: "ProvisionMode \<Rightarrow> string" where
  "ProvisionMode_String p =
     (if p = ProvisionThick then ''thick''
      else if p = ProvisionThin then ''thin''
      else ''unspecified'')"

record DiskRecord =
  dName :: string
  dVG :: string
  dMode :: ProvisionMode
  dSizeBytes :: u64
  dVirtualSizeBytes :: u64
  dDevicePath :: string
  dCreatedOnNode :: string
  dCreatedAt :: gotime
  dLastExtendedAt :: gotime

record AttachmentRecord =
  aDiskName :: string
  aVMName :: string
  aHost :: string
  aTargetDev :: string
  aAttachedAt :: gotime

text \<open>The zero values Go returns beside an error.\<close>

definition zeroDisk :: DiskRecord where
  "zeroDisk = \<lparr>dName = [], dVG = [], dMode = 0, dSizeBytes = 0, dVirtualSizeBytes = 0,
     dDevicePath = [], dCreatedOnNode = [], dCreatedAt = zeroTime, dLastExtendedAt = zeroTime\<rparr>"

definition zeroAttachment :: AttachmentRecord where
  "zeroAttachment = \<lparr>aDiskName = [], aVMName = [], aHost = [], aTargetDev = [], aAttachedAt = zeroTime\<rparr>"

definition AttachmentKey :: "string \<Rightarrow> string \<Rightarrow> string" where
  "AttachmentKey disk vm = disk @ ''|'' @ vm"

text \<open>
  The composite key tells two pairs apart as long as the disk names contain no bar; with a
  bar in the name, two different pairs can share a key.
\<close>

lemma AttachmentKey_inject:
  assumes "CHR ''|'' \<notin> set d" "CHR ''|'' \<notin> set d'"
  shows "AttachmentKey d v = AttachmentKey d' v' \<longleftrightarrow> d = d' \<and> v = v'"
proof
  assume "AttachmentKey d v = AttachmentKey d' v'"
  then have "cut (CHR ''|'') (d @ CHR ''|'' # v) = cut (CHR ''|'') (d' @ CHR ''|'' # v')"
    by (simp add: AttachmentKey_def)
  with assms show "d = d' \<and> v = v'" by (simp add: cut_append)
qed simp

section \<open>The interface\<close>

text \<open>
  One field per method of the Go interface \<open>Store\<close>. A method takes the backend's state
  and returns its result together with the next state; \<open>error option\<close> is Go's
  \<open>error\<close> with \<open>None\<close> for \<open>nil\<close>.
\<close>

record 's Store =
  st_CreateDisk :: "DiskRecord \<Rightarrow> 's \<Rightarrow> error option \<times> 's"
  st_UpdateDisk :: "DiskRecord \<Rightarrow> 's \<Rightarrow> error option \<times> 's"
  st_GetDisk :: "string \<Rightarrow> 's \<Rightarrow> DiskRecord result \<times> 's"
  st_ListDisks :: "string \<Rightarrow> 's \<Rightarrow> DiskRecord list result \<times> 's"
  st_DeleteDisk :: "string \<Rightarrow> 's \<Rightarrow> error option \<times> 's"
  st_CreateAttachment :: "AttachmentRecord \<Rightarrow> 's \<Rightarrow> error option \<times> 's"
  st_GetAttachment :: "string \<Rightarrow> string \<Rightarrow> 's \<Rightarrow> AttachmentRecord result \<times> 's"
  st_ListAttachments :: "string \<Rightarrow> string \<Rightarrow> 's \<Rightarrow> AttachmentRecord list result \<times> 's"
  st_DeleteAttachment :: "string \<Rightarrow> string \<Rightarrow> 's \<Rightarrow> error option \<times> 's"
  st_Close :: "'s \<Rightarrow> error option \<times> 's"

section \<open>The abstract catalog\<close>

record Catalog =
  cat_disks :: "string \<rightharpoonup> DiskRecord"
  cat_atts :: "string \<times> string \<rightharpoonup> AttachmentRecord"

abbreviation att_key :: "AttachmentRecord \<Rightarrow> string \<times> string" where
  "att_key a \<equiv> (aDiskName a, aVMName a)"

definition put_disk :: "DiskRecord \<Rightarrow> Catalog \<Rightarrow> Catalog" where
  "put_disk r c = c\<lparr>cat_disks := (cat_disks c)(dName r \<mapsto> r)\<rparr>"

definition drop_disk :: "string \<Rightarrow> Catalog \<Rightarrow> Catalog" where
  "drop_disk n c = c\<lparr>cat_disks := (cat_disks c)(n := None)\<rparr>"

definition put_att :: "AttachmentRecord \<Rightarrow> Catalog \<Rightarrow> Catalog" where
  "put_att a c = c\<lparr>cat_atts := (cat_atts c)(att_key a \<mapsto> a)\<rparr>"

definition drop_att :: "string \<Rightarrow> string \<Rightarrow> Catalog \<Rightarrow> Catalog" where
  "drop_att d v c = c\<lparr>cat_atts := (cat_atts c)((d, v) := None)\<rparr>"

definition cat_wf :: "Catalog \<Rightarrow> bool" where
  "cat_wf c \<longleftrightarrow> (\<forall>n r. cat_disks c n = Some r \<longrightarrow> dName r = n)
     \<and> (\<forall>k a. cat_atts c k = Some a \<longrightarrow> att_key a = k)"

text \<open>
  What a listing of the catalog is: the matching records, each once, in the order of their
  keys.
\<close>

definition lists_disks :: "string \<Rightarrow> Catalog \<Rightarrow> DiskRecord list \<Rightarrow> bool" where
  "lists_disks vg c ds \<longleftrightarrow> sorted_wrt (<) (map dName ds)
     \<and> set ds = {r \<in> ran (cat_disks c). vg = [] \<or> dVG r = vg}"

definition lists_atts :: "string \<Rightarrow> string \<Rightarrow> Catalog \<Rightarrow> AttachmentRecord list \<Rightarrow> bool" where
  "lists_atts d v c as \<longleftrightarrow> sorted_wrt (<) (map att_key as)
     \<and> set as = {a \<in> ran (cat_atts c). (d = [] \<or> aDiskName a = d) \<and> (v = [] \<or> aVMName a = v)}"

lemma cat_ops_simps [catalog_simps, simp]:
  "cat_disks (put_disk r c) = (cat_disks c)(dName r \<mapsto> r)"
  "cat_atts (put_disk r c) = cat_atts c"
  "cat_disks (drop_disk n c) = (cat_disks c)(n := None)"
  "cat_atts (drop_disk n c) = cat_atts c"
  "cat_disks (put_att a c) = cat_disks c"
  "cat_atts (put_att a c) = (cat_atts c)(att_key a \<mapsto> a)"
  "cat_disks (drop_att d v c) = cat_disks c"
  "cat_atts (drop_att d v c) = (cat_atts c)((d, v) := None)"
  by (simp_all add: put_disk_def drop_disk_def put_att_def drop_att_def)

lemma cat_eqI: "cat_disks c = cat_disks c' \<Longrightarrow> cat_atts c = cat_atts c' \<Longrightarrow> c = (c' :: Catalog)"
  by (cases c; cases c') simp

lemma cat_wf_ops [simp]:
  assumes "cat_wf c"
  shows "cat_wf (put_disk r c)" "cat_wf (drop_disk n c)" "cat_wf (put_att a c)" "cat_wf (drop_att d v c)"
  using assms by (auto simp: cat_wf_def)


section \<open>The contract\<close>

text \<open>
  \<open>write_outcome e blocked pre c cnew c'\<close>: a write that is enabled when \<open>pre\<close> holds
  and refused with the sentinel \<open>blocked\<close> otherwise, from catalog \<open>c\<close>, with the
  reported error \<open>e\<close>, ended in catalog \<open>c'\<close>.
\<close>

definition write_outcome ::
    "error option \<Rightarrow> error \<Rightarrow> bool \<Rightarrow> Catalog \<Rightarrow> Catalog \<Rightarrow> Catalog \<Rightarrow> bool" where
  "write_outcome e blocked pre c cnew c' \<longleftrightarrow>
     (case e of
        None \<Rightarrow> pre \<and> c' = cnew
      | Some x \<Rightarrow> (errors_Is x blocked \<longrightarrow> \<not> pre \<and> c' = c) \<and> (c' = c \<or> pre \<and> c' = cnew))"

definition read_outcome :: "'a result \<Rightarrow> 'a option \<Rightarrow> bool" where
  "read_outcome r x \<longleftrightarrow>
     (case r of Inr y \<Rightarrow> x = Some y | Inl e \<Rightarrow> errors_Is e ErrNotFound \<longrightarrow> x = None)"

lemma write_outcome_simps [simp]:
  "write_outcome None blocked pre c cnew c' \<longleftrightarrow> pre \<and> c' = cnew"
  "write_outcome (Some x) blocked pre c cnew c' \<longleftrightarrow>
     (errors_Is x blocked \<longrightarrow> \<not> pre \<and> c' = c) \<and> (c' = c \<or> pre \<and> c' = cnew)"
  by (simp_all add: write_outcome_def)

lemma read_outcome_simps [simp]:
  "read_outcome (Inr y) x \<longleftrightarrow> x = Some y"
  "read_outcome (Inl e) x \<longleftrightarrow> (errors_Is e ErrNotFound \<longrightarrow> x = None)"
  by (simp_all add: read_outcome_def)

locale store_contract =
  fixes st :: "'s Store"
    and cat :: "'s \<Rightarrow> Catalog"
    and inv :: "'s \<Rightarrow> bool"
    and ok :: "string \<Rightarrow> bool"
  assumes wf: "inv s \<Longrightarrow> cat_wf (cat s)"
    and create_disk: "inv s \<Longrightarrow> st_CreateDisk st r s = (e, s') \<Longrightarrow> inv s' \<and>
      write_outcome e ErrAlreadyExists (cat_disks (cat s) (dName r) = None) (cat s) (put_disk r (cat s)) (cat s')"
    and update_disk: "inv s \<Longrightarrow> st_UpdateDisk st r s = (e, s') \<Longrightarrow> inv s' \<and>
      write_outcome e ErrNotFound (cat_disks (cat s) (dName r) \<noteq> None) (cat s) (put_disk r (cat s)) (cat s')"
    and get_disk: "inv s \<Longrightarrow> st_GetDisk st n s = (x, s') \<Longrightarrow> inv s' \<and> cat s' = cat s \<and>
      read_outcome x (cat_disks (cat s) n)"
    and list_disks: "inv s \<Longrightarrow> st_ListDisks st vg s = (xs, s') \<Longrightarrow> inv s' \<and> cat s' = cat s \<and>
      (\<forall>ds. xs = Inr ds \<longrightarrow> lists_disks vg (cat s) ds)"
    and delete_disk: "inv s \<Longrightarrow> st_DeleteDisk st n s = (e, s') \<Longrightarrow> inv s' \<and>
      write_outcome e ErrNotFound True (cat s) (drop_disk n (cat s)) (cat s')"
    and create_att: "inv s \<Longrightarrow> ok (aDiskName a) \<Longrightarrow> st_CreateAttachment st a s = (e, s') \<Longrightarrow> inv s' \<and>
      write_outcome e ErrAlreadyExists (cat_atts (cat s) (att_key a) = None) (cat s) (put_att a (cat s)) (cat s')"
    and get_att: "inv s \<Longrightarrow> ok d \<Longrightarrow> st_GetAttachment st d v s = (y, s') \<Longrightarrow> inv s' \<and> cat s' = cat s \<and>
      read_outcome y (cat_atts (cat s) (d, v))"
    and list_atts: "inv s \<Longrightarrow> ok d \<Longrightarrow> st_ListAttachments st d v s = (ys, s') \<Longrightarrow> inv s' \<and> cat s' = cat s \<and>
      (\<forall>as. ys = Inr as \<longrightarrow> lists_atts d v (cat s) as)"
    and delete_att: "inv s \<Longrightarrow> ok d \<Longrightarrow> st_DeleteAttachment st d v s = (e, s') \<Longrightarrow> inv s' \<and>
      write_outcome e ErrNotFound True (cat s) (drop_att d v (cat s)) (cat s')"
    and ok_Nil: "ok []"
begin

lemma create_then_get:
  assumes "inv s" "st_CreateDisk st r s = (None, s')" "st_GetDisk st (dName r) s' = (Inr r', s'')"
  shows "r' = r"
  using create_disk [OF assms(1,2)] get_disk [of s' "dName r" "Inr r'" s''] assms(3) by simp

lemma create_then_get_not_missing:
  assumes "inv s" "st_CreateDisk st r s = (None, s')" "st_GetDisk st (dName r) s' = (Inl e, s'')"
  shows "\<not> errors_Is e ErrNotFound"
  using create_disk [OF assms(1,2)] get_disk [of s' "dName r" "Inl e" s''] assms(3) by auto

lemma listed_atts_of_disk:
  assumes "inv s" "ok d" "d \<noteq> []" "st_ListAttachments st d [] s = (Inr as, s')" "a \<in> set as"
  shows "aDiskName a = d \<and> cat_atts (cat s) (att_key a) = Some a"
proof -
  from list_atts [OF assms(1,2,4)] assms(3,5) have "a \<in> ran (cat_atts (cat s))" "aDiskName a = d"
    by (auto simp: lists_atts_def)
  moreover from this(1) obtain k where k: "cat_atts (cat s) k = Some a" by (auto simp: ran_def)
  moreover from k wf [OF assms(1)] have "att_key a = k" unfolding cat_wf_def by blast
  ultimately show ?thesis by simp
qed

end

locale reliable_store = store_contract +
  assumes create_disk_rel: "inv s \<Longrightarrow> st_CreateDisk st r s = (Some x, s') \<Longrightarrow> errors_Is x ErrAlreadyExists"
    and update_disk_rel: "inv s \<Longrightarrow> st_UpdateDisk st r s = (Some x, s') \<Longrightarrow> errors_Is x ErrNotFound"
    and get_disk_rel: "inv s \<Longrightarrow> st_GetDisk st n s = (Inl x, s') \<Longrightarrow> errors_Is x ErrNotFound"
    and list_disks_rel: "inv s \<Longrightarrow> fst (st_ListDisks st vg s) \<noteq> Inl x"
    and delete_disk_rel: "inv s \<Longrightarrow> fst (st_DeleteDisk st n s) = None"
    and create_att_rel: "inv s \<Longrightarrow> ok (aDiskName a) \<Longrightarrow> st_CreateAttachment st a s = (Some x, s') \<Longrightarrow>
      errors_Is x ErrAlreadyExists"
    and get_att_rel: "inv s \<Longrightarrow> ok d \<Longrightarrow> st_GetAttachment st d v s = (Inl x, s') \<Longrightarrow> errors_Is x ErrNotFound"
    and list_atts_rel: "inv s \<Longrightarrow> ok d \<Longrightarrow> fst (st_ListAttachments st d v s) \<noteq> Inl x"
    and delete_att_rel: "inv s \<Longrightarrow> ok d \<Longrightarrow> fst (st_DeleteAttachment st d v s) = None"
begin

lemma get_disk_some:
  assumes "inv s" "cat_disks (cat s) n = Some r"
  shows "\<exists>s'. st_GetDisk st n s = (Inr r, s') \<and> inv s' \<and> cat s' = cat s"
proof -
  obtain x s' where g: "st_GetDisk st n s = (x, s')" by fastforce
  from get_disk [OF assms(1) g] have *: "inv s' \<and> cat s' = cat s \<and> read_outcome x (Some r)"
    using assms(2) by simp
  show ?thesis
  proof (cases x)
    case (Inl e)
    with g get_disk_rel [OF assms(1)] have "errors_Is e ErrNotFound" by blast
    with Inl * show ?thesis by simp
  next
    case (Inr y)
    with * g show ?thesis by simp
  qed
qed

lemma get_disk_none:
  assumes "inv s" "cat_disks (cat s) n = None"
  shows "\<exists>e s'. st_GetDisk st n s = (Inl e, s') \<and> errors_Is e ErrNotFound \<and> inv s' \<and> cat s' = cat s"
proof -
  obtain x s' where g: "st_GetDisk st n s = (x, s')" by fastforce
  from get_disk [OF assms(1) g] assms(2) obtain e where "x = Inl e" "inv s'" "cat s' = cat s"
    by (cases x) auto
  with g get_disk_rel [OF assms(1)] show ?thesis by blast
qed

lemma create_disk_ok:
  assumes "inv s" "cat_disks (cat s) (dName r) = None"
  shows "\<exists>s'. st_CreateDisk st r s = (None, s') \<and> inv s' \<and> cat s' = put_disk r (cat s)"
proof -
  obtain e s' where c: "st_CreateDisk st r s = (e, s')" by fastforce
  from create_disk [OF assms(1) c] create_disk_rel [OF assms(1)] c assms(2) show ?thesis
    by (cases e) auto
qed

lemma update_disk_ok:
  assumes "inv s" "cat_disks (cat s) (dName r) \<noteq> None"
  shows "\<exists>s'. st_UpdateDisk st r s = (None, s') \<and> inv s' \<and> cat s' = put_disk r (cat s)"
proof -
  obtain e s' where c: "st_UpdateDisk st r s = (e, s')" by fastforce
  from update_disk [OF assms(1) c] update_disk_rel [OF assms(1)] c assms(2) show ?thesis
    by (cases e) auto
qed

lemma list_atts_ok:
  assumes "inv s" "ok d"
  shows "\<exists>as s'. st_ListAttachments st d v s = (Inr as, s') \<and> inv s' \<and> cat s' = cat s \<and> lists_atts d v (cat s) as"
proof -
  obtain x s' where l: "st_ListAttachments st d v s = (x, s')" by fastforce
  with list_atts_rel [OF assms, of v] obtain as where "x = Inr as" by (cases x) auto
  with list_atts [OF assms l] l show ?thesis by blast
qed

lemma delete_disk_ok: "inv s \<Longrightarrow> \<exists>s'. st_DeleteDisk st n s = (None, s') \<and> inv s' \<and> cat s' = drop_disk n (cat s)"
  using delete_disk [of s n] delete_disk_rel [of s n] by (cases "st_DeleteDisk st n s") auto

end

end
