(* ===== verification/Go_Float.thy ===== *)
theory Go_Float
  imports Complex_Main Go_Strings
begin

text \<open>
  Go's \<open>float64\<close> as the program uses it: non-negative finite values only, computed from
  unsigned integers, decimal literals and the four operations. A value is the rational it
  denotes; every operation is the exact rational operation followed by \<open>rnd64\<close>,
  rounding to the nearest multiple of the unit in the last place (53 significant bits, ties
  to even, with the subnormal threshold at \<open>2 ^ -1074\<close>). The lemmas show that rounding
  is monotone and exact on every integer up to \<open>2 ^ 53\<close>.
\<close>

type_synonym f64 = rat

section \<open>Rounding\<close>

definition pow2 :: "int \<Rightarrow> rat" where
  "pow2 e = (if 0 \<le> e then 2 ^ nat e else 1 / 2 ^ nat (- e))"

fun nlog2 :: "nat \<Rightarrow> nat" where
  "nlog2 n = (if n < 2 then 0 else Suc (nlog2 (n div 2)))"

declare nlog2.simps [simp del]

definition ilog2 :: "rat \<Rightarrow> int" where
  "ilog2 x = (case quotient_of x of (n, d) \<Rightarrow>
     (let e = int (nlog2 (nat n)) - int (nlog2 (nat d)) in if pow2 e \<le> x then e else e - 1))"

definition round_even :: "rat \<Rightarrow> int" where
  "round_even x = (let f = \<lfloor>x\<rfloor>; r = x - of_int f in
     if r < 1 / 2 then f else if 1 / 2 < r then f + 1 else if even f then f else f + 1)"

definition ulp :: "rat \<Rightarrow> rat" where
  "ulp x = pow2 (max (ilog2 x - 52) (- 1074))"

definition rnd64 :: "rat \<Rightarrow> f64" where
  "rnd64 x = (if x \<le> 0 then 0 else of_int (round_even (x / ulp x)) * ulp x)"

section \<open>Powers of two and binary logarithms\<close>

lemma pow2_pos [simp]: "0 < pow2 e"
  by (simp add: pow2_def)

lemma pow2_add: "pow2 (a + b) = pow2 a * pow2 b"
proof -
  have powr: "pow2 e = 2 powi e" for e
    by (simp add: pow2_def power_int_def field_simps)
  show ?thesis by (simp add: powr power_int_add)
qed

lemma pow2_1 [simp]: "pow2 1 = 2" and pow2_0 [simp]: "pow2 0 = 1"
  by (simp_all add: pow2_def)

lemma pow2_nat: "pow2 (int n) = 2 ^ n"
  by (simp add: pow2_def)

lemma pow2_mono: "a \<le> b \<Longrightarrow> pow2 a \<le> pow2 b"
proof -
  assume "a \<le> b"
  then obtain n where "b = a + int n" using zle_iff_zadd by blast
  then have "pow2 b = pow2 a * 2 ^ n" by (simp add: pow2_add pow2_nat)
  moreover have "pow2 a * 1 \<le> pow2 a * 2 ^ n" by (rule mult_left_mono) (simp_all add: less_imp_le)
  ultimately show ?thesis by simp
qed

lemma pow2_strict: "a < b \<Longrightarrow> 2 * pow2 a \<le> pow2 b"
  using pow2_mono [of "1 + a" b] by (simp add: pow2_add)

lemma nlog2_bounds: "0 < n \<Longrightarrow> 2 ^ nlog2 n \<le> n \<and> n < 2 ^ Suc (nlog2 n)"
proof (induction n rule: nlog2.induct)
  case (1 n)
  show ?case
  proof (cases "n < 2")
    case True
    with "1.prems" show ?thesis by (simp add: nlog2.simps [of n])
  next
    case False
    with "1.IH" have "2 ^ nlog2 (n div 2) \<le> n div 2" "n div 2 < 2 ^ Suc (nlog2 (n div 2))" by auto
    with False show ?thesis by (simp add: nlog2.simps [of n]) arith
  qed
qed

lemma ilog2_bounds:
  assumes "0 < x"
  shows "pow2 (ilog2 x) \<le> x" and "x < 2 * pow2 (ilog2 x)"
proof -
  obtain n d where q: "quotient_of x = (n, d)" by fastforce
  then have d: "0 < d" and xe: "x = of_int n / of_int d"
    by (auto intro: quotient_of_denom_pos quotient_of_div)
  with assms have n: "0 < n" by (simp add: zero_less_divide_iff)
  define a where "a = nlog2 (nat n)"
  define b where "b = nlog2 (nat d)"
  have "2 ^ a \<le> nat n" "nat n < 2 ^ Suc a" "2 ^ b \<le> nat d" "nat d < 2 ^ Suc b"
    using nlog2_bounds [of "nat n"] nlog2_bounds [of "nat d"] n d by (simp_all add: a_def b_def)
  then have "(2::int) ^ a \<le> n" "n < 2 ^ Suc a" "(2::int) ^ b \<le> d" "d < 2 ^ Suc b"
    using n d by (simp_all add: nat_less_iff le_nat_iff)
  then have na: "(2::rat) ^ a \<le> of_int n" "of_int n < (2::rat) * 2 ^ a"
    and db: "(2::rat) ^ b \<le> of_int d" "of_int d < (2::rat) * 2 ^ b"
    by (metis of_int_le_iff of_int_numeral of_int_power, metis of_int_less_iff of_int_mult of_int_numeral of_int_power power_Suc,
        metis of_int_le_iff of_int_numeral of_int_power, metis of_int_less_iff of_int_mult of_int_numeral of_int_power power_Suc)
  define e where "e = int a - int b"
  have "pow2 e * pow2 (int b) = pow2 (int a)" by (simp flip: pow2_add add: e_def)
  then have pe: "pow2 e = 2 ^ a / 2 ^ b" by (simp add: pow2_nat field_simps)
  have up: "x < 2 * pow2 e"
  proof -
    have "of_int n / of_int d < (2 * 2 ^ a) / (2::rat) ^ b"
      using na db d n by (intro frac_less) auto
    then show ?thesis by (simp add: xe pe)
  qed
  have lo: "pow2 (e - 1) \<le> x"
  proof -
    have "(2::rat) ^ a / (2 * 2 ^ b) \<le> of_int n / of_int d"
      using na db d n by (intro frac_le) auto
    moreover have "pow2 (e - 1) = pow2 e / 2" using pow2_add [of "e - 1" 1] by simp
    ultimately show ?thesis by (simp add: xe pe)
  qed
  have "2 * pow2 (e - 1) = pow2 e" using pow2_add [of "e - 1" 1] by simp
  with q up lo show "pow2 (ilog2 x) \<le> x" "x < 2 * pow2 (ilog2 x)"
    by (auto simp: ilog2_def Let_def a_def b_def e_def)
qed

lemma ilog2_mono: "0 < x \<Longrightarrow> x \<le> y \<Longrightarrow> ilog2 x \<le> ilog2 y"
proof (rule ccontr)
  assume x: "0 < x" "x \<le> y" and "\<not> ilog2 x \<le> ilog2 y"
  then have "2 * pow2 (ilog2 y) \<le> pow2 (ilog2 x)" by (intro pow2_strict) simp
  with ilog2_bounds(1) [of x] ilog2_bounds(2) [of y] x show False by linarith
qed

lemma ilog2_upper: "0 < x \<Longrightarrow> x < pow2 e \<Longrightarrow> ilog2 x < e"
proof (rule ccontr)
  assume "0 < x" "x < pow2 e" "\<not> ilog2 x < e"
  with ilog2_bounds(1) [of x] pow2_mono [of e "ilog2 x"] show False by linarith
qed

section \<open>Rounding to an integer\<close>

lemma round_even_of_int [simp]: "round_even (of_int n) = n"
  by (simp add: round_even_def)

lemma round_even_cases: "round_even x = \<lfloor>x\<rfloor> \<or> round_even x = \<lfloor>x\<rfloor> + 1"
  by (simp add: round_even_def Let_def)

lemma round_even_mono:
  assumes "x \<le> y"
  shows "round_even x \<le> round_even y"
proof (cases "\<lfloor>x\<rfloor> = \<lfloor>y\<rfloor>")
  case True
  with assms have "x - of_int \<lfloor>x\<rfloor> \<le> y - of_int \<lfloor>y\<rfloor>" by simp
  with True show ?thesis unfolding round_even_def Let_def by auto
next
  case False
  with floor_mono [OF assms] have "\<lfloor>x\<rfloor> + 1 \<le> \<lfloor>y\<rfloor>" by simp
  then show ?thesis using round_even_cases [of x] round_even_cases [of y] by linarith
qed

lemma round_even_nonneg: "0 \<le> x \<Longrightarrow> 0 \<le> round_even x"
  using round_even_mono [of 0 x] round_even_of_int [of 0] by simp

section \<open>Properties of rounding to 53 bits\<close>

lemma ulp_pos [simp]: "0 < ulp x"
  by (simp add: ulp_def)

lemma rnd64_nonneg [simp]: "0 \<le> rnd64 x"
  by (simp add: rnd64_def round_even_nonneg less_imp_le)

lemma rnd64_0 [simp]: "rnd64 0 = 0"
  by (simp add: rnd64_def)

lemma pow2_diff_int:
  assumes "b \<le> a"
  shows "pow2 a / pow2 b = of_int (2 ^ nat (a - b))"
proof -
  have "pow2 a = pow2 b * pow2 (a - b)" by (simp flip: pow2_add)
  with assms show ?thesis by (simp add: pow2_def)
qed

lemma rnd64_le_pow2:
  assumes "0 < x" "x \<le> pow2 k" "max (ilog2 x - 52) (- 1074) \<le> k"
  shows "rnd64 x \<le> pow2 k"
proof -
  let ?u = "ulp x"
  have i: "pow2 k / ?u = of_int (2 ^ nat (k - max (ilog2 x - 52) (- 1074)))"
    unfolding ulp_def using assms(3) by (rule pow2_diff_int)
  have "round_even (x / ?u) \<le> round_even (pow2 k / ?u)"
    using assms(2) by (intro round_even_mono divide_right_mono) (auto intro: less_imp_le)
  then have "of_int (round_even (x / ?u)) \<le> pow2 k / ?u" unfolding i round_even_of_int by simp
  then show ?thesis using assms(1) by (simp add: rnd64_def pos_le_divide_eq)
qed

lemma rnd64_ge_pow2:
  assumes "0 < x" "pow2 k \<le> x" "max (ilog2 x - 52) (- 1074) \<le> k"
  shows "pow2 k \<le> rnd64 x"
proof -
  let ?u = "ulp x"
  have i: "pow2 k / ?u = of_int (2 ^ nat (k - max (ilog2 x - 52) (- 1074)))"
    unfolding ulp_def using assms(3) by (rule pow2_diff_int)
  have "round_even (pow2 k / ?u) \<le> round_even (x / ?u)"
    using assms(2) by (intro round_even_mono divide_right_mono) (auto intro: less_imp_le)
  then have "pow2 k / ?u \<le> of_int (round_even (x / ?u))" unfolding i round_even_of_int by simp
  then show ?thesis using assms(1) by (simp add: rnd64_def pos_divide_le_eq)
qed

lemma rnd64_mono:
  assumes "x \<le> y"
  shows "rnd64 x \<le> rnd64 y"
proof (cases "0 < x")
  case False
  then show ?thesis by (simp add: rnd64_def [of x])
next
  case True
  then have y: "0 < y" using assms by simp
  let ?ex = "max (ilog2 x - 52) (- 1074)" and ?ey = "max (ilog2 y - 52) (- 1074)"
  have l: "ilog2 x \<le> ilog2 y" using True assms by (rule ilog2_mono)
  show ?thesis
  proof (cases "?ex = ?ey")
    case eq: True
    then have u: "ulp x = ulp y" by (simp add: ulp_def)
    have "round_even (x / ulp y) \<le> round_even (y / ulp y)"
      using assms by (intro round_even_mono divide_right_mono) (auto intro: less_imp_le)
    then show ?thesis using True y u by (simp add: rnd64_def mult_right_mono less_imp_le)
  next
    case False
    with l have k: "ilog2 x < ilog2 y" "?ex \<le> ilog2 y" "?ey \<le> ilog2 y" by auto
    have "x \<le> pow2 (ilog2 y)"
      using ilog2_bounds(2) [OF True] pow2_strict [OF k(1)] by linarith
    with True k(2) have "rnd64 x \<le> pow2 (ilog2 y)" by (intro rnd64_le_pow2)
    also have "\<dots> \<le> rnd64 y" using y k(3) ilog2_bounds(1) [OF y] by (intro rnd64_ge_pow2)
    finally show ?thesis .
  qed
qed

lemma rnd64_exact_lt:
  assumes "m < 2 ^ 53" "- 1074 \<le> e"
  shows "rnd64 (of_nat m * pow2 e) = of_nat m * pow2 e"
proof (cases "m = 0")
  case True
  then show ?thesis by simp
next
  case False
  let ?x = "of_nat m * pow2 e"
  have x: "0 < ?x" using False by simp
  have "?x < pow2 53 * pow2 e"
  proof (rule mult_strict_right_mono)
    have "of_nat m < (of_nat (2 ^ 53) :: rat)" using assms(1) by (simp only: of_nat_less_iff)
    then show "of_nat m < pow2 53" using pow2_nat [of 53] by simp
  qed simp
  then have "?x < pow2 (53 + e)" by (simp add: pow2_add)
  then have "ilog2 ?x < 53 + e" by (rule ilog2_upper [OF x])
  with assms(2) have k: "max (ilog2 ?x - 52) (- 1074) \<le> e" by simp
  let ?k = "max (ilog2 ?x - 52) (- 1074)"
  have "?x / ulp ?x = of_nat m * (pow2 e / pow2 ?k)" by (simp add: ulp_def)
  also have "\<dots> = of_int (int m * 2 ^ nat (e - ?k))" by (simp add: pow2_diff_int [OF k])
  finally have i: "?x / ulp ?x = of_int (int m * 2 ^ nat (e - ?k))" .
  have "of_int (round_even (?x / ulp ?x)) = ?x / ulp ?x" unfolding i round_even_of_int ..
  then have "rnd64 ?x = ?x / ulp ?x * ulp ?x" using x by (simp add: rnd64_def)
  also have "\<dots> = ?x" using ulp_pos [of ?x] by (simp add: less_imp_neq [symmetric])
  finally show ?thesis .
qed

lemma rnd64_exact:
  assumes "m \<le> 2 ^ 53" "- 1074 \<le> e"
  shows "rnd64 (of_nat m * pow2 e) = of_nat m * pow2 e"
proof (cases "m = 2 ^ 53")
  case True
  have p: "pow2 (e + 1) = 2 * pow2 e" by (simp add: pow2_add)
  have "rnd64 (of_nat (2 ^ 52) * pow2 (e + 1)) = of_nat (2 ^ 52) * pow2 (e + 1)"
    using assms(2) by (intro rnd64_exact_lt) auto
  then show ?thesis unfolding True p by simp
next
  case False
  with assms show ?thesis by (intro rnd64_exact_lt) auto
qed

lemma rnd64_of_nat: "m \<le> 2 ^ 53 \<Longrightarrow> rnd64 (of_nat m) = of_nat m"
  using rnd64_exact [of m 0] by simp

section \<open>Conversions and operations\<close>

text \<open>\<open>float64(n)\<close> of an unsigned integer, and the operations.\<close>

definition f64_of_u64 :: "u64 \<Rightarrow> f64" where
  "f64_of_u64 n = rnd64 (of_nat (unat n))"

definition f64_sub :: "f64 \<Rightarrow> f64 \<Rightarrow> f64" where "f64_sub a b = rnd64 (a - b)"
definition f64_mul :: "f64 \<Rightarrow> f64 \<Rightarrow> f64" where "f64_mul a b = rnd64 (a * b)"
definition f64_div :: "f64 \<Rightarrow> f64 \<Rightarrow> f64" where "f64_div a b = rnd64 (a / b)"

lemmas f64_ops = f64_of_u64_def f64_sub_def f64_mul_def f64_div_def

text \<open>
  \<open>uint64(x)\<close> truncates towards zero. For a value that does not fit, Go leaves the
  result to the implementation; \<open>oob\<close> stands for what the platform does there.
\<close>

definition u64_of_f64 :: "(f64 \<Rightarrow> u64) \<Rightarrow> f64 \<Rightarrow> u64" where
  "u64_of_f64 oob x = (if - 1 < x \<and> x < 2 ^ 64 then of_int (if x < 0 then 0 else \<lfloor>x\<rfloor>) else oob x)"

lemma u64_of_f64_nat: "n < 2 ^ 64 \<Longrightarrow> u64_of_f64 oob (of_nat n) = of_nat n"
proof -
  assume n: "n < 2 ^ 64"
  then have "(of_nat n :: rat) < of_nat (2 ^ 64)" by (simp only: of_nat_less_iff)
  then show ?thesis by (simp add: u64_of_f64_def)
qed

end
