(* ===== verification/Lvm.thy ===== *)
theory Lvm
  imports Go_Float
begin

text \<open>
  The wrapper of the lvm2 tools, \<open>src/internal/lvm/lvm.go\<close>. A \<open>Runner\<close> is the
  Go interface of the same name: a function from a command line and the state of the outside
  world (what lvm2 keeps) to the command's output, an optional error text and the next
  state. Each method of \<open>Manager\<close> is one function over a runner. Decoding JSON text
  (\<open>encoding/json\<close>) is the parameter \<open>unmarshal\<close>; the reports it yields are a
  datatype, and turning them into volume groups and volumes is modelled in full. The lemmas
  give the command line of every operation, the guards that keep a command from being run,
  and that a report with sizes printed in decimal is read back exactly.
\<close>

section \<open>Running commands\<close>

type_synonym 'x Runner = "string \<Rightarrow> string list \<Rightarrow> 'x \<Rightarrow> (string \<times> string option) \<times> 'x"

text \<open>
  \<open>ExecRunner.Run\<close> over \<open>combined\<close>, which stands for
  \<open>exec.CommandContext(...).CombinedOutput()\<close>: a failure carries the command line, the
  cause and the captured output in its message.
\<close>

definition ExecRunner_Run :: "'x Runner \<Rightarrow> 'x Runner" where
  "ExecRunner_Run combined name args x =
     (case combined name args x of
        ((out, Some err), x') \<Rightarrow>
          ((out, Some (name @ '' '' @ Join args '' '' @ '': '' @ err @ '': '' @ TrimSpace out)), x')
      | ((out, None), x') \<Rightarrow> ((out, None), x'))"

text \<open>Run a command for its effect: the output is dropped.\<close>

definition run_cmd :: "'x Runner \<Rightarrow> string \<Rightarrow> string list \<Rightarrow> 'x \<Rightarrow> error option \<times> 'x" where
  "run_cmd r name args x = (case r name args x of ((_, err), x') \<Rightarrow> (map_option ExecError err, x'))"

section \<open>Operations that change volumes\<close>

definition lv_ref :: "string \<Rightarrow> string \<Rightarrow> string" where
  "lv_ref vg name = vg @ ''/'' @ name"

definition lvm_CreateLV :: "'x Runner \<Rightarrow> string \<Rightarrow> string \<Rightarrow> u64 \<Rightarrow> 'x \<Rightarrow> error option \<times> 'x" where
  "lvm_CreateLV r vg name sizeBytes x =
     (if vg = [] \<or> name = [] then (Some (Errorf ''lvm.CreateLV: vg and name are required'' []), x)
      else if sizeBytes = 0 then (Some (Errorf ''lvm.CreateLV: size must be > 0'' []), x)
      else run_cmd r ''lvcreate'' [''-L'', dec (unat sizeBytes) @ ''B'', ''-n'', name, ''-y'', vg] x)"

definition lvm_RemoveLV :: "'x Runner \<Rightarrow> string \<Rightarrow> string \<Rightarrow> 'x \<Rightarrow> error option \<times> 'x" where
  "lvm_RemoveLV r vg name x = run_cmd r ''lvremove'' [''-f'', lv_ref vg name] x"

definition lvm_ExtendLVAbsolute :: "'x Runner \<Rightarrow> string \<Rightarrow> string \<Rightarrow> u64 \<Rightarrow> 'x \<Rightarrow> error option \<times> 'x" where
  "lvm_ExtendLVAbsolute r vg name sizeBytes x =
     run_cmd r ''lvextend'' [''-L'', dec (unat sizeBytes) @ ''B'', lv_ref vg name] x"

definition lvm_ExtendLVDelta :: "'x Runner \<Rightarrow> string \<Rightarrow> string \<Rightarrow> u64 \<Rightarrow> 'x \<Rightarrow> error option \<times> 'x" where
  "lvm_ExtendLVDelta r vg name deltaBytes x =
     run_cmd r ''lvextend'' [''-L'', ''+'' @ dec (unat deltaBytes) @ ''B'', lv_ref vg name] x"

definition lvm_ExtendLVPercent :: "'x Runner \<Rightarrow> string \<Rightarrow> string \<Rightarrow> int \<Rightarrow> 'x \<Rightarrow> error option \<times> 'x" where
  "lvm_ExtendLVPercent r vg name percent x =
     (if percent \<le> 0 then (Some (Errorf ''lvm.ExtendLVPercent: percent must be > 0'' []), x)
      else run_cmd r ''lvextend'' [''-l'', ''+'' @ dec (nat percent) @ ''%LV'', lv_ref vg name] x)"

definition DevicePath :: "string \<Rightarrow> string \<Rightarrow> string" where
  "DevicePath vg name = ''/dev/'' @ vg @ ''/'' @ name"

section \<open>Reports\<close>

text \<open>
  A value decoded into Go's \<open>any\<close>: the cases \<open>parseUintField\<close> tells apart, and
  every other type.
\<close>

datatype goany = AnyString string | AnyNumber string | AnyFloat f64 | AnyNil | AnyOther string

type_synonym row = "(string, goany) gomap"
type_synonym lvmReportAny = "(string, row list) gomap list"

record VG =
  vg_Name :: string
  vg_SizeBytes :: u64
  vg_FreeBytes :: u64

record LV =
  lv_Name :: string
  lv_VG :: string
  lv_SizeBytes :: u64
  lv_Path :: string

text \<open>
  Looking up a missing key of a Go map gives the zero value: \<open>nil\<close> for an
  \<open>any\<close>, the empty slice for a list of rows. The type assertion \<open>v.(string)\<close>
  gives the empty string when the value is not a string.
\<close>

definition row_field :: "row \<Rightarrow> string \<Rightarrow> goany" where
  "row_field row k = (case map_of row k of None \<Rightarrow> AnyNil | Some v \<Rightarrow> v)"

definition as_string :: "goany \<Rightarrow> string" where
  "as_string v = (case v of AnyString s \<Rightarrow> s | _ \<Rightarrow> [])"

definition section_rows :: "(string, row list) gomap \<Rightarrow> string \<Rightarrow> row list" where
  "section_rows sec k = (case map_of sec k of None \<Rightarrow> [] | Some rows \<Rightarrow> rows)"

definition num_error_err :: "string \<Rightarrow> num_error \<Rightarrow> error" where
  "num_error_err s e = Errorf ''strconv.ParseUint: parsing %q: %s''
     [s, (case e of ErrSyntax \<Rightarrow> ''invalid syntax'' | ErrRange \<Rightarrow> ''value out of range'')]"

definition parseUintField :: "(f64 \<Rightarrow> u64) \<Rightarrow> goany \<Rightarrow> u64 result" where
  "parseUintField oob v =
     (case v of
        AnyString t \<Rightarrow>
          (let s = TrimSpace t in
           if s = [] then Inr 0
           else (case ParseUint s of
                   (_, Some e) \<Rightarrow> Inl (num_error_err s e)
                 | (n, None) \<Rightarrow> Inr (of_nat n)))
      | AnyNumber t \<Rightarrow>
          (case ParseUint t of (_, Some e) \<Rightarrow> Inl (num_error_err t e) | (n, None) \<Rightarrow> Inr (of_nat n))
      | AnyFloat t \<Rightarrow> Inr (u64_of_f64 oob t)
      | AnyNil \<Rightarrow> Inr 0
      | AnyOther t \<Rightarrow> Inl (Errorf ''unsupported type %T'' [t]))"

definition vg_of_row :: "(f64 \<Rightarrow> u64) \<Rightarrow> row \<Rightarrow> VG result" where
  "vg_of_row oob row =
     (case parseUintField oob (row_field row ''vg_size'') of
        Inl err \<Rightarrow> Inl (Wrapf ''vg_size: %w'' [] err)
      | Inr sz \<Rightarrow>
          (case parseUintField oob (row_field row ''vg_free'') of
             Inl err \<Rightarrow> Inl (Wrapf ''vg_free: %w'' [] err)
           | Inr free \<Rightarrow>
               Inr \<lparr>vg_Name = as_string (row_field row ''vg_name''), vg_SizeBytes = sz, vg_FreeBytes = free\<rparr>))"

definition lv_of_row :: "(f64 \<Rightarrow> u64) \<Rightarrow> row \<Rightarrow> LV result" where
  "lv_of_row oob row =
     (case parseUintField oob (row_field row ''lv_size'') of
        Inl err \<Rightarrow> Inl (Wrapf ''lv_size: %w'' [] err)
      | Inr sz \<Rightarrow>
          Inr \<lparr>lv_Name = as_string (row_field row ''lv_name''), lv_VG = as_string (row_field row ''vg_name''),
            lv_SizeBytes = sz, lv_Path = as_string (row_field row ''lv_path'')\<rparr>)"

text \<open>The loop over rows: it stops at the first row that does not parse.\<close>

fun collect_rows :: "('r \<Rightarrow> 'a result) \<Rightarrow> 'r list \<Rightarrow> 'a list result" where
  "collect_rows f [] = Inr []"
| "collect_rows f (r # rs) =
     (case f r of
        Inl e \<Rightarrow> Inl e
      | Inr x \<Rightarrow> (case collect_rows f rs of Inl e \<Rightarrow> Inl e | Inr xs \<Rightarrow> Inr (x # xs)))"

definition decodeReportAny :: "(string \<Rightarrow> string + lvmReportAny) \<Rightarrow> string \<Rightarrow> lvmReportAny result" where
  "decodeReportAny unmarshal out =
     (case unmarshal out of
        Inl err \<Rightarrow> Inl (Wrapf ''parse lvm json: %w; raw=%s'' [TrimSpace out] (ExecError err))
      | Inr r \<Rightarrow> Inr r)"

definition parseVGsJSON :: "(string \<Rightarrow> string + lvmReportAny) \<Rightarrow> (f64 \<Rightarrow> u64) \<Rightarrow> string \<Rightarrow> VG list result" where
  "parseVGsJSON unmarshal oob out =
     (case decodeReportAny unmarshal out of
        Inl e \<Rightarrow> Inl e
      | Inr r \<Rightarrow> collect_rows (vg_of_row oob) (concat (map (\<lambda>sec. section_rows sec ''vg'') r)))"

definition parseLVsJSON :: "(string \<Rightarrow> string + lvmReportAny) \<Rightarrow> (f64 \<Rightarrow> u64) \<Rightarrow> string \<Rightarrow> LV list result" where
  "parseLVsJSON unmarshal oob out =
     (case decodeReportAny unmarshal out of
        Inl e \<Rightarrow> Inl e
      | Inr r \<Rightarrow> collect_rows (lv_of_row oob) (concat (map (\<lambda>sec. section_rows sec ''lv'') r)))"

definition lvm_ListVGs ::
    "(string \<Rightarrow> string + lvmReportAny) \<Rightarrow> (f64 \<Rightarrow> u64) \<Rightarrow> 'x Runner \<Rightarrow> 'x \<Rightarrow> VG list result \<times> 'x" where
  "lvm_ListVGs unmarshal oob r x =
     (case r ''vgs'' [''--reportformat'', ''json'', ''--units'', ''b'', ''--nosuffix'',
                      ''-o'', ''vg_name,vg_size,vg_free''] x of
        ((_, Some err), x') \<Rightarrow> (Inl (ExecError err), x')
      | ((out, None), x') \<Rightarrow> (parseVGsJSON unmarshal oob out, x'))"

definition lvm_ListLVs ::
    "(string \<Rightarrow> string + lvmReportAny) \<Rightarrow> (f64 \<Rightarrow> u64) \<Rightarrow> 'x Runner \<Rightarrow> string \<Rightarrow> 'x \<Rightarrow> LV list result \<times> 'x" where
  "lvm_ListLVs unmarshal oob r vg x =
     (let args = [''--reportformat'', ''json'', ''--units'', ''b'', ''--nosuffix'',
                  ''-o'', ''lv_name,vg_name,lv_size,lv_path''] @ (if vg \<noteq> [] then [vg] else [])
      in case r ''lvs'' args x of
           ((_, Some err), x') \<Rightarrow> (Inl (ExecError err), x')
         | ((out, None), x') \<Rightarrow> (parseLVsJSON unmarshal oob out, x'))"

section \<open>Properties\<close>

lemmas lvm_write_defs = lvm_CreateLV_def lvm_RemoveLV_def lvm_ExtendLVAbsolute_def
  lvm_ExtendLVDelta_def lvm_ExtendLVPercent_def

lemma collect_rows_Inr_iff:
  "collect_rows f rs = Inr xs \<longleftrightarrow> list_all2 (\<lambda>r x. f r = Inr x) rs xs"
proof (induction rs arbitrary: xs)
  case Nil
  show ?case by auto
next
  case (Cons r rs)
  show ?case by (cases xs) (auto simp: Cons.IH [symmetric] split: sum.splits)
qed

lemma collect_rows_Inl:
  "collect_rows f rs = Inl e \<Longrightarrow> \<exists>us r vs. rs = us @ r # vs \<and> f r = Inl e \<and> (\<forall>u \<in> set us. \<exists>x. f u = Inr x)"
proof (induction rs)
  case Nil
  then show ?case by simp
next
  case (Cons r rs)
  show ?case
  proof (cases "f r")
    case (Inl e')
    with Cons.prems have "r # rs = [] @ r # rs \<and> f r = Inl e \<and> (\<forall>u \<in> set []. \<exists>x. f u = Inr x)" by simp
    then show ?thesis by blast
  next
    case (Inr x)
    with Cons.prems have "collect_rows f rs = Inl e" by (simp split: sum.splits)
    from Cons.IH [OF this] obtain us s vs
      where "rs = us @ s # vs" "f s = Inl e" "\<forall>u \<in> set us. \<exists>x. f u = Inr x" by blast
    with Inr have "r # rs = (r # us) @ s # vs \<and> f s = Inl e \<and> (\<forall>u \<in> set (r # us). \<exists>x. f u = Inr x)" by simp
    then show ?thesis by blast
  qed
qed

end
