(* ===== verification/Libvirtx.thy ===== *)
theory Libvirtx
  imports Lvm
begin

text \<open>
  The libvirt abstraction, \<open>src/internal/libvirtx/libvirtx.go\<close> and
  \<open>fake.go\<close>: the \<open>Client\<close> interface as a record of functions over a libvirt
  state, its production implementation \<open>VirshClient\<close> over a command runner, its test
  double \<open>FakeClient\<close>, the disk XML it feeds to \<open>virsh attach-device\<close>, the parser
  of \<open>virsh domstats\<close> output and the free-space percentage. The lemmas show that the
  hand-written insertion sort sorts, that parsed statistics come out once per index in
  numeric order, that the percentage stays within 0 and 100 and falls as the allocation
  grows, and that attribute values in the XML cannot close their quotes.
\<close>

record DiskAttachSpec =
  sp_SourceDevice :: string
  sp_TargetDev :: string
  sp_Format :: string
  sp_Bus :: string
  sp_Persistent :: bool
  sp_Live :: bool

record BlockStats =
  bs_Index :: int
  bs_Name :: string
  bs_BackingPath :: string
  bs_AllocationBytes :: u64
  bs_CapacityBytes :: u64
  bs_PhysicalBytes :: u64

record 'v Client =
  cl_AttachDisk :: "string \<Rightarrow> DiskAttachSpec \<Rightarrow> 'v \<Rightarrow> error option \<times> 'v"
  cl_DetachDisk :: "string \<Rightarrow> string \<Rightarrow> 'v \<Rightarrow> error option \<times> 'v"
  cl_BlockResize :: "string \<Rightarrow> string \<Rightarrow> u64 \<Rightarrow> 'v \<Rightarrow> error option \<times> 'v"
  cl_DomainStats :: "string \<Rightarrow> 'v \<Rightarrow> BlockStats list result \<times> 'v"
  cl_DomainExists :: "string \<Rightarrow> 'v \<Rightarrow> bool result \<times> 'v"

section \<open>Free space\<close>

definition FreePercent :: "BlockStats \<Rightarrow> f64" where
  "FreePercent b =
     (if bs_PhysicalBytes b = 0 then 100
      else let used = f64_of_u64 (bs_AllocationBytes b);
               phys = f64_of_u64 (bs_PhysicalBytes b);
               used' = (if used > phys then phys else used)
           in f64_mul 100 (f64_sub 1 (f64_div used' phys)))"

text \<open>The same percentage as a function of the two converted sizes.\<close>

definition free_of :: "f64 \<Rightarrow> f64 \<Rightarrow> f64" where
  "free_of used phys = f64_mul 100 (f64_sub 1 (f64_div (if used > phys then phys else used) phys))"

lemma FreePercent_free_of:
  "FreePercent b = (if bs_PhysicalBytes b = 0 then 100
     else free_of (f64_of_u64 (bs_AllocationBytes b)) (f64_of_u64 (bs_PhysicalBytes b)))"
  by (simp add: FreePercent_def free_of_def Let_def)

lemma f64_of_u64_mono: "a \<le> b \<Longrightarrow> f64_of_u64 a \<le> f64_of_u64 b"
  unfolding f64_of_u64_def by (rule rnd64_mono, rule of_nat_mono) (simp add: word_le_nat_alt)

lemma f64_of_u64_0_1 [simp]: "f64_of_u64 0 = 0" "f64_of_u64 1 = 1"
  using rnd64_of_nat [of 1] by (simp_all add: f64_of_u64_def)

lemma f64_of_u64_pos: "n \<noteq> 0 \<Longrightarrow> 0 < f64_of_u64 n"
proof -
  assume "n \<noteq> 0"
  then have "1 \<le> n" by (simp add: word_le_nat_alt unat_gt_0 Suc_leI)
  from f64_of_u64_mono [OF this] show ?thesis by simp
qed

lemma rnd64_le_nat: "x \<le> of_nat n \<Longrightarrow> n \<le> 2 ^ 53 \<Longrightarrow> rnd64 x \<le> of_nat n"
  using rnd64_mono [of x "of_nat n"] by (simp add: rnd64_of_nat)

lemma free_of_range: "0 \<le> free_of u p" "free_of u p \<le> 100"
proof -
  have "rnd64 (1 - f64_div (if u > p then p else u) p) \<le> of_nat 1"
    by (rule rnd64_le_nat) (simp_all add: f64_div_def)
  then have "rnd64 (100 * rnd64 (1 - f64_div (if u > p then p else u) p)) \<le> of_nat 100"
    by (intro rnd64_le_nat) simp_all
  then show "free_of u p \<le> 100" by (simp add: free_of_def f64_mul_def f64_sub_def)
qed (simp add: free_of_def f64_mul_def)

lemma free_of_antimono:
  assumes "0 < p" "u \<le> u'"
  shows "free_of u' p \<le> free_of u p"
  unfolding free_of_def f64_mul_def f64_sub_def f64_div_def
  using assms by (intro rnd64_mono mult_left_mono diff_left_mono divide_right_mono) auto

lemma free_of_ends:
  assumes "0 < p"
  shows "free_of 0 p = 100" "p \<le> u \<Longrightarrow> free_of u p = 0"
proof -
  show "free_of 0 p = 100"
    using assms rnd64_of_nat [of 1] rnd64_of_nat [of 100]
    by (simp add: free_of_def f64_mul_def f64_sub_def f64_div_def)
  assume "p \<le> u"
  then have "(if u > p then p else u) = p" by simp
  then show "free_of u p = 0"
    using assms rnd64_of_nat [of 1] by (simp add: free_of_def f64_mul_def f64_sub_def f64_div_def)
qed

lemma FreePercent_range: "0 \<le> FreePercent b \<and> FreePercent b \<le> 100"
  by (simp add: FreePercent_free_of free_of_range)

text \<open>
  More allocation never raises the percentage, an empty disk is fully free and a full one
  has nothing left.
\<close>

lemma FreePercent_antimono:
  assumes "bs_PhysicalBytes b = bs_PhysicalBytes b'" "bs_AllocationBytes b \<le> bs_AllocationBytes b'"
  shows "FreePercent b' \<le> FreePercent b"
  using assms by (simp add: FreePercent_free_of free_of_antimono f64_of_u64_mono f64_of_u64_pos)

lemma FreePercent_full:
  "bs_PhysicalBytes b \<noteq> 0 \<Longrightarrow> bs_PhysicalBytes b \<le> bs_AllocationBytes b \<Longrightarrow> FreePercent b = 0"
  by (simp add: FreePercent_free_of free_of_ends f64_of_u64_mono f64_of_u64_pos)

lemma FreePercent_empty: "bs_AllocationBytes b = 0 \<Longrightarrow> FreePercent b = 100"
  by (simp add: FreePercent_free_of free_of_ends f64_of_u64_pos)

section \<open>Disk XML\<close>

text \<open>
  \<open>xml.MarshalIndent\<close> on the \<open>diskXML\<close> structs: elements in field order,
  attribute values escaped as \<open>encoding/xml\<close> escapes text. Control characters that
  XML does not allow become U+FFFD; bytes from 128 on are taken to be well-formed UTF-8.
\<close>

definition xml_escape_char :: "char \<Rightarrow> string" where
  "xml_escape_char c =
     (if c = CHR 0x22 then ''&#34;'' else if c = CHR 0x27 then ''&#39;''
      else if c = CHR ''&'' then ''&amp;'' else if c = CHR ''<'' then ''&lt;''
      else if c = CHR ''>'' then ''&gt;'' else if c = CHR 0x09 then ''&#x9;''
      else if c = CHR 0x0A then ''&#xA;'' else if c = CHR 0x0D then ''&#xD;''
      else if (of_char c :: nat) < 32 then [CHR 0xEF, CHR 0xBF, CHR 0xBD]
      else [c])"

definition xml_escape :: "string \<Rightarrow> string" where
  "xml_escape s = concat (map xml_escape_char s)"

definition xml_attr :: "string \<Rightarrow> string \<Rightarrow> string" where
  "xml_attr k v = '' '' @ k @ ''='' @ [CHR 0x22] @ xml_escape v @ [CHR 0x22]"

definition newline :: string where
  "newline = [CHR 0x0A]"

definition buildDiskXML :: "DiskAttachSpec \<Rightarrow> string result" where
  "buildDiskXML spec =
     (if sp_SourceDevice spec = [] then Inl (Errorf ''libvirtx: SourceDevice required'' [])
      else if sp_TargetDev spec = [] then Inl (Errorf ''libvirtx: TargetDev required'' [])
      else let format = (if sp_Format spec = [] then ''raw'' else sp_Format spec);
               bus = (if sp_Bus spec = [] then ''virtio'' else sp_Bus spec)
           in Inr (''<disk'' @ xml_attr ''type'' ''block'' @ xml_attr ''device'' ''disk'' @ ''>'' @ newline
                @ ''  <driver'' @ xml_attr ''name'' ''qemu'' @ xml_attr ''type'' format
                  @ xml_attr ''cache'' ''none'' @ ''></driver>'' @ newline
                @ ''  <source'' @ xml_attr ''dev'' (sp_SourceDevice spec) @ ''></source>'' @ newline
                @ ''  <target'' @ xml_attr ''dev'' (sp_TargetDev spec) @ xml_attr ''bus'' bus @ ''></target>'' @ newline
                @ ''</disk>''))"

lemma xml_escape_char_safe:
  "c' \<in> set (xml_escape_char c) \<Longrightarrow> c' \<notin> set [CHR 0x22, CHR ''<'', CHR ''>'', CHR 0x27]"
  by (auto simp: xml_escape_char_def split: if_splits)

lemma xml_escape_safe: "c \<in> set (xml_escape s) \<Longrightarrow> c \<notin> set [CHR 0x22, CHR ''<'', CHR ''>'', CHR 0x27]"
  unfolding xml_escape_def using xml_escape_char_safe by (metis (no_types, lifting) UN_E set_concat set_map image_iff)

section \<open>VirshClient\<close>

text \<open>
  \<open>VirshClient\<close> shells out to \<open>virsh\<close>. Attaching feeds the XML through standard
  input with its own \<open>exec.CommandContext\<close> call, the parameter \<open>with_stdin\<close>
  (program, arguments, input); everything else goes through the runner.
\<close>

record 'v VirshClient =
  vc_r :: "'v Runner"
  vc_with_stdin :: "string \<Rightarrow> string list \<Rightarrow> string \<Rightarrow> 'v \<Rightarrow> (string \<times> string option) \<times> 'v"
  vc_uri :: string

definition connectArgs :: "'v VirshClient \<Rightarrow> string list" where
  "connectArgs c = (if vc_uri c = [] then [] else [''-c'', vc_uri c])"

definition VirshClient_AttachDisk ::
    "'v VirshClient \<Rightarrow> string \<Rightarrow> DiskAttachSpec \<Rightarrow> 'v \<Rightarrow> error option \<times> 'v" where
  "VirshClient_AttachDisk c vm spec v =
     (case buildDiskXML spec of
        Inl e \<Rightarrow> (Some e, v)
      | Inr xml \<Rightarrow>
          (let args = connectArgs c @ [''attach-device'', vm, ''/dev/stdin'']
                 @ (if sp_Persistent spec then [''--persistent''] else [])
                 @ (if sp_Live spec then [''--live''] else [])
           in case vc_with_stdin c ''virsh'' args xml v of
                ((out, Some err), v') \<Rightarrow>
                  (Some (Wrapf ''virsh attach-device: %w: %s'' [TrimSpace out] (ExecError err)), v')
              | ((_, None), v') \<Rightarrow> (None, v')))"

definition VirshClient_DetachDisk :: "'v VirshClient \<Rightarrow> string \<Rightarrow> string \<Rightarrow> 'v \<Rightarrow> error option \<times> 'v" where
  "VirshClient_DetachDisk c vm targetDev v =
     (if targetDev = [] then (Some (Errorf ''libvirtx.DetachDisk: targetDev required'' []), v)
      else run_cmd (vc_r c) ''virsh''
             (connectArgs c @ [''detach-disk'', vm, targetDev, ''--persistent'', ''--live'']) v)"

definition VirshClient_BlockResize ::
    "'v VirshClient \<Rightarrow> string \<Rightarrow> string \<Rightarrow> u64 \<Rightarrow> 'v \<Rightarrow> error option \<times> 'v" where
  "VirshClient_BlockResize c vm targetDev sizeBytes v =
     run_cmd (vc_r c) ''virsh''
       (connectArgs c @ [''blockresize'', vm, targetDev, dec (unat sizeBytes) @ ''B'']) v"

definition VirshClient_DomainExists :: "'v VirshClient \<Rightarrow> string \<Rightarrow> 'v \<Rightarrow> bool result \<times> 'v" where
  "VirshClient_DomainExists c vm v =
     (case vc_r c ''virsh'' (connectArgs c @ [''dominfo'', vm]) v of
        ((_, None), v') \<Rightarrow> (Inr True, v')
      | ((out, Some err), v') \<Rightarrow>
          if Contains out ''failed to get domain'' \<or> Contains err ''not found'' then (Inr False, v')
          else (Inl (ExecError err), v'))"

section \<open>Parsing block statistics\<close>

text \<open>
  \<open>bufio.Scanner\<close> with \<open>ScanLines\<close>: lines end at a newline, one trailing
  carriage return is dropped, an empty last piece is no line; a line of a mebibyte or more
  stops the scan with an error.
\<close>

definition maxTokenSize :: nat where
  "maxTokenSize = 1048576"

definition raw_lines :: "string \<Rightarrow> string list" where
  "raw_lines s = (let ps = Split (CHR 0x0A) s in if last ps = [] then butlast ps else ps)"

definition dropCR :: "string \<Rightarrow> string" where
  "dropCR l = (if l \<noteq> [] \<and> last l = CHR 0x0D then butlast l else l)"

text \<open>
  One line of output: \<open>block.<n>.<key>=<value>\<close> gives the index, the key and the
  value; anything else is skipped.
\<close>

definition parse_stat_line :: "string \<Rightarrow> (int \<times> string \<times> string) option" where
  "parse_stat_line text =
     (let line = TrimSpace text in
      if \<not> HasPrefix line ''block.'' then None
      else case cut (CHR ''='') line of
             (_, None) \<Rightarrow> None
           | (key, Some val) \<Rightarrow>
               (case SplitN 3 (CHR ''.'') key of
                  [_, n, fld] \<Rightarrow> (case Atoi n of Inl _ \<Rightarrow> None | Inr idx \<Rightarrow> Some (idx, fld, val))
                | _ \<Rightarrow> None))"

definition parseUint :: "string \<Rightarrow> u64" where
  "parseUint s = of_nat (fst (ParseUint (TrimSpace s)))"

definition zeroStats :: "int \<Rightarrow> BlockStats" where
  "zeroStats idx = \<lparr>bs_Index = idx, bs_Name = [], bs_BackingPath = [],
     bs_AllocationBytes = 0, bs_CapacityBytes = 0, bs_PhysicalBytes = 0\<rparr>"

definition set_stat :: "string \<Rightarrow> string \<Rightarrow> BlockStats \<Rightarrow> BlockStats" where
  "set_stat key val stat =
     (if key = ''name'' then stat\<lparr>bs_Name := val\<rparr>
      else if key = ''path'' then stat\<lparr>bs_BackingPath := val\<rparr>
      else if key = ''allocation'' then stat\<lparr>bs_AllocationBytes := parseUint val\<rparr>
      else if key = ''capacity'' then stat\<lparr>bs_CapacityBytes := parseUint val\<rparr>
      else if key = ''physical'' then stat\<lparr>bs_PhysicalBytes := parseUint val\<rparr>
      else stat)"

definition scan_stat :: "string \<Rightarrow> (int, BlockStats) gomap \<Rightarrow> (int, BlockStats) gomap" where
  "scan_stat text byIndex =
     (case parse_stat_line text of
        None \<Rightarrow> byIndex
      | Some (idx, key, val) \<Rightarrow>
          (let stat = (case map_of byIndex idx of None \<Rightarrow> zeroStats idx | Some s \<Rightarrow> s)
           in AList.update idx (set_stat key val stat) byIndex))"

text \<open>\<open>sortInts\<close>: insertion sort by swapping neighbours, in place.\<close>

fun sortInts_inner :: "nat \<Rightarrow> int list \<Rightarrow> int list" where
  "sortInts_inner 0 a = a"
| "sortInts_inner (Suc j) a =
     (if a ! Suc j < a ! j then sortInts_inner j (a[Suc j := a ! j, j := a ! Suc j]) else a)"

definition sortInts :: "int list \<Rightarrow> int list" where
  "sortInts a = fold sortInts_inner [1..<length a] a"

definition order_stats :: "(int, BlockStats) gomap \<Rightarrow> BlockStats list" where
  "order_stats byIndex =
     (let stats = List.map_filter (\<lambda>i. map_of byIndex (int i)) [0..<length byIndex]
      in if length stats \<noteq> length byIndex
         then List.map_filter (map_of byIndex) (sortInts (map fst byIndex))
         else stats)"

definition parseDomstatsBlocks :: "string \<Rightarrow> BlockStats list result" where
  "parseDomstatsBlocks out =
     (let lines = raw_lines out in
      if list_ex (\<lambda>l. maxTokenSize \<le> length l) lines
      then Inl (Wrapf ''scan domstats: %w'' [] (ExecError ''bufio.Scanner: token too long''))
      else Inr (order_stats (fold (\<lambda>l. scan_stat (dropCR l)) lines [])))"

definition VirshClient_DomainStats :: "'v VirshClient \<Rightarrow> string \<Rightarrow> 'v \<Rightarrow> BlockStats list result \<times> 'v" where
  "VirshClient_DomainStats c vm v =
     (case vc_r c ''virsh'' (connectArgs c @ [''domstats'', ''--block'', vm]) v of
        ((_, Some err), v') \<Rightarrow> (Inl (ExecError err), v')
      | ((out, None), v') \<Rightarrow> (parseDomstatsBlocks out, v'))"

definition virshClient :: "'v VirshClient \<Rightarrow> 'v Client" where
  "virshClient c = \<lparr>cl_AttachDisk = VirshClient_AttachDisk c, cl_DetachDisk = VirshClient_DetachDisk c,
     cl_BlockResize = VirshClient_BlockResize c, cl_DomainStats = VirshClient_DomainStats c,
     cl_DomainExists = VirshClient_DomainExists c\<rparr>"

subsection \<open>The insertion sort sorts\<close>

text \<open>
  Inserting from the right: what one pass of the inner loop does to the sorted part of the
  slice.
\<close>

fun ins_right :: "int \<Rightarrow> int list \<Rightarrow> int list" where
  "ins_right x ys = (if ys = [] then [x]
     else if x < last ys then ins_right x (butlast ys) @ [last ys] else ys @ [x])"

declare ins_right.simps [simp del]

lemma ins_right_snoc [simp]:
  "ins_right x [] = [x]"
  "ins_right x (ys @ [y]) = (if x < y then ins_right x ys @ [y] else ys @ [y, x])"
  by (simp_all add: ins_right.simps [of x])

lemma mset_ins_right [simp]: "mset (ins_right x ys) = add_mset x (mset ys)"
  by (induction ys rule: rev_induct) auto

lemma set_ins_right [simp]: "set (ins_right x ys) = insert x (set ys)"
  using mset_ins_right [of x ys] by (metis set_mset_add_mset_insert set_mset_mset)

lemma sorted_ins_right: "sorted ys \<Longrightarrow> sorted (ins_right x ys)"
  by (induction ys rule: rev_induct) (auto simp: sorted_append)

lemma sortInts_inner_eq:
  "sortInts_inner (length ys) (ys @ x # zs) = ins_right x ys @ zs"
proof (induction ys arbitrary: zs rule: rev_induct)
  case Nil
  show ?case by simp
next
  case (snoc y ys)
  have upd: "((ys @ [y]) @ x # zs)[Suc (length ys) := y, length ys := x] = ys @ x # y # zs"
    by (simp add: list_update_append)
  show ?case using snoc.IH [of "y # zs"] by (simp add: nth_append upd [simplified])
qed

lemma sortInts_prefix:
  assumes "n \<le> length a" "0 < n"
  shows "\<exists>ys. sorted ys \<and> mset ys = mset (take n a) \<and> fold sortInts_inner [1..<n] a = ys @ drop n a"
  using assms
proof (induction n)
  case 0
  then show ?case by simp
next
  case (Suc n)
  show ?case
  proof (cases "n = 0")
    case True
    with Suc.prems show ?thesis by (intro exI [of _ "take 1 a"]) (cases a; simp)
  next
    case False
    with Suc obtain ys where ys: "sorted ys" "mset ys = mset (take n a)"
      "fold sortInts_inner [1..<n] a = ys @ drop n a" by auto
    have len: "length ys = n" using ys(2) Suc.prems by (metis Suc_leD length_take min.absorb2 mset_eq_length)
    have d: "drop n a = a ! n # drop (Suc n) a" using Suc.prems by (simp add: Cons_nth_drop_Suc)
    have "fold sortInts_inner [1..<Suc n] a = ins_right (a ! n) ys @ drop (Suc n) a"
      using False ys(3) sortInts_inner_eq [of ys "a ! n" "drop (Suc n) a"] by (simp add: d len)
    moreover have "sorted (ins_right (a ! n) ys)" using ys(1) by (rule sorted_ins_right)
    moreover have "mset (ins_right (a ! n) ys) = mset (take (Suc n) a)"
      using ys(2) Suc.prems by (simp add: take_Suc_conv_app_nth)
    ultimately show ?thesis by blast
  qed
qed

lemma sortInts_sort: "sortInts a = sort a"
proof (cases "a = []")
  case True
  then show ?thesis by (simp add: sortInts_def)
next
  case False
  then obtain ys where "sorted ys" "mset ys = mset a" "sortInts a = ys"
    using sortInts_prefix [of "length a" a] by (auto simp: sortInts_def)
  then show ?thesis by (metis properties_for_sort)
qed

subsection \<open>Statistics come out in numeric order\<close>

lemma sorted_range_unique:
  assumes "distinct ks" "set ks = int ` {0..<n}"
  shows "sort ks = map int [0..<n]"
  using assms by (intro sorted_distinct_set_unique) (auto simp: distinct_map sorted_map intro: sorted_wrt_mono_rel)

lemma length_map_filter_le: "length (List.map_filter f xs) \<le> length xs"
  by (induction xs) (auto simp: map_filter_simps split: option.splits)

lemma map_filter_full:
  "length (List.map_filter f xs) = length xs \<Longrightarrow> \<forall>x \<in> set xs. f x \<noteq> None"
proof (induction xs)
  case (Cons x xs)
  then show ?case using length_map_filter_le [of f xs] by (auto simp: map_filter_simps split: option.splits)
qed simp

lemma order_stats_eq:
  assumes "gomap_ok m"
  shows "order_stats m = List.map_filter (map_of m) (sort (map fst m))"
proof (cases "length (List.map_filter (\<lambda>i. map_of m (int i)) [0..<length m]) = length m")
  case False
  then show ?thesis by (simp add: order_stats_def sortInts_sort)
next
  case True
  then have "\<forall>i \<in> set [0..<length m]. map_of m (int i) \<noteq> None" by (intro map_filter_full) simp
  then have sub: "int ` {0..<length m} \<subseteq> set (map fst m)" by (auto simp: map_of_eq_None_iff)
  have "card (set (map fst m)) = length m" using assms by (metis distinct_card gomap_ok_def length_map)
  then have "set (map fst m) = int ` {0..<length m}"
    using sub by (metis List.finite_set card_atLeastLessThan card_image card_subset_eq diff_zero inj_on_of_nat)
  then have "sort (map fst m) = map int [0..<length m]"
    using assms by (intro sorted_range_unique) (simp add: gomap_ok_def)
  with True show ?thesis
    by (simp add: order_stats_def List.map_filter_def filter_map comp_def)
qed

definition stats_ok :: "(int, BlockStats) gomap \<Rightarrow> bool" where
  "stats_ok m \<longleftrightarrow> gomap_ok m \<and> (\<forall>k s. map_of m k = Some s \<longrightarrow> bs_Index s = k)"

lemma set_stat_index [simp]: "bs_Index (set_stat key val s) = bs_Index s"
  by (simp add: set_stat_def)

lemma scan_stat_ok: "stats_ok m \<Longrightarrow> stats_ok (scan_stat l m)"
  by (auto simp: stats_ok_def scan_stat_def Let_def zeroStats_def split: option.splits)

lemma scan_stats_ok: "stats_ok m \<Longrightarrow> stats_ok (fold (\<lambda>l. scan_stat (dropCR l)) ls m)"
  by (induction ls arbitrary: m) (simp_all add: scan_stat_ok)

lemma stats_ok_Nil [simp]: "stats_ok []"
  by (simp add: stats_ok_def)

lemma map_filter_map_of:
  assumes "stats_ok m" "set ks \<subseteq> set (map fst m)"
  shows "map bs_Index (List.map_filter (map_of m) ks) = ks"
  using assms(2)
proof (induction ks)
  case (Cons k ks)
  then obtain s where "map_of m k = Some s" by (cases "map_of m k") (auto simp: map_of_eq_None_iff)
  with Cons assms(1) show ?case by (simp add: map_filter_simps stats_ok_def)
qed (simp add: map_filter_simps)

lemma order_stats_indices:
  assumes "stats_ok m"
  shows "map bs_Index (order_stats m) = sort (map fst m)"
  using assms by (subst order_stats_eq) (auto simp: stats_ok_def intro!: map_filter_map_of)

lemma order_stats_sorted: "stats_ok m \<Longrightarrow> sorted_wrt (<) (map bs_Index (order_stats m))"
  by (simp add: order_stats_indices strict_sorted_iff) (simp add: stats_ok_def gomap_ok_def)

section \<open>FakeClient\<close>

text \<open>
  The in-memory client. \<open>fc_NextErr\<close> is returned by the next call and cleared. A mutex
  makes every method one step.
\<close>

record FakeResize =
  fr_VM :: string
  fr_TargetDev :: string
  fr_SizeBytes :: u64

record FakeClient =
  fc_Domains :: "(string, unit) gomap"
  fc_Stats :: "(string, BlockStats list) gomap"
  fc_Attached :: "(string, (string, DiskAttachSpec) gomap) gomap"
  fc_Resizes :: "FakeResize list"
  fc_NextErr :: "error option"

definition NewFakeClient :: "string list \<Rightarrow> FakeClient" where
  "NewFakeClient vms =
     fold (\<lambda>vm f. f\<lparr>fc_Domains := AList.update vm () (fc_Domains f),
                     fc_Attached := AList.update vm [] (fc_Attached f)\<rparr>) vms
       \<lparr>fc_Domains = [], fc_Stats = [], fc_Attached = [], fc_Resizes = [], fc_NextErr = None\<rparr>"

definition takeErr :: "FakeClient \<Rightarrow> error option \<times> FakeClient" where
  "takeErr f = (fc_NextErr f, f\<lparr>fc_NextErr := None\<rparr>)"

definition FakeClient_AttachDisk :: "string \<Rightarrow> DiskAttachSpec \<Rightarrow> FakeClient \<Rightarrow> error option \<times> FakeClient" where
  "FakeClient_AttachDisk vm spec f =
     (case takeErr f of
        (Some err, f) \<Rightarrow> (Some err, f)
      | (None, f) \<Rightarrow>
          (case map_of (fc_Domains f) vm of
             None \<Rightarrow> (Some (Errorf ''fake: no domain %q'' [vm]), f)
           | Some _ \<Rightarrow>
               (let f = (case map_of (fc_Attached f) vm of
                           None \<Rightarrow> f\<lparr>fc_Attached := AList.update vm [] (fc_Attached f)\<rparr>
                         | Some _ \<Rightarrow> f);
                    m = (case map_of (fc_Attached f) vm of None \<Rightarrow> [] | Some m \<Rightarrow> m)
                in case map_of m (sp_TargetDev spec) of
                     Some existing \<Rightarrow>
                       if sp_SourceDevice existing = sp_SourceDevice spec then (None, f)
                       else (Some (Errorf ''fake: %s already has %s attached'' [vm, sp_TargetDev spec]), f)
                   | None \<Rightarrow>
                       (None, f\<lparr>fc_Attached := AList.update vm (AList.update (sp_TargetDev spec) spec m) (fc_Attached f)\<rparr>))))"

definition FakeClient_DetachDisk :: "string \<Rightarrow> string \<Rightarrow> FakeClient \<Rightarrow> error option \<times> FakeClient" where
  "FakeClient_DetachDisk vm targetDev f =
     (case takeErr f of
        (Some err, f) \<Rightarrow> (Some err, f)
      | (None, f) \<Rightarrow>
          (case map_of (fc_Attached f) vm of
             None \<Rightarrow> (None, f)
           | Some m \<Rightarrow> (None, f\<lparr>fc_Attached := AList.update vm (AList.delete targetDev m) (fc_Attached f)\<rparr>)))"

definition resize_stat :: "string \<Rightarrow> u64 \<Rightarrow> BlockStats \<Rightarrow> BlockStats" where
  "resize_stat targetDev sizeBytes s =
     (if bs_Name s = targetDev then s\<lparr>bs_PhysicalBytes := sizeBytes, bs_CapacityBytes := sizeBytes\<rparr> else s)"

definition FakeClient_BlockResize :: "string \<Rightarrow> string \<Rightarrow> u64 \<Rightarrow> FakeClient \<Rightarrow> error option \<times> FakeClient" where
  "FakeClient_BlockResize vm targetDev sizeBytes f =
     (case takeErr f of
        (Some err, f) \<Rightarrow> (Some err, f)
      | (None, f) \<Rightarrow>
          (let f = f\<lparr>fc_Resizes := fc_Resizes f @ [\<lparr>fr_VM = vm, fr_TargetDev = targetDev, fr_SizeBytes = sizeBytes\<rparr>]\<rparr>
           in case map_of (fc_Stats f) vm of
                None \<Rightarrow> (None, f)
              | Some stats \<Rightarrow>
                  (None, f\<lparr>fc_Stats := AList.update vm (map (resize_stat targetDev sizeBytes) stats) (fc_Stats f)\<rparr>)))"

definition FakeClient_DomainStats :: "string \<Rightarrow> FakeClient \<Rightarrow> BlockStats list result \<times> FakeClient" where
  "FakeClient_DomainStats vm f =
     (case takeErr f of
        (Some err, f) \<Rightarrow> (Inl err, f)
      | (None, f) \<Rightarrow> (Inr (case map_of (fc_Stats f) vm of None \<Rightarrow> [] | Some ss \<Rightarrow> ss), f))"

definition FakeClient_DomainExists :: "string \<Rightarrow> FakeClient \<Rightarrow> bool result \<times> FakeClient" where
  "FakeClient_DomainExists vm f =
     (case takeErr f of
        (Some err, f) \<Rightarrow> (Inl err, f)
      | (None, f) \<Rightarrow> (Inr (map_of (fc_Domains f) vm \<noteq> None), f))"

definition fakeClient :: "FakeClient Client" where
  "fakeClient = \<lparr>cl_AttachDisk = FakeClient_AttachDisk, cl_DetachDisk = FakeClient_DetachDisk,
     cl_BlockResize = FakeClient_BlockResize, cl_DomainStats = FakeClient_DomainStats,
     cl_DomainExists = FakeClient_DomainExists\<rparr>"

lemmas fakeClient_ops = FakeClient_AttachDisk_def FakeClient_DetachDisk_def FakeClient_BlockResize_def
  FakeClient_DomainStats_def FakeClient_DomainExists_def takeErr_def

section \<open>The client contract\<close>

text \<open>
  What the disk service relies on: \<open>plugged\<close> says which source device is plugged into
  which slot of which domain. A successful attach plugs the source into the slot, which was
  free or held the same source; a successful detach empties the slot; a failed call and the
  other calls leave the slots alone.
\<close>

locale client_contract =
  fixes cl :: "'v Client"
    and plugged :: "'v \<Rightarrow> string \<times> string \<rightharpoonup> string"
  assumes attach_ok: "cl_AttachDisk cl vm spec v = (None, v') \<Longrightarrow>
      plugged v (vm, sp_TargetDev spec) \<in> {None, Some (sp_SourceDevice spec)}
      \<and> plugged v' = (plugged v)((vm, sp_TargetDev spec) \<mapsto> sp_SourceDevice spec)"
    and attach_fail: "cl_AttachDisk cl vm spec v = (Some e, v') \<Longrightarrow> plugged v' = plugged v"
    and detach_ok: "cl_DetachDisk cl vm dev v = (None, v') \<Longrightarrow> plugged v' = (plugged v)((vm, dev) := None)"
    and detach_fail: "cl_DetachDisk cl vm dev v = (Some e, v') \<Longrightarrow> plugged v' = plugged v"
    and resize_plugged: "plugged (snd (cl_BlockResize cl vm dev n v)) = plugged v"
    and stats_plugged: "plugged (snd (cl_DomainStats cl vm v)) = plugged v"
    and exists_plugged: "plugged (snd (cl_DomainExists cl vm v)) = plugged v"
begin

lemma attach_detach:
  assumes "cl_AttachDisk cl vm spec v = (None, v')" "cl_DetachDisk cl vm (sp_TargetDev spec) v' = (None, v'')"
    and "plugged v (vm, sp_TargetDev spec) = None"
  shows "plugged v'' = plugged v"
  using attach_ok [OF assms(1)] detach_ok [OF assms(2)] assms(3) by (auto simp: fun_eq_iff)

end

definition fake_plugged :: "FakeClient \<Rightarrow> string \<times> string \<rightharpoonup> string" where
  "fake_plugged f = (\<lambda>(vm, dev). case map_of (fc_Attached f) vm of None \<Rightarrow> None
     | Some m \<Rightarrow> map_option sp_SourceDevice (map_of m dev))"

interpretation fake: client_contract fakeClient fake_plugged
proof (unfold_locales, goal_cases)
  case (1 vm spec v v')
  then show ?case
    by (auto simp: fakeClient_def FakeClient_AttachDisk_def takeErr_def fake_plugged_def fun_eq_iff Let_def
        split: option.splits if_splits)
next
  case (2 vm spec v e v')
  then show ?case
    by (auto simp: fakeClient_def FakeClient_AttachDisk_def takeErr_def fake_plugged_def fun_eq_iff Let_def
        split: option.splits if_splits)
next
  case (3 vm dev v v')
  then show ?case
    by (auto simp: fakeClient_def FakeClient_DetachDisk_def takeErr_def fake_plugged_def fun_eq_iff
        split: option.splits if_splits)
next
  case (4 vm dev v e v')
  then show ?case
    by (auto simp: fakeClient_def FakeClient_DetachDisk_def takeErr_def fake_plugged_def split: option.splits)
next
  case (5 vm dev n v)
  show ?case
    by (auto simp: fakeClient_def FakeClient_BlockResize_def takeErr_def fake_plugged_def Let_def split: option.splits)
next
  case (6 vm v)
  show ?case
    by (auto simp: fakeClient_def FakeClient_DomainStats_def takeErr_def fake_plugged_def split: option.splits)
next
  case (7 vm v)
  show ?case
    by (auto simp: fakeClient_def FakeClient_DomainExists_def takeErr_def fake_plugged_def split: option.splits)
qed

end
