(* ===== verification/Service_Calls.thy ===== *)
theory Service_Calls
  imports Store_Types Libvirtx
begin

text \<open>
  The disk service reaches everything outside itself through five interfaces, the fields of
  \<open>disk.Service\<close> (\<open>src/internal/disk/disk.go\<close>): lvm, libvirt, the store, the
  locker and qemu-img, and a clock. A handler is modelled once, as the tree of the interface
  calls it makes and what it does with each reply (\<open>'a proc\<close>); \<open>run\<close> executes it
  alone, one call after the other, and the interleaving of several handlers is a relation on
  the same trees. Every interface call is one atomic step: the code between two calls only
  touches the handler's own variables.
\<close>

section \<open>The remaining interfaces\<close>

text \<open>
  \<open>cluster.Locker\<close>: \<open>Acquire\<close> returns a release function or an error; a release
  function is a handle that \<open>lk_Release\<close> applies. \<open>disk.QemuImgRunner\<close> has three
  methods.
\<close>

record 'k Locker =
  lk_Acquire :: "string \<Rightarrow> 'k \<Rightarrow> nat result \<times> 'k"
  lk_Release :: "nat \<Rightarrow> 'k \<Rightarrow> 'k"

record 'q QemuImgRunner =
  qi_CreateQcow2 :: "string \<Rightarrow> u64 \<Rightarrow> 'q \<Rightarrow> error option \<times> 'q"
  qi_DDOver :: "string \<Rightarrow> string \<Rightarrow> 'q \<Rightarrow> error option \<times> 'q"
  qi_RemoveFile :: "string \<Rightarrow> 'q \<Rightarrow> error option \<times> 'q"

text \<open>
  \<open>disk.Service\<close>. \<open>sv_LVM\<close> is the runner inside \<open>lvm.Manager\<close>;
  \<open>sv_Now\<close> and \<open>sv_UnixNano\<close> give the n-th reading of \<open>s.Now()\<close> and of
  \<open>time.Now().UnixNano()\<close>.
\<close>

record ('l, 'v, 's, 'k, 'q) Service =
  sv_LVM :: "'l Runner"
  sv_Libvirt :: "'v Client"
  sv_Store :: "'s Store"
  sv_Locker :: "'k Locker"
  sv_QemuImg :: "'q QemuImgRunner"
  sv_DefaultVG :: string
  sv_DefaultThinInitial :: u64
  sv_NodeID :: string
  sv_TempDir :: string
  sv_Now :: "nat \<Rightarrow> gotime"
  sv_UnixNano :: "nat \<Rightarrow> int"

text \<open>The state behind the interfaces, one component each, and the number of clock readings so far.\<close>

record ('l, 'v, 's, 'k, 'q) World =
  w_lvm :: 'l
  w_virt :: 'v
  w_store :: 's
  w_lock :: 'k
  w_qemu :: 'q
  w_reads :: nat

section \<open>Handlers as trees of calls\<close>

text \<open>The calls that return only an error.\<close>

datatype act =
    CreateDisk DiskRecord
  | UpdateDisk DiskRecord
  | DeleteDisk string
  | CreateAttachment AttachmentRecord
  | DeleteAttachment string string
  | CreateLV string string u64
  | RemoveLV string string
  | ExtendLVAbsolute string string u64
  | ExtendLVDelta string string u64
  | ExtendLVPercent string string int
  | AttachDisk string DiskAttachSpec
  | DetachDisk string string
  | BlockResize string string u64
  | CreateQcow2 string u64
  | DDOver string string
  | RemoveFile string

datatype 'a proc =
    Done 'a
  | Act act "error option \<Rightarrow> 'a proc"
  | Acquire string "nat result \<Rightarrow> 'a proc"
  | Release nat "'a proc"
  | GetDisk string "DiskRecord result \<Rightarrow> 'a proc"
  | ListDisks string "DiskRecord list result \<Rightarrow> 'a proc"
  | GetAttachment string string "AttachmentRecord result \<Rightarrow> 'a proc"
  | ListAttachments string string "AttachmentRecord list result \<Rightarrow> 'a proc"
  | DomainStats string "BlockStats list result \<Rightarrow> 'a proc"
  | DomainExists string "bool result \<Rightarrow> 'a proc"
  | Now "gotime \<Rightarrow> 'a proc"
  | UnixNano "int \<Rightarrow> 'a proc"

primrec bind :: "'a proc \<Rightarrow> ('a \<Rightarrow> 'b proc) \<Rightarrow> 'b proc" where
  "bind (Done x) f = f x"
| "bind (Act a k) f = Act a (\<lambda>r. bind (k r) f)"
| "bind (Acquire vg k) f = Acquire vg (\<lambda>r. bind (k r) f)"
| "bind (Release h p) f = Release h (bind p f)"
| "bind (GetDisk n k) f = GetDisk n (\<lambda>r. bind (k r) f)"
| "bind (ListDisks vg k) f = ListDisks vg (\<lambda>r. bind (k r) f)"
| "bind (GetAttachment d v k) f = GetAttachment d v (\<lambda>r. bind (k r) f)"
| "bind (ListAttachments d v k) f = ListAttachments d v (\<lambda>r. bind (k r) f)"
| "bind (DomainStats vm k) f = DomainStats vm (\<lambda>r. bind (k r) f)"
| "bind (DomainExists vm k) f = DomainExists vm (\<lambda>r. bind (k r) f)"
| "bind (Now k) f = Now (\<lambda>r. bind (k r) f)"
| "bind (UnixNano k) f = UnixNano (\<lambda>r. bind (k r) f)"

text \<open>Go's \<open>defer\<close>: the cleanup runs when the body has its result, whatever it is.\<close>

definition deferred :: "('a proc \<Rightarrow> 'a proc) \<Rightarrow> 'a proc \<Rightarrow> 'a proc" where
  "deferred cleanup body = bind body (\<lambda>x. cleanup (Done x))"

text \<open>A call whose error is ignored (\<open>_ = f()\<close>).\<close>

definition ignoring :: "act \<Rightarrow> 'a proc \<Rightarrow> 'a proc" where
  "ignoring a p = Act a (\<lambda>_. p)"

section \<open>Executing calls\<close>

text \<open>Lifting a call on one component to the whole world.\<close>

definition on_lvm :: "('l \<Rightarrow> 'r \<times> 'l) \<Rightarrow> ('l, 'v, 's, 'k, 'q) World \<Rightarrow> 'r \<times> ('l, 'v, 's, 'k, 'q) World" where
  "on_lvm f w = (case f (w_lvm w) of (r, l) \<Rightarrow> (r, w\<lparr>w_lvm := l\<rparr>))"

definition on_virt :: "('v \<Rightarrow> 'r \<times> 'v) \<Rightarrow> ('l, 'v, 's, 'k, 'q) World \<Rightarrow> 'r \<times> ('l, 'v, 's, 'k, 'q) World" where
  "on_virt f w = (case f (w_virt w) of (r, v) \<Rightarrow> (r, w\<lparr>w_virt := v\<rparr>))"

definition on_store :: "('s \<Rightarrow> 'r \<times> 's) \<Rightarrow> ('l, 'v, 's, 'k, 'q) World \<Rightarrow> 'r \<times> ('l, 'v, 's, 'k, 'q) World" where
  "on_store f w = (case f (w_store w) of (r, s) \<Rightarrow> (r, w\<lparr>w_store := s\<rparr>))"

definition on_qemu :: "('q \<Rightarrow> 'r \<times> 'q) \<Rightarrow> ('l, 'v, 's, 'k, 'q) World \<Rightarrow> 'r \<times> ('l, 'v, 's, 'k, 'q) World" where
  "on_qemu f w = (case f (w_qemu w) of (r, q) \<Rightarrow> (r, w\<lparr>w_qemu := q\<rparr>))"

definition on_lock :: "('k \<Rightarrow> 'r \<times> 'k) \<Rightarrow> ('l, 'v, 's, 'k, 'q) World \<Rightarrow> 'r \<times> ('l, 'v, 's, 'k, 'q) World" where
  "on_lock f w = (case f (w_lock w) of (r, k) \<Rightarrow> (r, w\<lparr>w_lock := k\<rparr>))"

fun exec_act :: "('l, 'v, 's, 'k, 'q) Service \<Rightarrow> act \<Rightarrow> ('l, 'v, 's, 'k, 'q) World
    \<Rightarrow> error option \<times> ('l, 'v, 's, 'k, 'q) World" where
  "exec_act sv (CreateDisk r) w = on_store (st_CreateDisk (sv_Store sv) r) w"
| "exec_act sv (UpdateDisk r) w = on_store (st_UpdateDisk (sv_Store sv) r) w"
| "exec_act sv (DeleteDisk n) w = on_store (st_DeleteDisk (sv_Store sv) n) w"
| "exec_act sv (CreateAttachment a) w = on_store (st_CreateAttachment (sv_Store sv) a) w"
| "exec_act sv (DeleteAttachment d v) w = on_store (st_DeleteAttachment (sv_Store sv) d v) w"
| "exec_act sv (CreateLV vg n sz) w = on_lvm (lvm_CreateLV (sv_LVM sv) vg n sz) w"
| "exec_act sv (RemoveLV vg n) w = on_lvm (lvm_RemoveLV (sv_LVM sv) vg n) w"
| "exec_act sv (ExtendLVAbsolute vg n sz) w = on_lvm (lvm_ExtendLVAbsolute (sv_LVM sv) vg n sz) w"
| "exec_act sv (ExtendLVDelta vg n d) w = on_lvm (lvm_ExtendLVDelta (sv_LVM sv) vg n d) w"
| "exec_act sv (ExtendLVPercent vg n pc) w = on_lvm (lvm_ExtendLVPercent (sv_LVM sv) vg n pc) w"
| "exec_act sv (AttachDisk vm spec) w = on_virt (cl_AttachDisk (sv_Libvirt sv) vm spec) w"
| "exec_act sv (DetachDisk vm dev) w = on_virt (cl_DetachDisk (sv_Libvirt sv) vm dev) w"
| "exec_act sv (BlockResize vm dev sz) w = on_virt (cl_BlockResize (sv_Libvirt sv) vm dev sz) w"
| "exec_act sv (CreateQcow2 p sz) w = on_qemu (qi_CreateQcow2 (sv_QemuImg sv) p sz) w"
| "exec_act sv (DDOver a b) w = on_qemu (qi_DDOver (sv_QemuImg sv) a b) w"
| "exec_act sv (RemoveFile p) w = on_qemu (qi_RemoveFile (sv_QemuImg sv) p) w"

definition tick_clock :: "('l, 'v, 's, 'k, 'q) World \<Rightarrow> ('l, 'v, 's, 'k, 'q) World" where
  "tick_clock w = w\<lparr>w_reads := Suc (w_reads w)\<rparr>"

definition release_lock :: "('l, 'v, 's, 'k, 'q) Service \<Rightarrow> nat \<Rightarrow> ('l, 'v, 's, 'k, 'q) World
    \<Rightarrow> ('l, 'v, 's, 'k, 'q) World" where
  "release_lock sv h w = w\<lparr>w_lock := lk_Release (sv_Locker sv) h (w_lock w)\<rparr>"

text \<open>
  One step of a handler: perform its first call and continue with the reply. A finished
  handler has no step.
\<close>

fun step1 :: "('l, 'v, 's, 'k, 'q) Service \<Rightarrow> 'a proc \<Rightarrow> ('l, 'v, 's, 'k, 'q) World
    \<Rightarrow> ('a proc \<times> ('l, 'v, 's, 'k, 'q) World) option" where
  "step1 sv (Done x) w = None"
| "step1 sv (Act a k) w = Some (map_prod k id (exec_act sv a w))"
| "step1 sv (Acquire vg k) w = Some (map_prod k id (on_lock (lk_Acquire (sv_Locker sv) vg) w))"
| "step1 sv (Release h p) w = Some (p, release_lock sv h w)"
| "step1 sv (GetDisk n k) w = Some (map_prod k id (on_store (st_GetDisk (sv_Store sv) n) w))"
| "step1 sv (ListDisks vg k) w = Some (map_prod k id (on_store (st_ListDisks (sv_Store sv) vg) w))"
| "step1 sv (GetAttachment d v k) w = Some (map_prod k id (on_store (st_GetAttachment (sv_Store sv) d v) w))"
| "step1 sv (ListAttachments d v k) w = Some (map_prod k id (on_store (st_ListAttachments (sv_Store sv) d v) w))"
| "step1 sv (DomainStats vm k) w = Some (map_prod k id (on_virt (cl_DomainStats (sv_Libvirt sv) vm) w))"
| "step1 sv (DomainExists vm k) w = Some (map_prod k id (on_virt (cl_DomainExists (sv_Libvirt sv) vm) w))"
| "step1 sv (Now k) w = Some (k (sv_Now sv (w_reads w)), tick_clock w)"
| "step1 sv (UnixNano k) w = Some (k (sv_UnixNano sv (w_reads w)), tick_clock w)"

primrec run :: "('l, 'v, 's, 'k, 'q) Service \<Rightarrow> 'a proc \<Rightarrow> ('l, 'v, 's, 'k, 'q) World
    \<Rightarrow> 'a \<times> ('l, 'v, 's, 'k, 'q) World" where
  "run sv (Done x) w = (x, w)"
| "run sv (Act a k) w = (case exec_act sv a w of (r, w') \<Rightarrow> run sv (k r) w')"
| "run sv (Acquire vg k) w = (case on_lock (lk_Acquire (sv_Locker sv) vg) w of (r, w') \<Rightarrow> run sv (k r) w')"
| "run sv (Release h p) w = run sv p (release_lock sv h w)"
| "run sv (GetDisk n k) w = (case on_store (st_GetDisk (sv_Store sv) n) w of (r, w') \<Rightarrow> run sv (k r) w')"
| "run sv (ListDisks vg k) w = (case on_store (st_ListDisks (sv_Store sv) vg) w of (r, w') \<Rightarrow> run sv (k r) w')"
| "run sv (GetAttachment d v k) w =
     (case on_store (st_GetAttachment (sv_Store sv) d v) w of (r, w') \<Rightarrow> run sv (k r) w')"
| "run sv (ListAttachments d v k) w =
     (case on_store (st_ListAttachments (sv_Store sv) d v) w of (r, w') \<Rightarrow> run sv (k r) w')"
| "run sv (DomainStats vm k) w = (case on_virt (cl_DomainStats (sv_Libvirt sv) vm) w of (r, w') \<Rightarrow> run sv (k r) w')"
| "run sv (DomainExists vm k) w = (case on_virt (cl_DomainExists (sv_Libvirt sv) vm) w of (r, w') \<Rightarrow> run sv (k r) w')"
| "run sv (Now k) w = run sv (k (sv_Now sv (w_reads w))) (tick_clock w)"
| "run sv (UnixNano k) w = run sv (k (sv_UnixNano sv (w_reads w))) (tick_clock w)"

lemma run_bind [proc_simps]: "run sv (bind p f) w = (case run sv p w of (x, w') \<Rightarrow> run sv (f x) w')"
  by (induction p arbitrary: w) (simp_all split: prod.splits)

lemma run_deferred [proc_simps]: "run sv (deferred c p) w = (case run sv p w of (x, w') \<Rightarrow> run sv (c (Done x)) w')"
  by (simp add: deferred_def run_bind)

lemma run_ignoring [proc_simps]: "run sv (ignoring a p) w = run sv p (snd (exec_act sv a w))"
  by (simp add: ignoring_def split: prod.splits)

lemma run_step1: "step1 sv p w = Some (p', w') \<Longrightarrow> run sv p w = run sv p' w'"
  by (cases p) (auto split: prod.splits)

lemma step1_None_iff: "step1 sv p w = None \<longleftrightarrow> (\<exists>x. p = Done x)"
  by (cases p) auto

lemma bind_assoc: "bind (bind p f) g = bind p (\<lambda>x. bind (f x) g)"
  by (induction p) simp_all

lemma bind_Done [simp]: "bind p Done = p"
  by (induction p) simp_all

end
