(* ===== verification/Call_Traces.thy ===== *)
theory Call_Traces
  imports Service_Calls
begin

text \<open>
  What a handler may do, whatever the environment answers. An \<open>event\<close> is one interface
  call with its reply; a monitor is a partial automaton over events (\<open>None\<close> means the
  event is forbidden). \<open>safe m p g Q\<close> says that no run of \<open>p\<close>, under any replies
  at all, makes an event the monitor forbids, and that every run ends in a monitor state and
  a result that satisfy \<open>Q\<close>. It is a weakest-precondition calculus: it distributes over
  sequencing (\<open>safe_bind\<close>), and \<open>safe_run\<close> transfers it to the events of an actual
  execution against an actual world.
\<close>

datatype event =
    EvAct act "error option"
  | EvAcquire string "nat result"
  | EvRelease nat
  | EvGetDisk string "DiskRecord result"
  | EvListDisks string "DiskRecord list result"
  | EvGetAttachment string string "AttachmentRecord result"
  | EvListAttachments string string "AttachmentRecord list result"
  | EvDomainStats string "BlockStats list result"
  | EvDomainExists string "bool result"
  | EvNow gotime
  | EvUnixNano int

type_synonym 'g monitor = "'g \<Rightarrow> event \<Rightarrow> 'g option"

fun monitors :: "'g monitor \<Rightarrow> 'g \<Rightarrow> event list \<Rightarrow> 'g option" where
  "monitors m g [] = Some g"
| "monitors m g (e # es) = (case m g e of None \<Rightarrow> None | Some g' \<Rightarrow> monitors m g' es)"

definition allowed :: "'g option \<Rightarrow> ('g \<Rightarrow> bool) \<Rightarrow> bool" where
  "allowed x P \<longleftrightarrow> (case x of None \<Rightarrow> False | Some g \<Rightarrow> P g)"

lemma allowed_simps [simp]: "allowed None P \<longleftrightarrow> False" "allowed (Some g) P \<longleftrightarrow> P g"
  by (simp_all add: allowed_def)

primrec safe :: "'g monitor \<Rightarrow> 'a proc \<Rightarrow> 'g \<Rightarrow> ('a \<Rightarrow> 'g \<Rightarrow> bool) \<Rightarrow> bool" where
  "safe m (Done x) g Q = Q x g"
| "safe m (Act a k) g Q = (\<forall>r. allowed (m g (EvAct a r)) (\<lambda>g'. safe m (k r) g' Q))"
| "safe m (Acquire vg k) g Q = (\<forall>r. allowed (m g (EvAcquire vg r)) (\<lambda>g'. safe m (k r) g' Q))"
| "safe m (Release h p) g Q = allowed (m g (EvRelease h)) (\<lambda>g'. safe m p g' Q)"
| "safe m (GetDisk n k) g Q = (\<forall>r. allowed (m g (EvGetDisk n r)) (\<lambda>g'. safe m (k r) g' Q))"
| "safe m (ListDisks vg k) g Q = (\<forall>r. allowed (m g (EvListDisks vg r)) (\<lambda>g'. safe m (k r) g' Q))"
| "safe m (GetAttachment d v k) g Q = (\<forall>r. allowed (m g (EvGetAttachment d v r)) (\<lambda>g'. safe m (k r) g' Q))"
| "safe m (ListAttachments d v k) g Q = (\<forall>r. allowed (m g (EvListAttachments d v r)) (\<lambda>g'. safe m (k r) g' Q))"
| "safe m (DomainStats vm k) g Q = (\<forall>r. allowed (m g (EvDomainStats vm r)) (\<lambda>g'. safe m (k r) g' Q))"
| "safe m (DomainExists vm k) g Q = (\<forall>r. allowed (m g (EvDomainExists vm r)) (\<lambda>g'. safe m (k r) g' Q))"
| "safe m (Now k) g Q = (\<forall>t. allowed (m g (EvNow t)) (\<lambda>g'. safe m (k t) g' Q))"
| "safe m (UnixNano k) g Q = (\<forall>t. allowed (m g (EvUnixNano t)) (\<lambda>g'. safe m (k t) g' Q))"

lemma safe_bind: "safe m (bind p f) g Q = safe m p g (\<lambda>x g'. safe m (f x) g' Q)"
  by (induction p arbitrary: g) simp_all

lemma safe_deferred: "safe m (deferred c p) g Q = safe m p g (\<lambda>x g'. safe m (c (Done x)) g' Q)"
  by (simp add: deferred_def safe_bind)

lemma safe_ignoring: "safe m (ignoring a p) g Q = (\<forall>r. allowed (m g (EvAct a r)) (\<lambda>g'. safe m p g' Q))"
  by (simp add: ignoring_def)

lemma allowed_mono: "allowed x P \<Longrightarrow> (\<And>g. P g \<Longrightarrow> P' g) \<Longrightarrow> allowed x P'"
  by (cases x) simp_all

lemma safe_mono: "safe m p g Q \<Longrightarrow> (\<And>x g. Q x g \<Longrightarrow> Q' x g) \<Longrightarrow> safe m p g Q'"
  by (induction p arbitrary: g) (auto intro: allowed_mono)

lemmas safe_simps = safe_bind safe_deferred safe_ignoring

lemmas reply_cases = split_sum_all split_option_all

section \<open>The events of an execution\<close>

primrec events :: "('l, 'v, 's, 'k, 'q) Service \<Rightarrow> 'a proc \<Rightarrow> ('l, 'v, 's, 'k, 'q) World \<Rightarrow> event list" where
  "events sv (Done x) w = []"
| "events sv (Act a k) w = (case exec_act sv a w of (r, w') \<Rightarrow> EvAct a r # events sv (k r) w')"
| "events sv (Acquire vg k) w =
     (case on_lock (lk_Acquire (sv_Locker sv) vg) w of (r, w') \<Rightarrow> EvAcquire vg r # events sv (k r) w')"
| "events sv (Release h p) w = EvRelease h # events sv p (release_lock sv h w)"
| "events sv (GetDisk n k) w =
     (case on_store (st_GetDisk (sv_Store sv) n) w of (r, w') \<Rightarrow> EvGetDisk n r # events sv (k r) w')"
| "events sv (ListDisks vg k) w =
     (case on_store (st_ListDisks (sv_Store sv) vg) w of (r, w') \<Rightarrow> EvListDisks vg r # events sv (k r) w')"
| "events sv (GetAttachment d v k) w =
     (case on_store (st_GetAttachment (sv_Store sv) d v) w of (r, w') \<Rightarrow> EvGetAttachment d v r # events sv (k r) w')"
| "events sv (ListAttachments d v k) w =
     (case on_store (st_ListAttachments (sv_Store sv) d v) w of (r, w') \<Rightarrow> EvListAttachments d v r # events sv (k r) w')"
| "events sv (DomainStats vm k) w =
     (case on_virt (cl_DomainStats (sv_Libvirt sv) vm) w of (r, w') \<Rightarrow> EvDomainStats vm r # events sv (k r) w')"
| "events sv (DomainExists vm k) w =
     (case on_virt (cl_DomainExists (sv_Libvirt sv) vm) w of (r, w') \<Rightarrow> EvDomainExists vm r # events sv (k r) w')"
| "events sv (Now k) w = EvNow (sv_Now sv (w_reads w)) # events sv (k (sv_Now sv (w_reads w))) (tick_clock w)"
| "events sv (UnixNano k) w =
     EvUnixNano (sv_UnixNano sv (w_reads w)) # events sv (k (sv_UnixNano sv (w_reads w))) (tick_clock w)"

lemma monitors_reply:
  assumes "\<forall>r. allowed (m g (ev r)) (\<lambda>g'. safe m (k r) g' Q)"
    and "\<And>g'. safe m (k r) g' Q \<Longrightarrow> allowed (monitors m g' es) P"
  shows "allowed (monitors m g (ev r # es)) P"
  using assms(1) [rule_format, of r] assms(2) by (cases "m g (ev r)") simp_all

lemma safe_run:
  "safe m p g Q \<Longrightarrow> allowed (monitors m g (events sv p w)) (Q (fst (run sv p w)))"
proof (induction p arbitrary: g w)
  case (Done x)
  then show ?case by simp
next
  case (Act a k)
  then show ?case by (auto split: prod.split simp del: monitors.simps intro!: monitors_reply [where ev = "EvAct a"])
next
  case (Acquire vg k)
  then show ?case by (auto split: prod.split simp del: monitors.simps intro!: monitors_reply [where ev = "EvAcquire vg"])
next
  case (Release h p)
  then show ?case by (cases "m g (EvRelease h)") simp_all
next
  case (GetDisk n k)
  then show ?case by (auto split: prod.split simp del: monitors.simps intro!: monitors_reply [where ev = "EvGetDisk n"])
next
  case (ListDisks vg k)
  then show ?case by (auto split: prod.split simp del: monitors.simps intro!: monitors_reply [where ev = "EvListDisks vg"])
next
  case (GetAttachment d v k)
  then show ?case by (auto split: prod.split simp del: monitors.simps intro!: monitors_reply [where ev = "EvGetAttachment d v"])
next
  case (ListAttachments d v k)
  then show ?case by (auto split: prod.split simp del: monitors.simps intro!: monitors_reply [where ev = "EvListAttachments d v"])
next
  case (DomainStats vm k)
  then show ?case by (auto split: prod.split simp del: monitors.simps intro!: monitors_reply [where ev = "EvDomainStats vm"])
next
  case (DomainExists vm k)
  then show ?case by (auto split: prod.split simp del: monitors.simps intro!: monitors_reply [where ev = "EvDomainExists vm"])
next
  case (Now k)
  then show ?case by (auto split: prod.split simp del: monitors.simps intro!: monitors_reply [where ev = "EvNow"])
next
  case (UnixNano k)
  then show ?case by (auto split: prod.split simp del: monitors.simps intro!: monitors_reply [where ev = "EvUnixNano"])
qed

end
