(* ===== verification/Catalog_Semantics.thy ===== *)
theory Catalog_Semantics
  imports Call_Traces
begin

text \<open>
  Handlers over the abstract catalog. \<open>catsafe rel ok m p c g Q\<close> runs a handler against the
  contract of the store instead of a backend: a store call may answer anything the contract of
  \<open>store.Store\<close> allows from catalog \<open>c\<close> (with \<open>rel\<close>, the stronger contract of a
  backend that fails only with the sentinel errors), every other call may answer anything at
  all, and the monitor \<open>m\<close> watches the calls. \<open>store_contract.catsafe_run\<close> and
  \<open>reliable_store.catsafe_run_rel\<close> transfer what is proved this way to every execution
  against a backend that meets the contract.
\<close>

fun write_ok :: "bool \<Rightarrow> error option \<Rightarrow> error \<Rightarrow> bool" where
  "write_ok rel (Some x) blocked = (rel \<longrightarrow> errors_Is x blocked)"
| "write_ok rel None blocked = True"

fun read_ok :: "bool \<Rightarrow> 'a result \<Rightarrow> bool" where
  "read_ok rel (Inl x) = (rel \<longrightarrow> errors_Is x ErrNotFound)"
| "read_ok rel (Inr _) = True"

text \<open>The outcome of a call that returns only an error, on the catalog.\<close>

fun act_outcome :: "bool \<Rightarrow> act \<Rightarrow> Catalog \<Rightarrow> error option \<Rightarrow> Catalog \<Rightarrow> bool" where
  "act_outcome rel (CreateDisk r) c e c' \<longleftrightarrow> write_ok rel e ErrAlreadyExists \<and>
     write_outcome e ErrAlreadyExists (cat_disks c (dName r) = None) c (put_disk r c) c'"
| "act_outcome rel (UpdateDisk r) c e c' \<longleftrightarrow> write_ok rel e ErrNotFound \<and>
     write_outcome e ErrNotFound (cat_disks c (dName r) \<noteq> None) c (put_disk r c) c'"
| "act_outcome rel (DeleteDisk n) c e c' \<longleftrightarrow> (rel \<longrightarrow> e = None) \<and>
     write_outcome e ErrNotFound True c (drop_disk n c) c'"
| "act_outcome rel (CreateAttachment a) c e c' \<longleftrightarrow> write_ok rel e ErrAlreadyExists \<and>
     write_outcome e ErrAlreadyExists (cat_atts c (att_key a) = None) c (put_att a c) c'"
| "act_outcome rel (DeleteAttachment d v) c e c' \<longleftrightarrow> (rel \<longrightarrow> e = None) \<and>
     write_outcome e ErrNotFound True c (drop_att d v c) c'"
| "act_outcome rel _ c e c' \<longleftrightarrow> c' = c"

fun act_ok :: "(string \<Rightarrow> bool) \<Rightarrow> act \<Rightarrow> bool" where
  "act_ok ok (CreateAttachment a) = ok (aDiskName a)"
| "act_ok ok (DeleteAttachment d v) = ok d"
| "act_ok ok _ = True"

text \<open>The answers of the read calls.\<close>

definition read_answer :: "bool \<Rightarrow> 'a option \<Rightarrow> 'a result \<Rightarrow> bool" where
  "read_answer rel x r \<longleftrightarrow> read_ok rel r \<and> read_outcome r x"

definition list_answer :: "bool \<Rightarrow> ('a list \<Rightarrow> bool) \<Rightarrow> 'a list result \<Rightarrow> bool" where
  "list_answer rel P r \<longleftrightarrow> (case r of Inl _ \<Rightarrow> \<not> rel | Inr xs \<Rightarrow> P xs)"

lemma answer_simps [simp]:
  "read_answer rel x (Inr y) \<longleftrightarrow> x = Some y"
  "read_answer rel x (Inl e) \<longleftrightarrow> (rel \<longrightarrow> errors_Is e ErrNotFound) \<and> (errors_Is e ErrNotFound \<longrightarrow> x = None)"
  "list_answer rel P (Inr xs) \<longleftrightarrow> P xs"
  "list_answer rel P (Inl e) \<longleftrightarrow> \<not> rel"
  by (simp_all add: read_answer_def list_answer_def)

primrec catsafe :: "bool \<Rightarrow> (string \<Rightarrow> bool) \<Rightarrow> 'g monitor \<Rightarrow> 'a proc \<Rightarrow> Catalog \<Rightarrow> 'g
    \<Rightarrow> ('a \<Rightarrow> Catalog \<Rightarrow> 'g \<Rightarrow> bool) \<Rightarrow> bool" where
  "catsafe rel ok m (Done x) c g Q = Q x c g"
| "catsafe rel ok m (Act a k) c g Q = (act_ok ok a \<and> (\<forall>e c'. act_outcome rel a c e c' \<longrightarrow>
     allowed (m g (EvAct a e)) (\<lambda>g'. catsafe rel ok m (k e) c' g' Q)))"
| "catsafe rel ok m (Acquire vg k) c g Q =
     (\<forall>r. allowed (m g (EvAcquire vg r)) (\<lambda>g'. catsafe rel ok m (k r) c g' Q))"
| "catsafe rel ok m (Release h p) c g Q = allowed (m g (EvRelease h)) (\<lambda>g'. catsafe rel ok m p c g' Q)"
| "catsafe rel ok m (GetDisk n k) c g Q = (\<forall>r. read_answer rel (cat_disks c n) r \<longrightarrow>
     allowed (m g (EvGetDisk n r)) (\<lambda>g'. catsafe rel ok m (k r) c g' Q))"
| "catsafe rel ok m (ListDisks vg k) c g Q = (\<forall>r. list_answer rel (lists_disks vg c) r \<longrightarrow>
     allowed (m g (EvListDisks vg r)) (\<lambda>g'. catsafe rel ok m (k r) c g' Q))"
| "catsafe rel ok m (GetAttachment d v k) c g Q = (ok d \<and> (\<forall>r. read_answer rel (cat_atts c (d, v)) r \<longrightarrow>
     allowed (m g (EvGetAttachment d v r)) (\<lambda>g'. catsafe rel ok m (k r) c g' Q)))"
| "catsafe rel ok m (ListAttachments d v k) c g Q = (ok d \<and> (\<forall>r. list_answer rel (lists_atts d v c) r \<longrightarrow>
     allowed (m g (EvListAttachments d v r)) (\<lambda>g'. catsafe rel ok m (k r) c g' Q)))"
| "catsafe rel ok m (DomainStats vm k) c g Q =
     (\<forall>r. allowed (m g (EvDomainStats vm r)) (\<lambda>g'. catsafe rel ok m (k r) c g' Q))"
| "catsafe rel ok m (DomainExists vm k) c g Q =
     (\<forall>r. allowed (m g (EvDomainExists vm r)) (\<lambda>g'. catsafe rel ok m (k r) c g' Q))"
| "catsafe rel ok m (Now k) c g Q = (\<forall>t. allowed (m g (EvNow t)) (\<lambda>g'. catsafe rel ok m (k t) c g' Q))"
| "catsafe rel ok m (UnixNano k) c g Q =
     (\<forall>t. allowed (m g (EvUnixNano t)) (\<lambda>g'. catsafe rel ok m (k t) c g' Q))"

lemma catsafe_bind:
  "catsafe rel ok m (bind p f) c g Q = catsafe rel ok m p c g (\<lambda>x c' g'. catsafe rel ok m (f x) c' g' Q)"
  by (induction p arbitrary: c g) simp_all

lemma catsafe_deferred:
  "catsafe rel ok m (deferred d p) c g Q = catsafe rel ok m p c g (\<lambda>x c' g'. catsafe rel ok m (d (Done x)) c' g' Q)"
  by (simp add: deferred_def catsafe_bind)

lemma catsafe_ignoring:
  "catsafe rel ok m (ignoring a p) c g Q = catsafe rel ok m (Act a (\<lambda>_. p)) c g Q"
  by (simp add: ignoring_def)

lemmas catsafe_simps = catsafe_bind catsafe_deferred catsafe_ignoring

lemma catsafe_mono:
  "catsafe rel ok m p c g Q \<Longrightarrow> (\<And>x c g. Q x c g \<Longrightarrow> Q' x c g) \<Longrightarrow> catsafe rel ok m p c g Q'"
proof (induction p arbitrary: c g)
  case (Act a k)
  then show ?case by (simp del: act_outcome.simps) (meson allowed_mono rangeI)
qed (auto intro: allowed_mono)

text \<open>The monitor that watches nothing, for what concerns the catalog alone.\<close>

definition unwatched :: "'g monitor" where
  "unwatched g e = Some g"

lemma allowed_unwatched [simp]: "allowed (unwatched g e) P \<longleftrightarrow> P g"
  by (simp add: unwatched_def)

section \<open>Transfer to an execution\<close>

lemma demonic_answers [simp]:
  "write_ok False e b"
  "read_answer False x r \<longleftrightarrow> read_outcome r x"
  "list_answer False P rs \<longleftrightarrow> (\<forall>xs. rs = Inr xs \<longrightarrow> P xs)"
proof -
  show "write_ok False e b" by (cases e) simp_all
  show "read_answer False x r \<longleftrightarrow> read_outcome r x" by (cases r) simp_all
  show "list_answer False P rs \<longleftrightarrow> (\<forall>xs. rs = Inr xs \<longrightarrow> P xs)" by (cases rs) simp_all
qed

text \<open>
  What a backend must do for the catalog semantics to describe it: the interface of the transfer.
  Both contracts of the store give it.
\<close>

locale catalog_backend =
  fixes rel :: bool
    and st :: "'s Store"
    and cat :: "'s \<Rightarrow> Catalog"
    and good :: "'s \<Rightarrow> bool"
    and ok :: "string \<Rightarrow> bool"
  assumes b_create: "good s \<Longrightarrow> st_CreateDisk st r s = (e, s') \<Longrightarrow>
      good s' \<and> act_outcome rel (CreateDisk r) (cat s) e (cat s')"
    and b_update: "good s \<Longrightarrow> st_UpdateDisk st r s = (e, s') \<Longrightarrow>
      good s' \<and> act_outcome rel (UpdateDisk r) (cat s) e (cat s')"
    and b_delete: "good s \<Longrightarrow> st_DeleteDisk st n s = (e, s') \<Longrightarrow>
      good s' \<and> act_outcome rel (DeleteDisk n) (cat s) e (cat s')"
    and b_create_att: "good s \<Longrightarrow> ok (aDiskName a) \<Longrightarrow> st_CreateAttachment st a s = (e, s') \<Longrightarrow>
      good s' \<and> act_outcome rel (CreateAttachment a) (cat s) e (cat s')"
    and b_delete_att: "good s \<Longrightarrow> ok d \<Longrightarrow> st_DeleteAttachment st d v s = (e, s') \<Longrightarrow>
      good s' \<and> act_outcome rel (DeleteAttachment d v) (cat s) e (cat s')"
    and b_get: "good s \<Longrightarrow> st_GetDisk st n s = (x, s') \<Longrightarrow>
      good s' \<and> cat s' = cat s \<and> read_answer rel (cat_disks (cat s) n) x"
    and b_list: "good s \<Longrightarrow> st_ListDisks st vg s = (xs, s') \<Longrightarrow>
      good s' \<and> cat s' = cat s \<and> list_answer rel (lists_disks vg (cat s)) xs"
    and b_get_att: "good s \<Longrightarrow> ok d \<Longrightarrow> st_GetAttachment st d v s = (y, s') \<Longrightarrow>
      good s' \<and> cat s' = cat s \<and> read_answer rel (cat_atts (cat s) (d, v)) y"
    and b_list_att: "good s \<Longrightarrow> ok d \<Longrightarrow> st_ListAttachments st d v s = (ys, s') \<Longrightarrow>
      good s' \<and> cat s' = cat s \<and> list_answer rel (lists_atts d v (cat s)) ys"

sublocale store_contract \<subseteq> demonic: catalog_backend False st cat inv ok
proof
  fix s s' r e n vg a d v x xs y ys
  assume s: "inv s"
  show "st_CreateDisk st r s = (e, s') \<Longrightarrow> inv s' \<and> act_outcome False (CreateDisk r) (cat s) e (cat s')"
    by (drule create_disk [OF s]) simp
  show "st_UpdateDisk st r s = (e, s') \<Longrightarrow> inv s' \<and> act_outcome False (UpdateDisk r) (cat s) e (cat s')"
    by (drule update_disk [OF s]) simp
  show "st_DeleteDisk st n s = (e, s') \<Longrightarrow> inv s' \<and> act_outcome False (DeleteDisk n) (cat s) e (cat s')"
    by (drule delete_disk [OF s]) simp
  show "st_GetDisk st n s = (x, s') \<Longrightarrow> inv s' \<and> cat s' = cat s \<and> read_answer False (cat_disks (cat s) n) x"
    by (drule get_disk [OF s]) simp
  show "st_ListDisks st vg s = (xs, s') \<Longrightarrow>
      inv s' \<and> cat s' = cat s \<and> list_answer False (lists_disks vg (cat s)) xs"
    by (drule list_disks [OF s]) simp
  show "ok (aDiskName a) \<Longrightarrow> st_CreateAttachment st a s = (e, s') \<Longrightarrow>
      inv s' \<and> act_outcome False (CreateAttachment a) (cat s) e (cat s')"
    by (drule (1) create_att [OF s]) simp
  assume d: "ok d"
  show "st_DeleteAttachment st d v s = (e, s') \<Longrightarrow>
      inv s' \<and> act_outcome False (DeleteAttachment d v) (cat s) e (cat s')"
    by (drule delete_att [OF s d]) simp
  show "st_GetAttachment st d v s = (y, s') \<Longrightarrow>
      inv s' \<and> cat s' = cat s \<and> read_answer False (cat_atts (cat s) (d, v)) y"
    by (drule get_att [OF s d]) simp
  show "st_ListAttachments st d v s = (ys, s') \<Longrightarrow>
      inv s' \<and> cat s' = cat s \<and> list_answer False (lists_atts d v (cat s)) ys"
    by (drule list_atts [OF s d]) simp
qed

sublocale reliable_store \<subseteq> exact: catalog_backend True st cat inv ok
proof
  fix s s' r e n vg a d v x xs y ys
  assume s: "inv s"
  show "st_CreateDisk st r s = (e, s') \<Longrightarrow> inv s' \<and> act_outcome True (CreateDisk r) (cat s) e (cat s')"
    using demonic.b_create [OF s, of r e s'] create_disk_rel [OF s, of r] by (cases e) simp_all
  show "st_UpdateDisk st r s = (e, s') \<Longrightarrow> inv s' \<and> act_outcome True (UpdateDisk r) (cat s) e (cat s')"
    using demonic.b_update [OF s, of r e s'] update_disk_rel [OF s, of r] by (cases e) simp_all
  show "st_DeleteDisk st n s = (e, s') \<Longrightarrow> inv s' \<and> act_outcome True (DeleteDisk n) (cat s) e (cat s')"
    using demonic.b_delete [OF s, of n e s'] delete_disk_rel [OF s, of n] by simp
  show "st_GetDisk st n s = (x, s') \<Longrightarrow> inv s' \<and> cat s' = cat s \<and> read_answer True (cat_disks (cat s) n) x"
    using demonic.b_get [OF s, of n x s'] get_disk_rel [OF s, of n] by (cases x) simp_all
  show "st_ListDisks st vg s = (xs, s') \<Longrightarrow>
      inv s' \<and> cat s' = cat s \<and> list_answer True (lists_disks vg (cat s)) xs"
    using demonic.b_list [OF s, of vg xs s'] list_disks_rel [OF s, of vg] by (cases xs) auto
  show "ok (aDiskName a) \<Longrightarrow> st_CreateAttachment st a s = (e, s') \<Longrightarrow>
      inv s' \<and> act_outcome True (CreateAttachment a) (cat s) e (cat s')"
    using demonic.b_create_att [OF s, of a e s'] create_att_rel [OF s, of a] by (cases e) simp_all
  assume d: "ok d"
  show "st_DeleteAttachment st d v s = (e, s') \<Longrightarrow>
      inv s' \<and> act_outcome True (DeleteAttachment d v) (cat s) e (cat s')"
    using demonic.b_delete_att [OF s d, of v e s'] delete_att_rel [OF s d, of v] by simp
  show "st_GetAttachment st d v s = (y, s') \<Longrightarrow>
      inv s' \<and> cat s' = cat s \<and> read_answer True (cat_atts (cat s) (d, v)) y"
    using demonic.b_get_att [OF s d, of v y s'] get_att_rel [OF s d, of v] by (cases y) simp_all
  show "st_ListAttachments st d v s = (ys, s') \<Longrightarrow>
      inv s' \<and> cat s' = cat s \<and> list_answer True (lists_atts d v (cat s)) ys"
    using demonic.b_list_att [OF s d, of v ys s'] list_atts_rel [OF s d, of v] by (cases ys) auto
qed

text \<open>What holds at the end of a run that began in \<open>good\<close>.\<close>

definition outcome_ok :: "('s \<Rightarrow> Catalog) \<Rightarrow> ('s \<Rightarrow> bool) \<Rightarrow> ('a \<Rightarrow> Catalog \<Rightarrow> 'g \<Rightarrow> bool)
    \<Rightarrow> 'a \<times> ('l, 'v, 's, 'k, 'q) World \<Rightarrow> 'g \<Rightarrow> bool" where
  "outcome_ok cat good Q xw g \<longleftrightarrow> good (w_store (snd xw)) \<and> Q (fst xw) (cat (w_store (snd xw))) g"

lemma allowed_Cons:
  assumes "allowed (m g e) S" and "\<And>g'. S g' \<Longrightarrow> allowed (monitors m g' es) P"
  shows "allowed (monitors m g (e # es)) P"
  using assms by (cases "m g e") simp_all

lemma w_store_other_calls [simp]:
  "w_store (snd (on_virt f' w)) = w_store w"
  "w_store (release_lock sv h w) = w_store w"
  "w_store (tick_clock w) = w_store w"
  by (simp_all add: on_virt_def release_lock_def tick_clock_def split: prod.splits)

lemma on_storeD: "on_store f w = (r, w') \<Longrightarrow> f (w_store w) = (r, w_store w')"
  by (auto simp: on_store_def split: prod.splits)

lemma w_store_other_acts [simp]:
  "w_store (snd (on_lvm f w)) = w_store w" "w_store (snd (on_qemu f' w)) = w_store w"
  by (simp_all add: on_lvm_def on_qemu_def split: prod.splits)

lemma on_otherD:
  "on_virt f w = (r, w') \<Longrightarrow> w_store w' = w_store w" "on_lock f' w = (r', w') \<Longrightarrow> w_store w' = w_store w"
  by (auto simp: on_virt_def on_lock_def split: prod.splits)

context catalog_backend
begin

lemma act_step:
  assumes sv: "sv_Store sv = st" and good: "good (w_store w)" and ok: "act_ok ok a"
    and ex: "exec_act sv a w = (e, w')"
  shows "good (w_store w') \<and> act_outcome rel a (cat (w_store w)) e (cat (w_store w'))"
proof -
  from ex have w': "w_store w' = w_store (snd (exec_act sv a w))" by simp
  show ?thesis
  proof (cases a)
    case (CreateDisk r)
    with ex sv have "st_CreateDisk st r (w_store w) = (e, w_store w')" by (auto dest!: on_storeD)
    from b_create [OF good this] CreateDisk show ?thesis by (simp del: act_outcome.simps)
  next
    case (UpdateDisk r)
    with ex sv have "st_UpdateDisk st r (w_store w) = (e, w_store w')" by (auto dest!: on_storeD)
    from b_update [OF good this] UpdateDisk show ?thesis by (simp del: act_outcome.simps)
  next
    case (DeleteDisk n)
    with ex sv have "st_DeleteDisk st n (w_store w) = (e, w_store w')" by (auto dest!: on_storeD)
    from b_delete [OF good this] DeleteDisk show ?thesis by (simp del: act_outcome.simps)
  next
    case (CreateAttachment r)
    with ex sv have "st_CreateAttachment st r (w_store w) = (e, w_store w')" by (auto dest!: on_storeD)
    from b_create_att [OF good _ this] ok CreateAttachment show ?thesis by (simp del: act_outcome.simps)
  next
    case (DeleteAttachment d v)
    with ex sv have "st_DeleteAttachment st d v (w_store w) = (e, w_store w')" by (auto dest!: on_storeD)
    from b_delete_att [OF good _ this] ok DeleteAttachment show ?thesis by (simp del: act_outcome.simps)
  qed (use good w' in simp_all)
qed

text \<open>A read call answers the handler from the catalog, which it does not change.\<close>

lemma read_step:
  assumes sv: "sv_Store sv = st" and good: "good (w_store w)"
  shows "on_store (st_GetDisk (sv_Store sv) n) w = (x, w') \<Longrightarrow>
      good (w_store w') \<and> cat (w_store w') = cat (w_store w) \<and> read_answer rel (cat_disks (cat (w_store w)) n) x"
    and "on_store (st_ListDisks (sv_Store sv) vg) w = (xs, w') \<Longrightarrow>
      good (w_store w') \<and> cat (w_store w') = cat (w_store w) \<and> list_answer rel (lists_disks vg (cat (w_store w))) xs"
    and "ok d \<Longrightarrow> on_store (st_GetAttachment (sv_Store sv) d v) w = (y, w') \<Longrightarrow>
      good (w_store w') \<and> cat (w_store w') = cat (w_store w) \<and> read_answer rel (cat_atts (cat (w_store w)) (d, v)) y"
    and "ok d \<Longrightarrow> on_store (st_ListAttachments (sv_Store sv) d v) w = (ys, w') \<Longrightarrow>
      good (w_store w') \<and> cat (w_store w') = cat (w_store w) \<and> list_answer rel (lists_atts d v (cat (w_store w))) ys"
  using b_get [OF good] b_list [OF good] b_get_att [OF good] b_list_att [OF good] by (auto simp: sv dest!: on_storeD)

text \<open>One call, then the rest of the handler: the induction step of the transfer.\<close>

lemma catsafe_step:
  assumes "allowed (m g e) (\<lambda>g'. catsafe rel ok m p (cat (w_store w')) g' Q)" and "good (w_store w')"
    and "\<And>g' w'. good (w_store w') \<Longrightarrow> catsafe rel ok m p (cat (w_store w')) g' Q \<Longrightarrow>
      allowed (monitors m g' (events sv p w')) (outcome_ok cat good Q (run sv p w'))"
  shows "allowed (monitors m g (e # events sv p w')) (outcome_ok cat good Q (run sv p w'))"
  using assms by (cases "m g e") simp_all

lemma catsafe_run:
  assumes sv: "sv_Store sv = st"
  shows "good (w_store w) \<Longrightarrow> catsafe rel ok m p (cat (w_store w)) g Q \<Longrightarrow>
    allowed (monitors m g (events sv p w)) (outcome_ok cat good Q (run sv p w))"
proof (induction p arbitrary: g w)
  case (Done x)
  then show ?case by (simp add: outcome_ok_def)
next
  case (Act a k)
  obtain e w' where e: "exec_act sv a w = (e, w')" by fastforce
  with act_step [OF sv Act.prems(1) _ e] Act.prems(2)
  show ?case by (simp del: monitors.simps act_outcome.simps) (blast intro: catsafe_step Act.IH [OF rangeI])
next
  case (GetDisk n k)
  obtain r w' where r: "on_store (st_GetDisk (sv_Store sv) n) w = (r, w')" by fastforce
  with read_step(1) [OF sv GetDisk.prems(1) r] GetDisk.prems(2)
  show ?case by (auto simp del: monitors.simps intro!: catsafe_step GetDisk.IH [OF rangeI])
next
  case (ListDisks vg k)
  obtain r w' where r: "on_store (st_ListDisks (sv_Store sv) vg) w = (r, w')" by fastforce
  with read_step(2) [OF sv ListDisks.prems(1) r] ListDisks.prems(2)
  show ?case by (auto simp del: monitors.simps intro!: catsafe_step ListDisks.IH [OF rangeI])
next
  case (GetAttachment d v k)
  obtain r w' where r: "on_store (st_GetAttachment (sv_Store sv) d v) w = (r, w')" by fastforce
  with read_step(3) [OF sv GetAttachment.prems(1) _ r] GetAttachment.prems(2)
  show ?case by (auto simp del: monitors.simps intro!: catsafe_step GetAttachment.IH [OF rangeI])
next
  case (ListAttachments d v k)
  obtain r w' where r: "on_store (st_ListAttachments (sv_Store sv) d v) w = (r, w')" by fastforce
  with read_step(4) [OF sv ListAttachments.prems(1) _ r] ListAttachments.prems(2)
  show ?case by (auto simp del: monitors.simps intro!: catsafe_step ListAttachments.IH [OF rangeI])
qed (auto simp: on_otherD simp del: monitors.simps intro!: catsafe_step split: prod.split)

lemma catsafe_result:
  assumes "sv_Store sv = st" "good (w_store w)" "run sv p w = (x, w')"
    and "catsafe rel ok m p (cat (w_store w)) g Q"
  shows "good (w_store w') \<and> (\<exists>g'. monitors m g (events sv p w) = Some g' \<and> Q x (cat (w_store w')) g')"
  using catsafe_run [OF assms(1,2,4)] assms(3)
  by (cases "monitors m g (events sv p w)") (simp_all add: outcome_ok_def)

end

text \<open>What a handler does to the catalog, for a backend with either contract.\<close>

context store_contract
begin

lemma handler_outcome:
  assumes "sv_Store sv = st" "inv (w_store w)" "run sv p w = (x, w')"
    and "catsafe False ok (unwatched :: unit monitor) p (cat (w_store w)) () (\<lambda>x c' _. Q x c')"
  shows "inv (w_store w') \<and> Q x (cat (w_store w'))"
  using demonic.catsafe_result [OF assms] by blast

end

context reliable_store
begin

lemma handler_outcome_rel:
  assumes "sv_Store sv = st" "inv (w_store w)" "run sv p w = (x, w')"
    and "catsafe True ok (unwatched :: unit monitor) p (cat (w_store w)) () (\<lambda>x c' _. Q x c')"
  shows "inv (w_store w') \<and> Q x (cat (w_store w'))"
  using exact.catsafe_result [OF assms] by blast

lemma handler_watched_rel:
  assumes "sv_Store sv = st" "inv (w_store w)" "run sv p w = (x, w')"
    and "catsafe True ok m p (cat (w_store w)) g Q"
  shows "inv (w_store w') \<and> (\<exists>g'. monitors m g (events sv p w) = Some g' \<and> Q x (cat (w_store w')) g')"
  using exact.catsafe_result [OF assms] .

end

end
