(* ===== verification/Disk_Service.thy ===== *)
theory Disk_Service
  imports Service_Calls
begin

text \<open>
  The disk lifecycle of \<open>src/internal/disk/disk.go\<close>: one definition per method of
  \<open>Service\<close>, each the tree of interface calls the Go method makes, with every guard and
  early return. Errors are left values; Go's zero record beside an error is dropped. The
  lemmas about single operations (input normalisation, the choice of a target device, size
  arithmetic) are here; what whole handlers do to the catalog, to lvm and to libvirt is in
  \<open>Disk_Correctness\<close>, and the locking discipline in \<open>Lock_Discipline\<close>.
\<close>

section \<open>Inputs\<close>

record CreateInput =
  ci_Name :: string
  ci_VG :: string
  ci_Mode :: ProvisionMode
  ci_SizeBytes :: u64
  ci_VirtualSizeBytes :: u64

record AttachInput =
  ai_DiskName :: string
  ai_VMName :: string
  ai_TargetDev :: string

record ExtendInput =
  ei_Name :: string
  ei_SizeBytes :: u64
  ei_DeltaBytes :: u64

section \<open>Creating a disk\<close>

text \<open>The characters \<open>normaliseCreate\<close> refuses in a name: blank, slash, backslash, tab, newline.\<close>

definition bad_name_chars :: string where
  "bad_name_chars = [CHR '' '', CHR ''/'', CHR 0x5C, CHR 0x09, CHR 0x0A]"

definition normaliseCreate :: "('l, 'v, 's, 'k, 'q) Service \<Rightarrow> CreateInput \<Rightarrow> CreateInput result" where
  "normaliseCreate sv inp =
     (if ci_Name inp = [] then Inl (Errorf ''disk: name is required'' [])
      else if ContainsAny (ci_Name inp) bad_name_chars
      then Inl (Errorf ''disk: invalid name %q'' [ci_Name inp])
      else let inp = (if ci_VG inp = [] then inp\<lparr>ci_VG := sv_DefaultVG sv\<rparr> else inp) in
      if ci_VG inp = [] then Inl (Errorf ''disk: vg is required (and no default configured)'' [])
      else if ci_Mode inp \<noteq> ProvisionUnspecified \<and> ci_Mode inp \<noteq> ProvisionThick \<and> ci_Mode inp \<noteq> ProvisionThin
      then Inl (Errorf ''disk: unsupported mode %v'' [ProvisionMode_String (ci_Mode inp)])
      else let inp = (if ci_Mode inp = ProvisionUnspecified then inp\<lparr>ci_Mode := ProvisionThick\<rparr> else inp) in
      if ci_Mode inp = ProvisionThick then
        (if ci_SizeBytes inp = 0 then Inl (Errorf ''disk: size_bytes is required for thick disks'' [])
         else Inr (if ci_VirtualSizeBytes inp = 0 then inp\<lparr>ci_VirtualSizeBytes := ci_SizeBytes inp\<rparr> else inp))
      else
        (if ci_VirtualSizeBytes inp = 0
         then Inl (Errorf ''disk: virtual_size_bytes is required for thin disks'' [])
         else let inp = (if ci_SizeBytes inp = 0 then inp\<lparr>ci_SizeBytes := sv_DefaultThinInitial sv\<rparr> else inp) in
         if ci_SizeBytes inp = 0
         then Inl (Errorf ''disk: thin initial size_bytes is zero and no default configured'' [])
         else if ci_VirtualSizeBytes inp \<le> ci_SizeBytes inp
         then Inl (Errorf ''disk: thin size_bytes must be < virtual_size_bytes'' [])
         else Inr inp))"

definition makeQcow2Header :: "('l, 'v, 's, 'k, 'q) Service \<Rightarrow> string \<Rightarrow> u64 \<Rightarrow> string result proc" where
  "makeQcow2Header sv name virtualSize =
     UnixNano (\<lambda>nanos.
       let tmp = path_Join (sv_TempDir sv) (''sltv-'' @ name @ ''-'' @ dec_int nanos @ ''.qcow2'') in
       Act (CreateQcow2 tmp virtualSize) (\<lambda>e. case e of
         Some err \<Rightarrow> Done (Inl err)
       | None \<Rightarrow> Done (Inr tmp)))"

text \<open>The record \<open>CreateDisk\<close> stores, and its last part: store it or remove the volume again.\<close>

definition newDiskRecord :: "('l, 'v, 's, 'k, 'q) Service \<Rightarrow> CreateInput \<Rightarrow> gotime \<Rightarrow> DiskRecord" where
  "newDiskRecord sv inp now = \<lparr>dName = ci_Name inp, dVG = ci_VG inp, dMode = ci_Mode inp,
     dSizeBytes = ci_SizeBytes inp, dVirtualSizeBytes = ci_VirtualSizeBytes inp,
     dDevicePath = DevicePath (ci_VG inp) (ci_Name inp), dCreatedOnNode = sv_NodeID sv,
     dCreatedAt = now, dLastExtendedAt = zeroTime\<rparr>"

definition persistDisk :: "('l, 'v, 's, 'k, 'q) Service \<Rightarrow> CreateInput \<Rightarrow> DiskRecord result proc" where
  "persistDisk sv inp =
     Now (\<lambda>now.
       let rec = newDiskRecord sv inp now in
       Act (CreateDisk rec) (\<lambda>e. case e of
         Some err \<Rightarrow>
           ignoring (RemoveLV (ci_VG inp) (ci_Name inp)) (Done (Inl (Wrapf ''persist disk: %w'' [] err)))
       | None \<Rightarrow> Done (Inr rec)))"

definition Service_CreateDisk :: "('l, 'v, 's, 'k, 'q) Service \<Rightarrow> CreateInput \<Rightarrow> DiskRecord result proc" where
  "Service_CreateDisk sv inp =
     (case normaliseCreate sv inp of
        Inl err \<Rightarrow> Done (Inl err)
      | Inr inp \<Rightarrow>
          Acquire (ci_VG inp) (\<lambda>l. case l of
            Inl err \<Rightarrow> Done (Inl err)
          | Inr release \<Rightarrow> deferred (Release release) (
              GetDisk (ci_Name inp) (\<lambda>g. case g of
                Inr _ \<Rightarrow> Done (Inl ErrAlreadyExists)
              | Inl err \<Rightarrow>
                  if \<not> errors_Is err ErrNotFound then Done (Inl err)
                  else Act (CreateLV (ci_VG inp) (ci_Name inp) (ci_SizeBytes inp)) (\<lambda>e. case e of
                    Some err \<Rightarrow> Done (Inl (Wrapf ''create lv: %w'' [] err))
                  | None \<Rightarrow>
                      if ci_Mode inp = ProvisionThin then
                        bind (makeQcow2Header sv (ci_Name inp) (ci_VirtualSizeBytes inp)) (\<lambda>t. case t of
                          Inl err \<Rightarrow> ignoring (RemoveLV (ci_VG inp) (ci_Name inp)) (Done (Inl err))
                        | Inr tmp \<Rightarrow> deferred (ignoring (RemoveFile tmp)) (
                            Act (DDOver tmp (DevicePath (ci_VG inp) (ci_Name inp))) (\<lambda>e. case e of
                              Some err \<Rightarrow>
                                ignoring (RemoveLV (ci_VG inp) (ci_Name inp))
                                  (Done (Inl (Wrapf ''dd into lv: %w'' [] err)))
                            | None \<Rightarrow> persistDisk sv inp)))
                      else persistDisk sv inp)))))"

section \<open>Detaching and deleting\<close>

definition detachLocked :: "AttachmentRecord \<Rightarrow> error option proc" where
  "detachLocked att =
     Act (DetachDisk (aVMName att) (aTargetDev att)) (\<lambda>e. case e of
       Some err \<Rightarrow> Done (Some (Wrapf ''libvirt detach: %w'' [] err))
     | None \<Rightarrow> Act (DeleteAttachment (aDiskName att) (aVMName att)) Done)"

fun detachAll :: "AttachmentRecord list \<Rightarrow> error option proc" where
  "detachAll [] = Done None"
| "detachAll (a # as) =
     bind (detachLocked a) (\<lambda>e. case e of Some err \<Rightarrow> Done (Some err) | None \<Rightarrow> detachAll as)"

definition Service_DeleteDisk :: "string \<Rightarrow> bool \<Rightarrow> error option proc" where
  "Service_DeleteDisk name force =
     GetDisk name (\<lambda>g. case g of
       Inl err \<Rightarrow> Done (Some err)
     | Inr rec \<Rightarrow>
         Acquire (dVG rec) (\<lambda>l. case l of
           Inl err \<Rightarrow> Done (Some err)
         | Inr release \<Rightarrow> deferred (Release release) (
             ListAttachments name [] (\<lambda>r. case r of
               Inl err \<Rightarrow> Done (Some err)
             | Inr atts \<Rightarrow>
                 if 0 < length atts \<and> \<not> force
                 then Done (Some (Errorf ''disk %q has %d attachments; use force to remove'' [name, dec (length atts)]))
                 else bind (detachAll atts) (\<lambda>e. case e of
                   Some err \<Rightarrow> Done (Some err)
                 | None \<Rightarrow>
                     Act (RemoveLV (dVG rec) (dName rec)) (\<lambda>e. case e of
                       Some err \<Rightarrow> Done (Some (Wrapf ''remove lv: %w'' [] err))
                     | None \<Rightarrow> Act (DeleteDisk name) Done))))))"

definition Service_DetachDisk :: "string \<Rightarrow> string \<Rightarrow> error option proc" where
  "Service_DetachDisk disk vm =
     GetDisk disk (\<lambda>g. case g of
       Inl err \<Rightarrow> Done (Some err)
     | Inr rec \<Rightarrow>
         GetAttachment disk vm (\<lambda>r. case r of
           Inl err \<Rightarrow> Done (Some err)
         | Inr att \<Rightarrow> detachLocked att))"

section \<open>Reading\<close>

definition Service_GetDisk :: "string \<Rightarrow> DiskRecord result proc" where
  "Service_GetDisk name = GetDisk name Done"

definition Service_ListDisks :: "string \<Rightarrow> DiskRecord list result proc" where
  "Service_ListDisks vg = ListDisks vg Done"

definition Service_ListAttachments :: "string \<Rightarrow> string \<Rightarrow> AttachmentRecord list result proc" where
  "Service_ListAttachments disk vm = ListAttachments disk vm Done"

section \<open>Attaching\<close>

text \<open>The loop from \<open>'b'\<close> to \<open>'z'\<close>; \<open>used\<close> is the key set of a Go map.\<close>

definition target_letters :: "char list" where
  "target_letters = map char_of [98..<123 :: nat]"

definition pickTargetDev :: "string list \<Rightarrow> string" where
  "pickTargetDev used =
     (case find (\<lambda>c. ''vd'' @ [c] \<notin> set used) target_letters of
        Some c \<Rightarrow> ''vd'' @ [c]
      | None \<Rightarrow> ''vdaa'')"

definition attach_spec :: "DiskRecord \<Rightarrow> string \<Rightarrow> DiskAttachSpec" where
  "attach_spec rec dev = \<lparr>sp_SourceDevice = dDevicePath rec, sp_TargetDev = dev,
     sp_Format = (if dMode rec = ProvisionThin then ''qcow2'' else ''raw''), sp_Bus = [],
     sp_Persistent = True, sp_Live = True\<rparr>"

definition plugDisk :: "('l, 'v, 's, 'k, 'q) Service \<Rightarrow> DiskRecord \<Rightarrow> string \<Rightarrow> string
    \<Rightarrow> AttachmentRecord result proc" where
  "plugDisk sv rec vm dev =
     Act (AttachDisk vm (attach_spec rec dev)) (\<lambda>e. case e of
       Some err \<Rightarrow> Done (Inl (Wrapf ''libvirt attach: %w'' [] err))
     | None \<Rightarrow>
         Now (\<lambda>now.
           let att = \<lparr>aDiskName = dName rec, aVMName = vm, aHost = sv_NodeID sv, aTargetDev = dev,
                      aAttachedAt = now\<rparr> in
           Act (CreateAttachment att) (\<lambda>e. case e of
             Some err \<Rightarrow> ignoring (DetachDisk vm dev) (Done (Inl err))
           | None \<Rightarrow> Done (Inr att))))"

definition Service_AttachDisk :: "('l, 'v, 's, 'k, 'q) Service \<Rightarrow> AttachInput \<Rightarrow> AttachmentRecord result proc" where
  "Service_AttachDisk sv inp =
     (if ai_DiskName inp = [] \<or> ai_VMName inp = []
      then Done (Inl (Errorf ''disk: disk_name and vm_name required'' []))
      else GetDisk (ai_DiskName inp) (\<lambda>g. case g of
        Inl err \<Rightarrow> Done (Inl err)
      | Inr rec \<Rightarrow>
          DomainExists (ai_VMName inp) (\<lambda>x. case x of
            Inl err \<Rightarrow> Done (Inl err)
          | Inr False \<Rightarrow> Done (Inl (Errorf ''disk: libvirt domain %q not found'' [ai_VMName inp]))
          | Inr True \<Rightarrow>
              if ai_TargetDev inp = [] then
                ListAttachments [] (ai_VMName inp) (\<lambda>r. case r of
                  Inl err \<Rightarrow> Done (Inl err)
                | Inr atts \<Rightarrow>
                    plugDisk sv rec (ai_VMName inp) (pickTargetDev (''vda'' # map aTargetDev atts)))
              else plugDisk sv rec (ai_VMName inp) (ai_TargetDev inp))))"

section \<open>Extending\<close>

text \<open>Telling every domain that has the disk about the new size; errors are ignored.\<close>

fun resizeAll :: "AttachmentRecord list \<Rightarrow> u64 \<Rightarrow> 'a proc \<Rightarrow> 'a proc" where
  "resizeAll [] sz p = p"
| "resizeAll (a # as) sz p = ignoring (BlockResize (aVMName a) (aTargetDev a) sz) (resizeAll as sz p)"

definition recordExtended :: "DiskRecord \<Rightarrow> u64 \<Rightarrow> DiskRecord result proc" where
  "recordExtended rec newSize =
     Now (\<lambda>now.
       let rec = rec\<lparr>dSizeBytes := newSize, dLastExtendedAt := now\<rparr> in
       Act (UpdateDisk rec) (\<lambda>e. case e of
         Some err \<Rightarrow> Done (Inl err)
       | None \<Rightarrow>
           ListAttachments (dName rec) [] (\<lambda>r. case r of
             Inl _ \<Rightarrow> Done (Inr rec)
           | Inr atts \<Rightarrow> resizeAll atts newSize (Done (Inr rec)))))"

definition Service_ExtendDisk :: "ExtendInput \<Rightarrow> DiskRecord result proc" where
  "Service_ExtendDisk inp =
     (if (ei_SizeBytes inp = 0) = (ei_DeltaBytes inp = 0)
      then Done (Inl (Errorf ''disk: exactly one of size_bytes or delta_bytes must be set'' []))
      else GetDisk (ei_Name inp) (\<lambda>g. case g of
        Inl err \<Rightarrow> Done (Inl err)
      | Inr rec \<Rightarrow>
          Acquire (dVG rec) (\<lambda>l. case l of
            Inl err \<Rightarrow> Done (Inl err)
          | Inr release \<Rightarrow> deferred (Release release) (
              if ei_SizeBytes inp \<noteq> 0 then
                Act (ExtendLVAbsolute (dVG rec) (dName rec) (ei_SizeBytes inp)) (\<lambda>e. case e of
                  Some err \<Rightarrow> Done (Inl err)
                | None \<Rightarrow> recordExtended rec (ei_SizeBytes inp))
              else
                Act (ExtendLVDelta (dVG rec) (dName rec) (ei_DeltaBytes inp)) (\<lambda>e. case e of
                  Some err \<Rightarrow> Done (Inl err)
                | None \<Rightarrow> recordExtended rec (dSizeBytes rec + ei_DeltaBytes inp))))))"

definition percentDelta :: "u64 \<Rightarrow> int \<Rightarrow> u64" where
  "percentDelta sz percent = sz * of_int percent div 100"

definition Service_ExtendByPercent :: "string \<Rightarrow> int \<Rightarrow> DiskRecord result proc" where
  "Service_ExtendByPercent name percent =
     (if percent \<le> 0 then Done (Inl (Errorf ''disk: percent must be > 0'' []))
      else GetDisk name (\<lambda>g. case g of
        Inl err \<Rightarrow> Done (Inl err)
      | Inr rec \<Rightarrow>
          Acquire (dVG rec) (\<lambda>l. case l of
            Inl err \<Rightarrow> Done (Inl err)
          | Inr release \<Rightarrow> deferred (Release release) (
              Act (ExtendLVPercent (dVG rec) (dName rec) percent) (\<lambda>e. case e of
                Some err \<Rightarrow> Done (Inl err)
              | None \<Rightarrow> recordExtended rec (dSizeBytes rec + percentDelta (dSizeBytes rec) percent))))))"

end
