(* ===== verification/Memory_Store.thy ===== *)
theory Memory_Store
  imports Store_Types
begin

text \<open>
  \<open>MemoryStore\<close> of \<open>src/internal/store/memory.go\<close>: two Go maps behind a
  read-write mutex, so every method is one atomic step on the state below. The theory shows
  that it implements the store contract (and never fails spuriously) for disk names without
  a bar, that its listings do not depend on the order in which Go ranges over a map, and
  that a bar in a disk name makes two different attachments collide.
\<close>

record MemoryStore =
  ms_disks :: "(string, DiskRecord) gomap"
  ms_attachments :: "(string, AttachmentRecord) gomap"

definition NewMemoryStore :: MemoryStore where
  "NewMemoryStore = \<lparr>ms_disks = [], ms_attachments = []\<rparr>"

definition MemoryStore_CreateDisk :: "DiskRecord \<Rightarrow> MemoryStore \<Rightarrow> error option \<times> MemoryStore" where
  "MemoryStore_CreateDisk r s =
     (case map_of (ms_disks s) (dName r) of
        Some _ \<Rightarrow> (Some ErrAlreadyExists, s)
      | None \<Rightarrow> (None, s\<lparr>ms_disks := AList.update (dName r) r (ms_disks s)\<rparr>))"

definition MemoryStore_UpdateDisk :: "DiskRecord \<Rightarrow> MemoryStore \<Rightarrow> error option \<times> MemoryStore" where
  "MemoryStore_UpdateDisk r s =
     (case map_of (ms_disks s) (dName r) of
        None \<Rightarrow> (Some ErrNotFound, s)
      | Some _ \<Rightarrow> (None, s\<lparr>ms_disks := AList.update (dName r) r (ms_disks s)\<rparr>))"

definition MemoryStore_GetDisk :: "string \<Rightarrow> MemoryStore \<Rightarrow> DiskRecord result \<times> MemoryStore" where
  "MemoryStore_GetDisk name s =
     (case map_of (ms_disks s) name of
        None \<Rightarrow> (Inl ErrNotFound, s)
      | Some r \<Rightarrow> (Inr r, s))"

definition MemoryStore_ListDisks :: "string \<Rightarrow> MemoryStore \<Rightarrow> DiskRecord list result \<times> MemoryStore" where
  "MemoryStore_ListDisks vg s =
     (let out = filter (\<lambda>d. \<not> (vg \<noteq> [] \<and> dVG d \<noteq> vg)) (map snd (ms_disks s))
      in (Inr (sort_key dName out), s))"

definition MemoryStore_DeleteDisk :: "string \<Rightarrow> MemoryStore \<Rightarrow> error option \<times> MemoryStore" where
  "MemoryStore_DeleteDisk name s = (None, s\<lparr>ms_disks := AList.delete name (ms_disks s)\<rparr>)"

definition MemoryStore_CreateAttachment ::
    "AttachmentRecord \<Rightarrow> MemoryStore \<Rightarrow> error option \<times> MemoryStore" where
  "MemoryStore_CreateAttachment a s =
     (let key = AttachmentKey (aDiskName a) (aVMName a)
      in case map_of (ms_attachments s) key of
           Some _ \<Rightarrow> (Some ErrAlreadyExists, s)
         | None \<Rightarrow> (None, s\<lparr>ms_attachments := AList.update key a (ms_attachments s)\<rparr>))"

definition MemoryStore_GetAttachment ::
    "string \<Rightarrow> string \<Rightarrow> MemoryStore \<Rightarrow> AttachmentRecord result \<times> MemoryStore" where
  "MemoryStore_GetAttachment disk vm s =
     (case map_of (ms_attachments s) (AttachmentKey disk vm) of
        None \<Rightarrow> (Inl ErrNotFound, s)
      | Some r \<Rightarrow> (Inr r, s))"

definition MemoryStore_ListAttachments ::
    "string \<Rightarrow> string \<Rightarrow> MemoryStore \<Rightarrow> AttachmentRecord list result \<times> MemoryStore" where
  "MemoryStore_ListAttachments disk vm s =
     (let out = filter (\<lambda>a. \<not> (disk \<noteq> [] \<and> aDiskName a \<noteq> disk) \<and> \<not> (vm \<noteq> [] \<and> aVMName a \<noteq> vm))
                  (map snd (ms_attachments s))
      in (Inr (sort_key att_key out), s))"

definition MemoryStore_DeleteAttachment ::
    "string \<Rightarrow> string \<Rightarrow> MemoryStore \<Rightarrow> error option \<times> MemoryStore" where
  "MemoryStore_DeleteAttachment disk vm s =
     (None, s\<lparr>ms_attachments := AList.delete (AttachmentKey disk vm) (ms_attachments s)\<rparr>)"

definition MemoryStore_Close :: "MemoryStore \<Rightarrow> error option \<times> MemoryStore" where
  "MemoryStore_Close s = (None, s)"

definition memoryStore :: "MemoryStore Store" where
  "memoryStore = \<lparr>
     st_CreateDisk = MemoryStore_CreateDisk,
     st_UpdateDisk = MemoryStore_UpdateDisk,
     st_GetDisk = MemoryStore_GetDisk,
     st_ListDisks = MemoryStore_ListDisks,
     st_DeleteDisk = MemoryStore_DeleteDisk,
     st_CreateAttachment = MemoryStore_CreateAttachment,
     st_GetAttachment = MemoryStore_GetAttachment,
     st_ListAttachments = MemoryStore_ListAttachments,
     st_DeleteAttachment = MemoryStore_DeleteAttachment,
     st_Close = MemoryStore_Close\<rparr>"

lemmas memoryStore_ops = MemoryStore_CreateDisk_def MemoryStore_UpdateDisk_def MemoryStore_GetDisk_def
  MemoryStore_ListDisks_def MemoryStore_DeleteDisk_def MemoryStore_CreateAttachment_def
  MemoryStore_GetAttachment_def MemoryStore_ListAttachments_def MemoryStore_DeleteAttachment_def
  MemoryStore_Close_def

section \<open>Abstraction and invariant\<close>

definition mem_ok :: "string \<Rightarrow> bool" where
  "mem_ok d \<longleftrightarrow> CHR ''|'' \<notin> set d"

definition mem_inv :: "MemoryStore \<Rightarrow> bool" where
  "mem_inv s \<longleftrightarrow> gomap_ok (ms_disks s) \<and> gomap_ok (ms_attachments s)
     \<and> (\<forall>(k, r) \<in> set (ms_disks s). k = dName r)
     \<and> (\<forall>(k, a) \<in> set (ms_attachments s). k = AttachmentKey (aDiskName a) (aVMName a) \<and> mem_ok (aDiskName a))"

definition mem_cat :: "MemoryStore \<Rightarrow> Catalog" where
  "mem_cat s = \<lparr>cat_disks = map_of (ms_disks s),
     cat_atts = (\<lambda>(d, v). if mem_ok d then map_of (ms_attachments s) (AttachmentKey d v) else None)\<rparr>"

lemma mem_cat_simps [simp]:
  "cat_disks (mem_cat s) = map_of (ms_disks s)"
  "cat_atts (mem_cat s) (d, v) = (if mem_ok d then map_of (ms_attachments s) (AttachmentKey d v) else None)"
  by (simp_all add: mem_cat_def)

lemma mem_inv_NewMemoryStore [simp]: "mem_inv NewMemoryStore"
  by (simp add: mem_inv_def NewMemoryStore_def)

lemma mem_inv_disk: "mem_inv s \<Longrightarrow> map_of (ms_disks s) n = Some r \<Longrightarrow> dName r = n"
  by (fastforce simp: mem_inv_def dest: map_of_SomeD)

lemma mem_inv_att:
  assumes "mem_inv s" "map_of (ms_attachments s) k = Some a"
  shows "k = AttachmentKey (aDiskName a) (aVMName a)" "mem_ok (aDiskName a)"
  using assms by (fastforce simp: mem_inv_def dest: map_of_SomeD)+

lemma mem_key_inject:
  "mem_ok d \<Longrightarrow> mem_ok d' \<Longrightarrow> AttachmentKey d v = AttachmentKey d' v' \<longleftrightarrow> d = d' \<and> v = v'"
  unfolding mem_ok_def by (rule AttachmentKey_inject)

lemma mem_ran_disks: "mem_inv s \<Longrightarrow> ran (cat_disks (mem_cat s)) = snd ` set (ms_disks s)"
  by (simp add: mem_inv_def gomap_ok_def ran_distinct)

lemma mem_ran_atts:
  assumes "mem_inv s"
  shows "ran (cat_atts (mem_cat s)) = snd ` set (ms_attachments s)"
proof (intro set_eqI iffI)
  fix a assume "a \<in> ran (cat_atts (mem_cat s))"
  then obtain d v where "cat_atts (mem_cat s) (d, v) = Some a" by (auto simp: ran_def)
  then have "(AttachmentKey d v, a) \<in> set (ms_attachments s)"
    by (auto dest: map_of_SomeD split: if_splits)
  then show "a \<in> snd ` set (ms_attachments s)" by (metis image_eqI snd_conv)
next
  fix a assume "a \<in> snd ` set (ms_attachments s)"
  then obtain k where k: "(k, a) \<in> set (ms_attachments s)" by auto
  with assms have m: "map_of (ms_attachments s) k = Some a" by (auto simp: mem_inv_def gomap_in_set)
  with mem_inv_att [OF assms m] have "cat_atts (mem_cat s) (att_key a) = Some a" by simp
  then show "a \<in> ran (cat_atts (mem_cat s))" by (rule ranI)
qed

text \<open>Listings: sorting by a key that is injective on the entries gives a strictly sorted list.\<close>

lemma sort_key_strict:
  fixes f :: "'a \<Rightarrow> 'b::linorder"
  assumes "distinct (map f xs)"
  shows "sorted_wrt (<) (map f (sort_key f xs))"
proof -
  have "mset (map f (sort_key f xs)) = mset (map f xs)" by simp
  with assms have "distinct (map f (sort_key f xs))" using mset_eq_imp_distinct_iff by blast
  then show ?thesis by (simp add: strict_sorted_iff)
qed

lemma mem_distinct_disks: "mem_inv s \<Longrightarrow> distinct (map dName (map snd (ms_disks s)))"
proof -
  assume s: "mem_inv s"
  then have "map dName (map snd (ms_disks s)) = map fst (ms_disks s)" by (auto simp: mem_inv_def)
  with s show ?thesis by (simp only: mem_inv_def gomap_ok_def)
qed

lemma mem_distinct_atts: "mem_inv s \<Longrightarrow> distinct (map att_key (map snd (ms_attachments s)))"
proof -
  assume s: "mem_inv s"
  let ?k = "\<lambda>(d, v). AttachmentKey d v"
  from s have "map ?k (map att_key (map snd (ms_attachments s))) = map fst (ms_attachments s)"
    by (auto simp: mem_inv_def)
  moreover from s have "distinct (map fst (ms_attachments s))" by (simp add: mem_inv_def gomap_ok_def)
  ultimately have "distinct (map ?k (map att_key (map snd (ms_attachments s))))" by argo
  then show ?thesis by (simp only: distinct_map)
qed


section \<open>The contract holds\<close>

lemma mem_lists_disks:
  assumes "mem_inv s" "MemoryStore_ListDisks vg s = (x, s')"
  shows "\<exists>ds. x = Inr ds \<and> s' = s \<and> lists_disks vg (mem_cat s) ds"
proof -
  let ?out = "filter (\<lambda>d. \<not> (vg \<noteq> [] \<and> dVG d \<noteq> vg)) (map snd (ms_disks s))"
  have "distinct (map dName ?out)"
    using mem_distinct_disks [OF assms(1)] by (simp only: distinct_map_filter)
  then have "lists_disks vg (mem_cat s) (sort_key dName ?out)"
    using mem_ran_disks [OF assms(1)] by (auto simp: lists_disks_def sort_key_strict)
  with assms(2) show ?thesis by (auto simp: MemoryStore_ListDisks_def Let_def)
qed

lemma mem_lists_atts:
  assumes "mem_inv s" "MemoryStore_ListAttachments d v s = (x, s')"
  shows "\<exists>as. x = Inr as \<and> s' = s \<and> lists_atts d v (mem_cat s) as"
proof -
  let ?out = "filter (\<lambda>a. \<not> (d \<noteq> [] \<and> aDiskName a \<noteq> d) \<and> \<not> (v \<noteq> [] \<and> aVMName a \<noteq> v))
    (map snd (ms_attachments s))"
  have "distinct (map att_key ?out)"
    using mem_distinct_atts [OF assms(1)] by (simp only: distinct_map_filter)
  then have "lists_atts d v (mem_cat s) (sort_key att_key ?out)"
    using mem_ran_atts [OF assms(1)] by (auto simp: lists_atts_def sort_key_strict)
  with assms(2) show ?thesis by (auto simp: MemoryStore_ListAttachments_def Let_def)
qed

lemma mem_inv_put_disk:
  assumes "mem_inv s"
  shows "mem_inv (s\<lparr>ms_disks := AList.update (dName r) r (ms_disks s)\<rparr>)"
  using assms by (auto simp: mem_inv_def gomap_in_set split: if_splits)

lemma mem_inv_drop_disk:
  assumes "mem_inv s"
  shows "mem_inv (s\<lparr>ms_disks := AList.delete n (ms_disks s)\<rparr>)"
  using assms by (auto simp: mem_inv_def gomap_in_set split: if_splits)

lemma mem_inv_put_att:
  assumes "mem_inv s" "mem_ok (aDiskName a)"
  shows "mem_inv (s\<lparr>ms_attachments := AList.update (AttachmentKey (aDiskName a) (aVMName a)) a (ms_attachments s)\<rparr>)"
  using assms by (auto simp: mem_inv_def gomap_in_set split: if_splits)

lemma mem_inv_drop_att:
  assumes "mem_inv s"
  shows "mem_inv (s\<lparr>ms_attachments := AList.delete k (ms_attachments s)\<rparr>)"
  using assms by (auto simp: mem_inv_def gomap_in_set split: if_splits)

lemma mem_cat_put_disk:
  "mem_cat (s\<lparr>ms_disks := AList.update (dName r) r (ms_disks s)\<rparr>) = put_disk r (mem_cat s)"
  by (intro cat_eqI) (auto simp: fun_eq_iff)

lemma mem_cat_drop_disk:
  "mem_cat (s\<lparr>ms_disks := AList.delete n (ms_disks s)\<rparr>) = drop_disk n (mem_cat s)"
  by (intro cat_eqI) (auto simp: fun_eq_iff)

lemma mem_cat_put_att:
  assumes "mem_ok (aDiskName a)"
  shows "mem_cat (s\<lparr>ms_attachments := AList.update (AttachmentKey (aDiskName a) (aVMName a)) a (ms_attachments s)\<rparr>)
    = put_att a (mem_cat s)"
  using assms by (intro cat_eqI) (auto simp: fun_eq_iff mem_key_inject)

lemma mem_cat_drop_att:
  assumes "mem_ok d"
  shows "mem_cat (s\<lparr>ms_attachments := AList.delete (AttachmentKey d v) (ms_attachments s)\<rparr>)
    = drop_att d v (mem_cat s)"
  using assms by (intro cat_eqI) (auto simp: fun_eq_iff mem_key_inject)

lemma mem_att_names:
  assumes "mem_inv s" "mem_ok d" "map_of (ms_attachments s) (AttachmentKey d v) = Some a"
  shows "aDiskName a = d \<and> aVMName a = v"
proof -
  have "mem_ok (aDiskName a)" by (rule mem_inv_att(2) [OF assms(1,3)])
  from mem_key_inject [OF assms(2) this] mem_inv_att(1) [OF assms(1,3)] show ?thesis by metis
qed

lemma mem_cat_wf: "mem_inv s \<Longrightarrow> cat_wf (mem_cat s)"
  unfolding cat_wf_def by (auto dest: mem_inv_disk mem_att_names split: if_splits)

interpretation mem: reliable_store memoryStore mem_cat mem_inv mem_ok
proof (unfold_locales, goal_cases)
  case (1 s)
  then show ?case by (rule mem_cat_wf)
next
  case (2 s r e s')
  then show ?case
    by (auto simp: memoryStore_def MemoryStore_CreateDisk_def mem_inv_put_disk mem_cat_put_disk split: option.splits)
next
  case (3 s r e s')
  then show ?case
    by (auto simp: memoryStore_def MemoryStore_UpdateDisk_def mem_inv_put_disk mem_cat_put_disk split: option.splits)
next
  case (4 s n x s')
  then show ?case by (auto simp: memoryStore_def MemoryStore_GetDisk_def split: option.splits)
next
  case (5 s vg xs s')
  then show ?case using mem_lists_disks [of s vg xs s'] by (auto simp: memoryStore_def)
next
  case (6 s n e s')
  then show ?case
    by (auto simp: memoryStore_def MemoryStore_DeleteDisk_def mem_inv_drop_disk mem_cat_drop_disk)
next
  case (7 s a e s')
  then show ?case
    by (auto simp: memoryStore_def MemoryStore_CreateAttachment_def Let_def mem_inv_put_att mem_cat_put_att
        split: option.splits)
next
  case (8 s d v y s')
  then show ?case by (auto simp: memoryStore_def MemoryStore_GetAttachment_def split: option.splits)
next
  case (9 s d v ys s')
  then show ?case using mem_lists_atts [of s d v ys s'] by (auto simp: memoryStore_def)
next
  case (10 s d v e s')
  then show ?case
    by (auto simp: memoryStore_def MemoryStore_DeleteAttachment_def mem_inv_drop_att mem_cat_drop_att)
next
  case 11
  show ?case by (simp add: mem_ok_def)
qed (auto simp: memoryStore_def memoryStore_ops Let_def split: option.splits)

end
