(* ===== verification/Disk_Correctness.thy ===== *)
theory Disk_Correctness
  imports Catalog_Semantics Disk_Service Memory_Store
begin

text \<open>
  What the handlers of \<open>src/internal/disk/disk.go\<close> do to the catalog of disks and
  attachments, for every backend that meets the contract of \<open>store.Store\<close>: the effect of
  each handler on success and on failure, and the invariant of the catalog that all of them
  keep.
\<close>

section \<open>The invariant of the catalog\<close>

definition disk_ok :: "DiskRecord \<Rightarrow> bool" where
  "disk_ok r \<longleftrightarrow> dName r \<noteq> [] \<and> \<not> ContainsAny (dName r) bad_name_chars \<and> dVG r \<noteq> []
     \<and> (dMode r = ProvisionThick \<or> dMode r = ProvisionThin) \<and> dVirtualSizeBytes r \<noteq> 0
     \<and> dDevicePath r = DevicePath (dVG r) (dName r)"

definition catalog_ok :: "(string \<Rightarrow> bool) \<Rightarrow> Catalog \<Rightarrow> bool" where
  "catalog_ok ok c \<longleftrightarrow>
     (\<forall>n r. cat_disks c n = Some r \<longrightarrow> dName r = n \<and> disk_ok r \<and> ok n)
   \<and> (\<forall>d v a. cat_atts c (d, v) = Some a \<longrightarrow> att_key a = (d, v) \<and> v \<noteq> [] \<and> cat_disks c d \<noteq> None)"

lemma normaliseCreate_Inr:
  assumes "normaliseCreate sv inp = Inr inp'"
  shows "ci_Name inp' = ci_Name inp" "ci_Name inp \<noteq> []" "\<not> ContainsAny (ci_Name inp) bad_name_chars"
    "ci_VG inp' \<noteq> []" "ci_VG inp' = (if ci_VG inp = [] then sv_DefaultVG sv else ci_VG inp)"
    "ci_Mode inp' = ProvisionThick \<or> ci_Mode inp' = ProvisionThin"
    "ci_Mode inp' = (if ci_Mode inp = ProvisionUnspecified then ProvisionThick else ci_Mode inp)"
    "ci_SizeBytes inp' \<noteq> 0" "ci_VirtualSizeBytes inp' \<noteq> 0"
    "ci_Mode inp' = ProvisionThin \<Longrightarrow> ci_SizeBytes inp' < ci_VirtualSizeBytes inp'"
  using assms by (auto simp: normaliseCreate_def Let_def not_le split: if_splits)

lemma newDiskRecord_ok: "normaliseCreate sv inp = Inr inp' \<Longrightarrow> disk_ok (newDiskRecord sv inp' t)"
  using normaliseCreate_Inr [of sv inp inp'] by (auto simp: disk_ok_def newDiskRecord_def)

lemma catalog_ok_put_disk:
  "catalog_ok ok c \<Longrightarrow> disk_ok r \<Longrightarrow> ok (dName r) \<Longrightarrow> catalog_ok ok (put_disk r c)"
  by (auto simp: catalog_ok_def)

lemma catalog_ok_put_att:
  "catalog_ok ok c \<Longrightarrow> cat_disks c (aDiskName a) \<noteq> None \<Longrightarrow> aVMName a \<noteq> [] \<Longrightarrow> catalog_ok ok (put_att a c)"
  by (auto simp: catalog_ok_def)

lemma catalog_ok_drop_att: "catalog_ok ok c \<Longrightarrow> catalog_ok ok (drop_att d v c)"
  by (auto simp: catalog_ok_def)

lemma catalog_ok_drop_disk:
  "catalog_ok ok c \<Longrightarrow> \<forall>v. cat_atts c (n, v) = None \<Longrightarrow> catalog_ok ok (drop_disk n c)"
  by (auto simp: catalog_ok_def)

lemma catalog_okD:
  assumes "catalog_ok ok c" "cat_disks c n = Some r"
  shows "dName r = n" "disk_ok r" "ok n" "ok (dName r)" "disk_ok (r\<lparr>dSizeBytes := sz, dLastExtendedAt := t\<rparr>)"
  using assms by (auto simp: catalog_ok_def disk_ok_def)

lemma catalog_ok_attD:
  "catalog_ok ok c \<Longrightarrow> cat_atts c (d, v) = Some a \<Longrightarrow> aDiskName a = d \<and> aVMName a = v \<and> v \<noteq> [] \<and> ok d"
  by (fastforce simp: catalog_ok_def)

section \<open>Undoing attachments\<close>

text \<open>The catalog without the attachments of a list.\<close>

definition drop_atts :: "AttachmentRecord list \<Rightarrow> Catalog \<Rightarrow> Catalog" where
  "drop_atts as c = c\<lparr>cat_atts := (\<lambda>k. if k \<in> att_key ` set as then None else cat_atts c k)\<rparr>"

lemma drop_atts_simps [simp]:
  "cat_disks (drop_atts as c) = cat_disks c"
  "cat_atts (drop_atts as c) k = (if k \<in> att_key ` set as then None else cat_atts c k)"
  "drop_atts [] c = c"
  "drop_atts as (drop_att (aDiskName a) (aVMName a) c) = drop_atts (a # as) c"
  by (auto simp: drop_atts_def drop_att_def fun_eq_iff)

lemma drop_atts_single: "drop_atts [a] c = drop_att (aDiskName a) (aVMName a) c"
  by (auto simp: drop_atts_def drop_att_def fun_eq_iff)

lemma catalog_ok_drop_atts: "catalog_ok ok c \<Longrightarrow> catalog_ok ok (drop_atts as c)"
  by (auto simp: catalog_ok_def)

text \<open>After an error, the attachments of some prefix of the list are gone.\<close>

lemma detachAll_catalog:
  assumes "\<forall>a\<in>set as. ok (aDiskName a)"
  shows "catsafe rel ok unwatched (detachAll as) c g
     (\<lambda>e c' _. \<exists>n. c' = drop_atts (take n as) c \<and> (e = None \<longrightarrow> n = length as))"
  using assms
proof (induction as arbitrary: c)
  case Nil
  show ?case by simp
next
  case (Cons a as)
  have gone: "\<exists>n. c' = drop_atts (take n (a # as)) c \<and> (e = None \<longrightarrow> n = length (a # as))"
    if "\<exists>n. c' = drop_atts (take n as) (drop_att (aDiskName a) (aVMName a) c) \<and> (e = None \<longrightarrow> n = length as)"
    for e :: "error option" and c'
  proof -
    from that obtain n where "c' = drop_atts (a # take n as) c" "e = None \<longrightarrow> n = length as" by auto
    then show ?thesis by (intro exI [of _ "Suc n"]) simp
  qed
  have more: "catsafe rel ok unwatched (detachAll as) (drop_att (aDiskName a) (aVMName a) c) g
     (\<lambda>e c' _. \<exists>n. c' = drop_atts (take n (a # as)) c \<and> (e = None \<longrightarrow> n = length (a # as)))"
    using Cons by (intro catsafe_mono [OF Cons.IH] gone) auto
  have "\<exists>n. c = drop_atts (take n (a # as)) c \<and> (Some e = None \<longrightarrow> n = length (a # as))" for e :: error
    by (rule exI [of _ 0]) simp
  moreover have "\<exists>n. drop_att (aDiskName a) (aVMName a) c = drop_atts (take n (a # as)) c \<and>
      (Some e = None \<longrightarrow> n = length (a # as))" for e :: error
    by (intro exI [of _ 1]) (simp add: drop_atts_single)
  ultimately show ?case
    using more Cons.prems by (auto simp: catsafe_simps detachLocked_def reply_cases)
qed

section \<open>Effects on the catalog\<close>

text \<open>
  \<open>write_may\<close>: after an error, the catalog is unchanged, or the store reported an error on a
  write that happened, which a backend that fails only with the sentinels never does.
\<close>

definition write_may :: "bool \<Rightarrow> Catalog \<Rightarrow> Catalog \<Rightarrow> bool \<Rightarrow> bool" where
  "write_may rel c c' P \<longleftrightarrow> c' = c \<or> (\<not> rel \<and> P)"

fun create_effect :: "bool \<Rightarrow> ('l, 'v, 's, 'k, 'q) Service \<Rightarrow> CreateInput \<Rightarrow> Catalog
    \<Rightarrow> DiskRecord result \<Rightarrow> Catalog \<Rightarrow> bool" where
  "create_effect rel sv inp c (Inr r) c' \<longleftrightarrow>
     cat_disks c (dName r) = None \<and> c' = put_disk r c \<and>
     (\<exists>inp' t. normaliseCreate sv inp = Inr inp' \<and> r = newDiskRecord sv inp' t)"
| "create_effect rel sv inp c (Inl e) c' \<longleftrightarrow>
     write_may rel c c' (\<exists>inp' t. normaliseCreate sv inp = Inr inp' \<and> cat_disks c (ci_Name inp) = None \<and>
       c' = put_disk (newDiskRecord sv inp' t) c)"

lemma persistDisk_catalog:
  assumes "normaliseCreate sv inp = Inr inp'" "cat_disks c (ci_Name inp') = None"
  shows "catsafe rel ok unwatched (persistDisk sv inp') c g (\<lambda>x c' _. create_effect rel sv inp c x c')"
  using assms normaliseCreate_Inr(1) [OF assms(1)]
  by (auto simp: persistDisk_def catsafe_simps reply_cases Let_def newDiskRecord_def write_may_def)

lemma CreateDisk_catalog:
  "catsafe rel ok unwatched (Service_CreateDisk sv inp) c g (\<lambda>x c' _. create_effect rel sv inp c x c')"
proof (cases "normaliseCreate sv inp")
  case (Inl e)
  then show ?thesis by (simp add: Service_CreateDisk_def write_may_def)
next
  case (Inr inp')
  then show ?thesis
    by (auto simp: Service_CreateDisk_def makeQcow2Header_def catsafe_simps reply_cases Let_def write_may_def
        intro: persistDisk_catalog)
qed

text \<open>Deleting: the disk goes together with all its attachments.\<close>

definition forget_disk :: "string \<Rightarrow> Catalog \<Rightarrow> Catalog" where
  "forget_disk n c = \<lparr>cat_disks = (cat_disks c)(n := None),
     cat_atts = (\<lambda>(d, v). if d = n then None else cat_atts c (d, v))\<rparr>"

definition has_atts :: "string \<Rightarrow> Catalog \<Rightarrow> bool" where
  "has_atts n c \<longleftrightarrow> (\<exists>v. cat_atts c (n, v) \<noteq> None)"

lemma lists_atts_of_disk:
  assumes "catalog_ok ok c" "n \<noteq> []" "lists_atts n [] c as"
  shows "att_key ` set as = {(d, v). d = n \<and> cat_atts c (d, v) \<noteq> None}"
    and "\<forall>a\<in>set as. aDiskName a = n" and "as \<noteq> [] \<longleftrightarrow> has_atts n c"
    and "drop_disk n (drop_atts as c) = forget_disk n c"
proof -
  from assms(2,3) have as: "set as = {a \<in> ran (cat_atts c). aDiskName a = n}" by (simp add: lists_atts_def)
  have key: "att_key a = k" if "cat_atts c k = Some a" for k a
    using that assms(1) by (cases k) (simp add: catalog_ok_def)
  show keys: "att_key ` set as = {(d, v). d = n \<and> cat_atts c (d, v) \<noteq> None}" (is "_ = ?K")
  proof
    show "att_key ` set as \<subseteq> ?K" using key unfolding as by (auto simp: ran_def)
    show "?K \<subseteq> att_key ` set as" using key unfolding as by (force simp: ran_def)
  qed
  from as show "\<forall>a\<in>set as. aDiskName a = n" by simp
  have "as \<noteq> [] \<longleftrightarrow> att_key ` set as \<noteq> {}" by simp
  also have "\<dots> \<longleftrightarrow> has_atts n c" unfolding keys has_atts_def by blast
  finally show "as \<noteq> [] \<longleftrightarrow> has_atts n c" .
  show "drop_disk n (drop_atts as c) = forget_disk n c"
    by (rule cat_eqI) (auto simp: forget_disk_def keys fun_eq_iff)
qed

text \<open>Some attachments of the disk are gone and nothing else has changed.\<close>

definition partly_detached :: "string \<Rightarrow> Catalog \<Rightarrow> Catalog \<Rightarrow> bool" where
  "partly_detached n c c' \<longleftrightarrow> (\<exists>as. (\<forall>a\<in>set as. aDiskName a = n) \<and> c' = drop_atts as c)"

lemma partly_detached_intros [intro]:
  "partly_detached n c c"
  "\<forall>a\<in>set as. aDiskName a = n \<Longrightarrow> partly_detached n c (drop_atts as c)"
  "\<forall>a\<in>set as. aDiskName a = n \<Longrightarrow> partly_detached n c (drop_atts (take k as) c)"
  unfolding partly_detached_def
  by (rule exI [of _ "[]"], simp) (auto dest: in_set_takeD)

fun delete_effect :: "bool \<Rightarrow> string \<Rightarrow> bool \<Rightarrow> Catalog \<Rightarrow> error option \<Rightarrow> Catalog \<Rightarrow> bool" where
  "delete_effect rel n force c None c' \<longleftrightarrow>
     cat_disks c n \<noteq> None \<and> (force \<or> \<not> has_atts n c) \<and> c' = forget_disk n c"
| "delete_effect rel n force c (Some e) c' \<longleftrightarrow>
     (\<not> force \<and> has_atts n c \<longrightarrow> c' = c) \<and>
     (partly_detached n c c' \<or> \<not> rel \<and> c' = forget_disk n c)"

lemma DeleteDisk_catalog:
  assumes "catalog_ok ok c"
  shows "catsafe rel ok unwatched (Service_DeleteDisk n force) c g (\<lambda>e c' _. delete_effect rel n force c e c')"
proof -
  have same: "delete_effect rel n force c (Some e) c" for e
    by auto
  have rest: "catsafe rel ok unwatched
      (bind (detachAll as) (\<lambda>e. case e of Some err \<Rightarrow> Done (Some err) | None \<Rightarrow>
         Act (RemoveLV (dVG r) (dName r)) (\<lambda>e. case e of
           Some err \<Rightarrow> Done (Some (Wrapf ''remove lv: %w'' [] err)) | None \<Rightarrow> Act (DeleteDisk n) Done)))
      c g (\<lambda>e c' _. delete_effect rel n force c e c')"
    if as: "lists_atts n [] c as" and r: "cat_disks c n = Some r" and f: "as = [] \<or> force" for as r
  proof -
    have n: "n \<noteq> []" "ok n" using catalog_okD [OF assms r] by (auto simp: disk_ok_def)
    note L = lists_atts_of_disk [OF assms n(1) as]
    show ?thesis
      unfolding catsafe_bind
      by (rule catsafe_mono [OF detachAll_catalog])
        (use L n r f in \<open>auto simp: reply_cases split: option.split\<close>)
  qed
  show ?thesis
    using rest same catalog_okD(3) [OF assms] 
    by (auto simp: Service_DeleteDisk_def catsafe_deferred reply_cases simp del: delete_effect.simps)
qed

fun attach_effect :: "bool \<Rightarrow> AttachInput \<Rightarrow> Catalog \<Rightarrow> AttachmentRecord result \<Rightarrow> Catalog \<Rightarrow> bool" where
  "attach_effect rel inp c (Inr a) c' \<longleftrightarrow>
     att_key a = (ai_DiskName inp, ai_VMName inp) \<and> ai_VMName inp \<noteq> [] \<and> cat_disks c (ai_DiskName inp) \<noteq> None \<and>
     cat_atts c (att_key a) = None \<and> c' = put_att a c"
| "attach_effect rel inp c (Inl e) c' \<longleftrightarrow>
     write_may rel c c' (\<exists>a. att_key a = (ai_DiskName inp, ai_VMName inp) \<and> ai_VMName inp \<noteq> [] \<and>
       cat_disks c (ai_DiskName inp) \<noteq> None \<and> c' = put_att a c)"

lemma plugDisk_catalog:
  assumes "catalog_ok ok c" "cat_disks c (ai_DiskName inp) = Some rec" "ai_VMName inp \<noteq> []"
  shows "catsafe rel ok unwatched (plugDisk sv rec (ai_VMName inp) dev) c g (\<lambda>x c' _. attach_effect rel inp c x c')"
proof -
  note rec = catalog_okD [OF assms(1,2)]
  have wrote: "\<exists>a. aDiskName a = d \<and> aVMName a = v \<and> put_att b c = put_att a c"
    if "aDiskName b = d" "aVMName b = v" for b d v
    using that by blast
  show ?thesis
    using rec assms(2,3)
    by (auto simp: plugDisk_def catsafe_simps reply_cases Let_def write_may_def intro: wrote)
qed

lemma AttachDisk_catalog:
  assumes "catalog_ok ok c" "ok []"
  shows "catsafe rel ok unwatched (Service_AttachDisk sv inp) c g (\<lambda>x c' _. attach_effect rel inp c x c')"
  using assms
  by (auto simp: Service_AttachDisk_def reply_cases write_may_def split: bool.split intro: plugDisk_catalog)

fun detach_effect :: "bool \<Rightarrow> string \<Rightarrow> string \<Rightarrow> Catalog \<Rightarrow> error option \<Rightarrow> Catalog \<Rightarrow> bool" where
  "detach_effect rel d v c None c' \<longleftrightarrow> cat_atts c (d, v) \<noteq> None \<and> c' = drop_att d v c"
| "detach_effect rel d v c (Some e) c' \<longleftrightarrow> write_may rel c c' (c' = drop_att d v c)"

lemma DetachDisk_catalog:
  assumes "catalog_ok ok c"
  shows "catsafe rel ok unwatched (Service_DetachDisk d v) c g (\<lambda>e c' _. detach_effect rel d v c e c')"
  using assms
  by (auto simp: Service_DetachDisk_def detachLocked_def reply_cases write_may_def
      dest: catalog_okD(3) catalog_ok_attD)

text \<open>Extending to size \<open>f r\<close>, where \<open>r\<close> is the stored record.\<close>

fun extend_effect :: "bool \<Rightarrow> string \<Rightarrow> (DiskRecord \<Rightarrow> u64) \<Rightarrow> Catalog \<Rightarrow> DiskRecord result \<Rightarrow> Catalog \<Rightarrow> bool" where
  "extend_effect rel n f c (Inr r) c' \<longleftrightarrow>
     (\<exists>r0. cat_disks c n = Some r0 \<and> (\<exists>t. r = r0\<lparr>dSizeBytes := f r0, dLastExtendedAt := t\<rparr>)) \<and> c' = put_disk r c"
| "extend_effect rel n f c (Inl e) c' \<longleftrightarrow>
     write_may rel c c' (\<exists>r0 t. cat_disks c n = Some r0 \<and> c' = put_disk (r0\<lparr>dSizeBytes := f r0, dLastExtendedAt := t\<rparr>) c)"

lemma resizeAll_catalog: "catsafe rel ok unwatched p c g Q \<Longrightarrow> catsafe rel ok unwatched (resizeAll as sz p) c g Q"
  by (induction as) (simp_all add: catsafe_simps)

lemma recordExtended_catalog:
  assumes "catalog_ok ok c" "cat_disks c n = Some rec" "f rec = sz"
  shows "catsafe rel ok unwatched (recordExtended rec sz) c g (\<lambda>x c' _. extend_effect rel n f c x c')"
  using assms(2,3) catalog_okD(1,3) [OF assms(1,2)]
  by (auto simp: recordExtended_def reply_cases Let_def write_may_def intro!: resizeAll_catalog)

definition extended_size :: "ExtendInput \<Rightarrow> DiskRecord \<Rightarrow> u64" where
  "extended_size inp r = (if ei_SizeBytes inp \<noteq> 0 then ei_SizeBytes inp else dSizeBytes r + ei_DeltaBytes inp)"

lemma ExtendDisk_catalog:
  assumes "catalog_ok ok c"
  shows "catsafe rel ok unwatched (Service_ExtendDisk inp) c g
     (\<lambda>x c' _. extend_effect rel (ei_Name inp) (extended_size inp) c x c')"
  using assms
  by (auto simp: Service_ExtendDisk_def catsafe_simps reply_cases write_may_def extended_size_def
      intro!: recordExtended_catalog)

lemma ExtendByPercent_catalog:
  assumes "catalog_ok ok c"
  shows "catsafe rel ok unwatched (Service_ExtendByPercent n pc) c g
     (\<lambda>x c' _. extend_effect rel n (\<lambda>r. dSizeBytes r + percentDelta (dSizeBytes r) pc) c x c')"
  using assms
  by (auto simp: Service_ExtendByPercent_def catsafe_simps reply_cases write_may_def
      intro!: recordExtended_catalog)

section \<open>Requests\<close>

text \<open>The state-changing methods as one type, so that sequences of them can be stated.\<close>

datatype request =
    ReqCreate CreateInput
  | ReqDelete string bool
  | ReqAttach AttachInput
  | ReqDetach string string
  | ReqExtend ExtendInput
  | ReqExtendByPercent string int

definition erring :: "'a result proc \<Rightarrow> error option proc" where
  "erring p = bind p (\<lambda>r. Done (case r of Inl e \<Rightarrow> Some e | Inr _ \<Rightarrow> None))"

primrec perform :: "('l, 'v, 's, 'k, 'q) Service \<Rightarrow> request \<Rightarrow> error option proc" where
  "perform sv (ReqCreate inp) = erring (Service_CreateDisk sv inp)"
| "perform sv (ReqDelete n force) = Service_DeleteDisk n force"
| "perform sv (ReqAttach inp) = erring (Service_AttachDisk sv inp)"
| "perform sv (ReqDetach d v) = Service_DetachDisk d v"
| "perform sv (ReqExtend inp) = erring (Service_ExtendDisk inp)"
| "perform sv (ReqExtendByPercent n pc) = erring (Service_ExtendByPercent n pc)"

primrec perform_all :: "('l, 'v, 's, 'k, 'q) Service \<Rightarrow> request list \<Rightarrow> error option list proc" where
  "perform_all sv [] = Done []"
| "perform_all sv (q # qs) = bind (perform sv q) (\<lambda>e. bind (perform_all sv qs) (\<lambda>es. Done (e # es)))"

fun request_ok :: "(string \<Rightarrow> bool) \<Rightarrow> request \<Rightarrow> bool" where
  "request_ok ok (ReqCreate inp) = ok (ci_Name inp)"
| "request_ok ok _ = True"

lemma effects_keep_catalog_ok:
  assumes "catalog_ok ok c"
  shows "ok (ci_Name inp) \<Longrightarrow> create_effect rel sv inp c x c' \<Longrightarrow> catalog_ok ok c'"
    and "delete_effect rel n force c e c' \<Longrightarrow> catalog_ok ok c'"
    and "attach_effect rel ainp c a c' \<Longrightarrow> catalog_ok ok c'"
    and "detach_effect rel d v c e c' \<Longrightarrow> catalog_ok ok c'"
    and "extend_effect rel n f c x c' \<Longrightarrow> catalog_ok ok c'"
proof -
  have name: "dName (newDiskRecord sv inp' t) = ci_Name inp" if "normaliseCreate sv inp = Inr inp'" for inp' t
    using normaliseCreate_Inr(1) [OF that] by (simp add: newDiskRecord_def)
  have new: "catalog_ok ok (put_disk (newDiskRecord sv inp' t) c)"
    if "ok (ci_Name inp)" "normaliseCreate sv inp = Inr inp'" for inp' t
    using that by (intro catalog_ok_put_disk assms newDiskRecord_ok) (auto simp: name)
  show "ok (ci_Name inp) \<Longrightarrow> create_effect rel sv inp c x c' \<Longrightarrow> catalog_ok ok c'"
    using assms new by (cases x) (auto simp: write_may_def)
  have forget: "catalog_ok ok (forget_disk n c)"
    using assms by (auto simp: catalog_ok_def forget_disk_def)
  show "delete_effect rel n force c e c' \<Longrightarrow> catalog_ok ok c'"
    using assms forget by (cases e) (auto simp: partly_detached_def catalog_ok_drop_atts)
  show "attach_effect rel ainp c a c' \<Longrightarrow> catalog_ok ok c'"
    using assms by (cases a) (auto simp: write_may_def intro!: catalog_ok_put_att)
  show "detach_effect rel d v c e c' \<Longrightarrow> catalog_ok ok c'"
    using assms by (cases e) (auto simp: write_may_def intro!: catalog_ok_drop_att)
  have upd: "catalog_ok ok (put_disk (r\<lparr>dSizeBytes := sz, dLastExtendedAt := t\<rparr>) c)"
    if "cat_disks c n = Some r" for r sz t
    using catalog_okD [OF assms that] by (intro catalog_ok_put_disk assms) simp_all
  show "extend_effect rel n f c x c' \<Longrightarrow> catalog_ok ok c'"
    using assms upd by (cases x) (auto simp: write_may_def)
qed

lemma perform_keeps_catalog_ok:
  assumes c: "catalog_ok ok c" and "ok []" "request_ok ok q"
  shows "catsafe rel ok unwatched (perform sv q) c g (\<lambda>_ c' _. catalog_ok ok c')"
proof (cases q)
  case (ReqCreate inp)
  with assms have "ok (ci_Name inp)" by simp
  from effects_keep_catalog_ok(1) [OF c this] show ?thesis
    unfolding ReqCreate perform.simps erring_def catsafe_bind catsafe.simps by (rule catsafe_mono [OF CreateDisk_catalog])
next
  case (ReqDelete n force)
  from effects_keep_catalog_ok(2) [OF c] show ?thesis
    unfolding ReqDelete perform.simps by (rule catsafe_mono [OF DeleteDisk_catalog [OF c]])
next
  case (ReqAttach inp)
  from effects_keep_catalog_ok(3) [OF c] show ?thesis
    unfolding ReqAttach perform.simps erring_def catsafe_bind catsafe.simps
    by (rule catsafe_mono [OF AttachDisk_catalog [OF c assms(2)]])
next
  case (ReqDetach d v)
  from effects_keep_catalog_ok(4) [OF c] show ?thesis
    unfolding ReqDetach perform.simps by (rule catsafe_mono [OF DetachDisk_catalog [OF c]])
next
  case (ReqExtend inp)
  from effects_keep_catalog_ok(5) [OF c] show ?thesis
    unfolding ReqExtend perform.simps erring_def catsafe_bind catsafe.simps
    by (rule catsafe_mono [OF ExtendDisk_catalog [OF c]])
next
  case (ReqExtendByPercent n pc)
  from effects_keep_catalog_ok(5) [OF c] show ?thesis
    unfolding ReqExtendByPercent perform.simps erring_def catsafe_bind catsafe.simps
    by (rule catsafe_mono [OF ExtendByPercent_catalog [OF c]])
qed

lemma perform_all_keeps_catalog_ok:
  assumes "catalog_ok ok c" "ok []" "\<forall>q\<in>set qs. request_ok ok q"
  shows "catsafe rel ok unwatched (perform_all sv qs) c g (\<lambda>_ c' _. catalog_ok ok c')"
  using assms(1,3)
proof (induction qs arbitrary: c g)
  case (Cons q qs)
  have "catsafe rel ok unwatched (perform sv q) c g (\<lambda>_ c' _. catalog_ok ok c')"
    using Cons.prems assms(2) by (simp add: perform_keeps_catalog_ok)
  then show ?case
    using Cons by (auto simp: catsafe_simps elim: catsafe_mono)
qed simp

end
