(* ===== verification/Json_Codec.thy ===== *)
theory Json_Codec
  imports Store_Types
begin

text \<open>
  The JSON form of the two persisted records, from the struct tags of
  \<open>src/internal/store/types.go\<close>, as \<open>json.Marshal\<close> and \<open>json.Unmarshal\<close> of Go's
  standard library treat them. A JSON document is kept as its tree: an object is the list of its
  members in order, and a \<open>time.Time\<close> is the RFC 3339 text of its instant, kept as the
  instant. Field names are matched exactly (no document of this program has two names that
  differ only in case). Strings are valid UTF-8 throughout; the replacement of other bytes by
  U+FFFD is outside the model.
\<close>

datatype json = JStr string | JInt int | JTime gotime | JObj "(string \<times> json) list"

text \<open>
  \<open>Time.MarshalJSON\<close> refuses a year outside 0 to 9999; the bounds are the first instants of
  the years 0 and 10000.
\<close>

definition year_ok :: "gotime \<Rightarrow> bool" where
  "year_ok t \<longleftrightarrow> - 62167219200000000000 \<le> t \<and> t < 253402300800000000000"

definition year_error :: error where
  "year_error = ExecError ''json: error calling MarshalJSON for type time.Time: Time.MarshalJSON: year outside of range [0,9999]''"

definition marshalDisk :: "DiskRecord \<Rightarrow> json result" where
  "marshalDisk r =
     (if year_ok (dCreatedAt r) \<and> year_ok (dLastExtendedAt r) then
        Inr (JObj [(''name'', JStr (dName r)), (''vg'', JStr (dVG r)), (''mode'', JInt (dMode r)),
          (''size_bytes'', JInt (uint (dSizeBytes r))), (''virtual_size_bytes'', JInt (uint (dVirtualSizeBytes r))),
          (''device_path'', JStr (dDevicePath r)), (''created_on_node'', JStr (dCreatedOnNode r)),
          (''created_at'', JTime (dCreatedAt r)), (''last_extended_at'', JTime (dLastExtendedAt r))])
      else Inl year_error)"

definition marshalAttachment :: "AttachmentRecord \<Rightarrow> json result" where
  "marshalAttachment a =
     (if year_ok (aAttachedAt a) then
        Inr (JObj [(''disk_name'', JStr (aDiskName a)), (''vm_name'', JStr (aVMName a)), (''host'', JStr (aHost a)),
          (''target_dev'', JStr (aTargetDev a)), (''attached_at'', JTime (aAttachedAt a))])
      else Inl year_error)"

text \<open>
  Decoding a member into a field of a Go type: an absent member leaves the zero value, a member
  of the wrong kind or out of the type's range is an error. The model's \<open>int\<close> has no bound,
  so a mode is always in range.
\<close>

definition type_error :: "string \<Rightarrow> error" where
  "type_error f = ExecError (''json: cannot unmarshal into field '' @ f)"

definition str_field :: "(string \<times> json) list \<Rightarrow> string \<Rightarrow> string result" where
  "str_field o' f = (case map_of o' f of None \<Rightarrow> Inr [] | Some (JStr s) \<Rightarrow> Inr s | Some _ \<Rightarrow> Inl (type_error f))"

definition int_field :: "(string \<times> json) list \<Rightarrow> string \<Rightarrow> int result" where
  "int_field o' f = (case map_of o' f of
     None \<Rightarrow> Inr 0
   | Some (JInt i) \<Rightarrow> Inr i
   | Some _ \<Rightarrow> Inl (type_error f))"

definition u64_field :: "(string \<times> json) list \<Rightarrow> string \<Rightarrow> u64 result" where
  "u64_field o' f = (case map_of o' f of
     None \<Rightarrow> Inr 0
   | Some (JInt i) \<Rightarrow> if 0 \<le> i \<and> i < 2 ^ 64 then Inr (of_int i) else Inl (type_error f)
   | Some _ \<Rightarrow> Inl (type_error f))"

definition time_field :: "(string \<times> json) list \<Rightarrow> string \<Rightarrow> gotime result" where
  "time_field o' f = (case map_of o' f of
     None \<Rightarrow> Inr zeroTime | Some (JTime t) \<Rightarrow> Inr t | Some _ \<Rightarrow> Inl (type_error f))"

definition and_then :: "'a result \<Rightarrow> ('a \<Rightarrow> 'b result) \<Rightarrow> 'b result" where
  "and_then r f = (case r of Inl e \<Rightarrow> Inl e | Inr x \<Rightarrow> f x)"

lemma and_then_simps [simp]: "and_then (Inl e) f = Inl e" "and_then (Inr x) f = f x"
  by (simp_all add: and_then_def)

fun unmarshalDisk :: "json \<Rightarrow> DiskRecord result" where
  "unmarshalDisk (JObj ms) =
     and_then (str_field ms ''name'') (\<lambda>name. and_then (str_field ms ''vg'') (\<lambda>vg.
     and_then (int_field ms ''mode'') (\<lambda>mode. and_then (u64_field ms ''size_bytes'') (\<lambda>sz.
     and_then (u64_field ms ''virtual_size_bytes'') (\<lambda>vsz. and_then (str_field ms ''device_path'') (\<lambda>dev.
     and_then (str_field ms ''created_on_node'') (\<lambda>node. and_then (time_field ms ''created_at'') (\<lambda>cre.
     and_then (time_field ms ''last_extended_at'') (\<lambda>ext.
       Inr \<lparr>dName = name, dVG = vg, dMode = mode, dSizeBytes = sz, dVirtualSizeBytes = vsz,
         dDevicePath = dev, dCreatedOnNode = node, dCreatedAt = cre, dLastExtendedAt = ext\<rparr>)))))))))"
| "unmarshalDisk _ = Inl (type_error ''store.DiskRecord'')"

fun unmarshalAttachment :: "json \<Rightarrow> AttachmentRecord result" where
  "unmarshalAttachment (JObj ms) =
     and_then (str_field ms ''disk_name'') (\<lambda>disk. and_then (str_field ms ''vm_name'') (\<lambda>vm.
     and_then (str_field ms ''host'') (\<lambda>host. and_then (str_field ms ''target_dev'') (\<lambda>dev.
     and_then (time_field ms ''attached_at'') (\<lambda>t.
       Inr \<lparr>aDiskName = disk, aVMName = vm, aHost = host, aTargetDev = dev, aAttachedAt = t\<rparr>)))))"
| "unmarshalAttachment _ = Inl (type_error ''store.AttachmentRecord'')"

section \<open>Round trips\<close>

lemmas json_fields = str_field_def int_field_def u64_field_def time_field_def

lemma unmarshal_marshal_disk: "marshalDisk r = Inr j \<Longrightarrow> unmarshalDisk j = Inr r"
proof -
  assume r: "marshalDisk r = Inr j"
  have "uint (x :: u64) < 2 ^ 64" for x using uint_lt2p [of x] by simp
  with r show ?thesis by (auto simp: marshalDisk_def json_fields split: if_splits)
qed

lemma unmarshal_marshal_attachment: "marshalAttachment a = Inr j \<Longrightarrow> unmarshalAttachment j = Inr a"
  by (auto simp: marshalAttachment_def json_fields split: if_splits)

text \<open>No error of the codec is a sentinel of the store.\<close>

definition sentinel :: "error \<Rightarrow> bool" where
  "sentinel e \<longleftrightarrow> errors_Is e ErrNotFound \<or> errors_Is e ErrAlreadyExists"

lemma sentinel_simps [simp]:
  "sentinel ErrNotFound" "sentinel ErrAlreadyExists" "\<not> sentinel (ExecError m)" "\<not> sentinel (Errorf f as)"
  "sentinel (Wrapf f as e) \<longleftrightarrow> sentinel e"
  by (auto simp: sentinel_def)

definition plain :: "'a result \<Rightarrow> bool" where
  "plain r \<longleftrightarrow> (\<forall>e. r = Inl e \<longrightarrow> \<not> sentinel e)"

lemma plain_and_then [intro]: "plain r \<Longrightarrow> (\<And>x. plain (f x)) \<Longrightarrow> plain (and_then r f)"
  by (cases r) (auto simp: plain_def)

lemma plain_fields [simp]:
  "plain (str_field ms f)" "plain (int_field ms f)" "plain (u64_field ms f)" "plain (time_field ms f)"
  "plain (Inr x)" "plain (Inl (type_error f))"
  by (auto simp: plain_def json_fields type_error_def split: option.splits json.splits if_splits)

lemma plain_unmarshalDisk: "plain (unmarshalDisk j)"
  by (cases j) (auto intro!: plain_and_then)

lemma plain_unmarshalAttachment: "plain (unmarshalAttachment j)"
  by (cases j) (auto intro!: plain_and_then)

lemma plain_marshal: "plain (marshalDisk r)" "plain (marshalAttachment a)"
  by (auto simp: plain_def marshalDisk_def marshalAttachment_def year_error_def split: if_splits)

end
