(* ===== verification/Kv_Catalog.thy ===== *)
theory Kv_Catalog
  imports Json_Codec
begin

text \<open>
  What the two persistent backends share: a table of JSON documents for the disks, keyed by
  name, and one for the attachments, keyed by a string made of the disk and the VM. The locale
  \<open>att_keys\<close> is the interface of the key scheme: it must be injective on the disk names it
  serves. \<open>kv_cat\<close> is the catalog such a pair of tables represents.
\<close>

type_synonym table = "string \<rightharpoonup> json"

definition decoded :: "(json \<Rightarrow> 'a result) \<Rightarrow> table \<Rightarrow> string \<Rightarrow> 'a option" where
  "decoded dec' T k = (case T k of None \<Rightarrow> None | Some j \<Rightarrow> (case dec' j of Inr x \<Rightarrow> Some x | Inl _ \<Rightarrow> None))"

lemma decoded_simps [simp]:
  "decoded f (T(k := None)) = (decoded f T)(k := None)"
  "f j = Inr x \<Longrightarrow> decoded f (T(k \<mapsto> j)) = (decoded f T)(k \<mapsto> x)"
  by (auto simp: decoded_def fun_eq_iff)

lemma decoded_Some: "decoded f T k = Some x \<longleftrightarrow> (\<exists>j. T k = Some j \<and> f j = Inr x)"
  by (auto simp: decoded_def split: option.splits sum.splits)

lemma decoded_None: "T k = None \<Longrightarrow> decoded f T k = None"
  by (simp add: decoded_def)

lemma sorted_by_distinct_key:
  fixes f :: "'a \<Rightarrow> 'b::linorder"
  assumes "distinct (map f xs)"
  shows "sorted_wrt (<) (map f (sort_key f xs))"
proof -
  have "mset (map f (sort_key f xs)) = mset (map f xs)" by simp
  with assms have "distinct (map f (sort_key f xs))" using mset_eq_imp_distinct_iff by blast
  then show ?thesis by (simp add: strict_sorted_iff)
qed

text \<open>
  The loop both backends run over the entries of a listing: decode, skip what the filter drops,
  stop at the first document that does not decode.
\<close>

fun collect :: "(string \<Rightarrow> error \<Rightarrow> error) \<Rightarrow> (json \<Rightarrow> 'a result) \<Rightarrow> ('a \<Rightarrow> bool) \<Rightarrow> (string \<times> json) list \<Rightarrow> 'a list result" where
  "collect w f keep [] = Inr []"
| "collect w f keep ((k, j) # kvs) =
     (case f j of
        Inl e \<Rightarrow> Inl (w k e)
      | Inr x \<Rightarrow> (case collect w f keep kvs of Inl e \<Rightarrow> Inl e | Inr xs \<Rightarrow> Inr (if keep x then x # xs else xs)))"

lemma collect_Inr:
  "(\<forall>(k, j)\<in>set kvs. \<exists>x. f j = Inr x) \<Longrightarrow>
    collect w f keep kvs = Inr (filter keep (map (\<lambda>(k, j). projr (f j)) kvs))"
  by (induction kvs) auto

definition kv_inv :: "(string \<Rightarrow> string \<Rightarrow> string) \<Rightarrow> (string \<Rightarrow> bool) \<Rightarrow> table \<Rightarrow> table \<Rightarrow> bool" where
  "kv_inv key ok D A \<longleftrightarrow>
     (\<forall>k j. D k = Some j \<longrightarrow> (\<exists>r. unmarshalDisk j = Inr r \<and> dName r = k))
   \<and> (\<forall>k j. A k = Some j \<longrightarrow>
        (\<exists>a. unmarshalAttachment j = Inr a \<and> key (aDiskName a) (aVMName a) = k \<and> ok (aDiskName a)))"

definition kv_cat :: "(string \<Rightarrow> string \<Rightarrow> string) \<Rightarrow> (string \<Rightarrow> bool) \<Rightarrow> table \<Rightarrow> table \<Rightarrow> Catalog" where
  "kv_cat key ok D A = \<lparr>cat_disks = decoded unmarshalDisk D,
     cat_atts = (\<lambda>(d, v). if ok d then decoded unmarshalAttachment A (key d v) else None)\<rparr>"

lemma kv_cat_simps [simp]:
  "cat_disks (kv_cat key ok D A) = decoded unmarshalDisk D"
  "cat_atts (kv_cat key ok D A) (d, v) = (if ok d then decoded unmarshalAttachment A (key d v) else None)"
  by (simp_all add: kv_cat_def)

locale att_keys =
  fixes key :: "string \<Rightarrow> string \<Rightarrow> string"
    and ok :: "string \<Rightarrow> bool"
  assumes key_inject: "ok d \<Longrightarrow> ok d' \<Longrightarrow> key d v = key d' v' \<longleftrightarrow> d = d' \<and> v = v'"
    and ok_Nil: "ok []"
begin

lemma kv_inv_writes:
  assumes "kv_inv key ok D A"
  shows "marshalDisk r = Inr j \<Longrightarrow> kv_inv key ok (D(dName r \<mapsto> j)) A"
    and "kv_inv key ok (D(n := None)) A"
    and "marshalAttachment a = Inr j \<Longrightarrow> ok (aDiskName a) \<Longrightarrow> kv_inv key ok D (A(key (aDiskName a) (aVMName a) \<mapsto> j))"
    and "kv_inv key ok D (A(k := None))"
  using assms by (auto simp: kv_inv_def unmarshal_marshal_disk unmarshal_marshal_attachment)

lemma kv_cat_writes:
  shows "marshalDisk r = Inr j \<Longrightarrow> kv_cat key ok (D(dName r \<mapsto> j)) A = put_disk r (kv_cat key ok D A)"
    and "kv_cat key ok (D(n := None)) A = drop_disk n (kv_cat key ok D A)"
    and "marshalAttachment a = Inr j \<Longrightarrow> ok (aDiskName a) \<Longrightarrow>
      kv_cat key ok D (A(key (aDiskName a) (aVMName a) \<mapsto> j)) = put_att a (kv_cat key ok D A)"
    and "ok d \<Longrightarrow> kv_cat key ok D (A(key d v := None)) = drop_att d v (kv_cat key ok D A)"
  by (auto intro!: cat_eqI simp: fun_eq_iff key_inject unmarshal_marshal_disk unmarshal_marshal_attachment)

lemma kv_read_disk:
  assumes "kv_inv key ok D A"
  shows "D n = Some j \<Longrightarrow> \<exists>r. unmarshalDisk j = Inr r \<and> cat_disks (kv_cat key ok D A) n = Some r"
    and "cat_disks (kv_cat key ok D A) n = None \<longleftrightarrow> D n = None"
  using assms by (fastforce simp: kv_inv_def decoded_def split: option.splits sum.splits)+

lemma kv_read_att:
  assumes "kv_inv key ok D A" "ok d"
  shows "A (key d v) = Some j \<Longrightarrow> \<exists>a. unmarshalAttachment j = Inr a \<and> cat_atts (kv_cat key ok D A) (d, v) = Some a"
    and "cat_atts (kv_cat key ok D A) (d, v) = None \<longleftrightarrow> A (key d v) = None"
  using assms by (fastforce simp: kv_inv_def decoded_def split: option.splits sum.splits)+

lemma kv_cat_wf: "kv_inv key ok D A \<Longrightarrow> cat_wf (kv_cat key ok D A)"
  by (auto simp: cat_wf_def kv_inv_def decoded_Some key_inject split: if_splits) (metis Inr_inject key_inject)+

text \<open>Listings, for the entries of the disk table and for a part of the attachment table.\<close>

lemma kv_lists_disks:
  assumes inv: "kv_inv key ok D A" and kvs: "distinct (map fst kvs)" "map_of kvs = D"
  shows "\<exists>ds. collect w unmarshalDisk keep kvs = Inr ds \<and>
     sorted_wrt (<) (map dName (sort_key dName ds)) \<and> set ds = {r \<in> ran (cat_disks (kv_cat key ok D A)). keep r}"
proof -
  have entry: "\<exists>r. unmarshalDisk j = Inr r \<and> dName r = k" if "(k, j) \<in> set kvs" for k j
    using inv kvs that by (auto simp: kv_inv_def)
  let ?xs = "map (\<lambda>(k, j). projr (unmarshalDisk j)) kvs"
  have "map dName ?xs = map fst kvs" using entry by (auto dest: entry)
  with kvs have d: "distinct (map dName (filter keep ?xs))" by (metis distinct_map_filter)
  have "set ?xs = ran (cat_disks (kv_cat key ok D A))"
  proof (intro set_eqI iffI)
    fix r assume "r \<in> set ?xs"
    then obtain k j where "(k, j) \<in> set kvs" "r = projr (unmarshalDisk j)" by auto
    with entry [of k j] kvs have "cat_disks (kv_cat key ok D A) k = Some r" by (auto simp: decoded_Some)
    then show "r \<in> ran (cat_disks (kv_cat key ok D A))" by (rule ranI)
  next
    fix r assume "r \<in> ran (cat_disks (kv_cat key ok D A))"
    then obtain k j where "D k = Some j" "unmarshalDisk j = Inr r" by (auto simp: ran_def decoded_Some)
    with kvs have "(k, j) \<in> set kvs" "projr (unmarshalDisk j) = r" by (auto dest: map_of_SomeD)
    then show "r \<in> set ?xs" by force
  qed
  moreover have "collect w unmarshalDisk keep kvs = Inr (filter keep ?xs)"
    by (rule collect_Inr) (use entry in blast)
  ultimately show ?thesis using sorted_by_distinct_key [OF d] by auto
qed

lemma kv_lists_atts:
  assumes inv: "kv_inv key ok D A" and kvs: "distinct (map fst kvs)" "\<And>k j. (k, j) \<in> set kvs \<longleftrightarrow> A k = Some j \<and> part k"
  shows "\<exists>as. collect w unmarshalAttachment keep kvs = Inr as \<and>
     sorted_wrt (<) (map att_key (sort_key att_key as)) \<and>
     set as = {a \<in> ran (cat_atts (kv_cat key ok D A)). part (key (aDiskName a) (aVMName a)) \<and> keep a}"
proof -
  have entry: "\<exists>a. unmarshalAttachment j = Inr a \<and> key (aDiskName a) (aVMName a) = k \<and> ok (aDiskName a)"
    if "(k, j) \<in> set kvs" for k j
    using inv kvs(2) that by (auto simp: kv_inv_def)
  let ?xs = "map (\<lambda>(k, j). projr (unmarshalAttachment j)) kvs"
  have "map (\<lambda>(d, v). key d v) (map att_key ?xs) = map fst kvs" using entry by (auto dest: entry)
  with kvs have "distinct (map (\<lambda>(d, v). key d v) (map att_key ?xs))" by argo
  then have "distinct (map att_key ?xs)" by (simp only: distinct_map)
  then have d: "distinct (map att_key (filter keep ?xs))" by (rule distinct_map_filter)
  have "set ?xs = {a \<in> ran (cat_atts (kv_cat key ok D A)). part (key (aDiskName a) (aVMName a))}"
  proof (intro set_eqI iffI)
    fix a assume "a \<in> set ?xs"
    then obtain k j where kj: "(k, j) \<in> set kvs" "a = projr (unmarshalAttachment j)" by auto
    with entry [of k j] kvs(2) have "cat_atts (kv_cat key ok D A) (att_key a) = Some a" "part (key (aDiskName a) (aVMName a))"
      by (auto simp: decoded_Some)
    then show "a \<in> {a \<in> ran (cat_atts (kv_cat key ok D A)). part (key (aDiskName a) (aVMName a))}"
      using ranI [of "cat_atts (kv_cat key ok D A)" "att_key a" a] by blast
  next
    fix a assume a: "a \<in> {a \<in> ran (cat_atts (kv_cat key ok D A)). part (key (aDiskName a) (aVMName a))}"
    then obtain d v j where j: "A (key d v) = Some j" "unmarshalAttachment j = Inr a"
      by (auto simp: ran_def decoded_Some split: if_splits)
    with inv have "key (aDiskName a) (aVMName a) = key d v" by (fastforce simp: kv_inv_def)
    with j a kvs(2) show "a \<in> set ?xs" by force
  qed
  moreover have "collect w unmarshalAttachment keep kvs = Inr (filter keep ?xs)"
    by (rule collect_Inr) (use entry in blast)
  ultimately show ?thesis using sorted_by_distinct_key [OF d] by auto
qed

end

end
