(* ===== verification/Etcd_Store.thy ===== *)
theory Etcd_Store
  imports Kv_Catalog
begin

text \<open>
  The etcd backend, \<open>src/internal/store/etcd.go\<close>. The etcd client is a parameter: a record of
  the calls the program makes, and \<open>etcd_laws\<close> states what its documentation promises: a
  transaction is atomic, reads are linearizable, and a call that returns an error may or may not
  have taken effect. Under these laws the backend meets the contract of \<open>store.Store\<close>.
\<close>

section \<open>The client's interface\<close>

text \<open>
  \<open>CreateRevision k op n\<close> is \<open>clientv3.Compare(clientv3.CreateRevision(k), op, n)\<close>.
  \<open>et_Txn\<close> is \<open>Txn().If().Then().Commit()\<close> with the \<open>Succeeded\<close> flag of its
  response; the second argument of \<open>et_Get\<close> is the option \<open>WithPrefix\<close>.
\<close>

datatype etcd_cmp = CreateRevision string string nat
datatype 'w etcd_op = OpPut string 'w

record ('e, 'w) EtcdClient =
  et_Txn :: "etcd_cmp \<Rightarrow> 'w etcd_op \<Rightarrow> 'e \<Rightarrow> bool result \<times> 'e"
  et_Get :: "string \<Rightarrow> bool \<Rightarrow> 'e \<Rightarrow> (string \<times> 'w) list result \<times> 'e"
  et_Put :: "string \<Rightarrow> 'w \<Rightarrow> 'e \<Rightarrow> error option \<times> 'e"
  et_Delete :: "string \<Rightarrow> 'e \<Rightarrow> error option \<times> 'e"

section \<open>Keys\<close>

definition etcdPrefix :: "string \<Rightarrow> string" where
  "etcdPrefix pfx = TrimRight (if pfx = [] then ''/sltv'' else pfx) (CHR ''/'')"

definition disksPrefix :: "string \<Rightarrow> string" where
  "disksPrefix p = p @ ''/disks/''"

definition diskKey :: "string \<Rightarrow> string \<Rightarrow> string" where
  "diskKey p name = p @ ''/disks/'' @ name"

definition attachmentsPrefix :: "string \<Rightarrow> string" where
  "attachmentsPrefix p = p @ ''/attachments/''"

definition attachKey :: "string \<Rightarrow> string \<Rightarrow> string \<Rightarrow> string" where
  "attachKey p disk vm = p @ ''/attachments/'' @ disk @ ''/'' @ vm"

section \<open>The methods\<close>

definition txn_put :: "('e, json) EtcdClient \<Rightarrow> string \<Rightarrow> string \<Rightarrow> error \<Rightarrow> json result \<Rightarrow> 'e \<Rightarrow> error option \<times> 'e" where
  "txn_put cli op key blocked raw s =
     (case raw of
        Inl err \<Rightarrow> (Some err, s)
      | Inr raw \<Rightarrow>
          (case et_Txn cli (CreateRevision key op 0) (OpPut key raw) s of
             (Inl err, s) \<Rightarrow> (Some err, s)
           | (Inr succeeded, s) \<Rightarrow> (if succeeded then None else Some blocked, s)))"

definition EtcdStore_CreateDisk :: "('e, json) EtcdClient \<Rightarrow> string \<Rightarrow> DiskRecord \<Rightarrow> 'e \<Rightarrow> error option \<times> 'e" where
  "EtcdStore_CreateDisk cli p r = txn_put cli ''='' (diskKey p (dName r)) ErrAlreadyExists (marshalDisk r)"

definition EtcdStore_UpdateDisk :: "('e, json) EtcdClient \<Rightarrow> string \<Rightarrow> DiskRecord \<Rightarrow> 'e \<Rightarrow> error option \<times> 'e" where
  "EtcdStore_UpdateDisk cli p r = txn_put cli ''>'' (diskKey p (dName r)) ErrNotFound (marshalDisk r)"

definition get_one :: "('e, json) EtcdClient \<Rightarrow> string \<Rightarrow> (json \<Rightarrow> 'a result) \<Rightarrow> 'e \<Rightarrow> 'a result \<times> 'e" where
  "get_one cli key unmarshal s =
     (case et_Get cli key False s of
        (Inl err, s) \<Rightarrow> (Inl err, s)
      | (Inr [], s) \<Rightarrow> (Inl ErrNotFound, s)
      | (Inr (kv # _), s) \<Rightarrow> (unmarshal (snd kv), s))"

definition EtcdStore_GetDisk :: "('e, json) EtcdClient \<Rightarrow> string \<Rightarrow> string \<Rightarrow> 'e \<Rightarrow> DiskRecord result \<times> 'e" where
  "EtcdStore_GetDisk cli p name = get_one cli (diskKey p name) unmarshalDisk"

definition EtcdStore_ListDisks :: "('e, json) EtcdClient \<Rightarrow> string \<Rightarrow> string \<Rightarrow> 'e \<Rightarrow> DiskRecord list result \<times> 'e" where
  "EtcdStore_ListDisks cli p vg s =
     (case et_Get cli (disksPrefix p) True s of
        (Inl err, s) \<Rightarrow> (Inl err, s)
      | (Inr kvs, s) \<Rightarrow>
          (map_sum id (sort_key dName)
            (collect (\<lambda>k e. Wrapf ''decode %s: %w'' [k] e) unmarshalDisk (\<lambda>r. \<not> (vg \<noteq> [] \<and> dVG r \<noteq> vg)) kvs), s))"

definition EtcdStore_DeleteDisk :: "('e, json) EtcdClient \<Rightarrow> string \<Rightarrow> string \<Rightarrow> 'e \<Rightarrow> error option \<times> 'e" where
  "EtcdStore_DeleteDisk cli p name = et_Delete cli (diskKey p name)"

definition EtcdStore_CreateAttachment ::
    "('e, json) EtcdClient \<Rightarrow> string \<Rightarrow> AttachmentRecord \<Rightarrow> 'e \<Rightarrow> error option \<times> 'e" where
  "EtcdStore_CreateAttachment cli p a =
     txn_put cli ''='' (attachKey p (aDiskName a) (aVMName a)) ErrAlreadyExists (marshalAttachment a)"

definition EtcdStore_GetAttachment ::
    "('e, json) EtcdClient \<Rightarrow> string \<Rightarrow> string \<Rightarrow> string \<Rightarrow> 'e \<Rightarrow> AttachmentRecord result \<times> 'e" where
  "EtcdStore_GetAttachment cli p disk vm = get_one cli (attachKey p disk vm) unmarshalAttachment"

definition EtcdStore_ListAttachments ::
    "('e, json) EtcdClient \<Rightarrow> string \<Rightarrow> string \<Rightarrow> string \<Rightarrow> 'e \<Rightarrow> AttachmentRecord list result \<times> 'e" where
  "EtcdStore_ListAttachments cli p disk vm s =
     (let pre = (if disk \<noteq> [] then attachmentsPrefix p @ disk @ ''/'' else attachmentsPrefix p) in
      case et_Get cli pre True s of
        (Inl err, s) \<Rightarrow> (Inl err, s)
      | (Inr kvs, s) \<Rightarrow>
          (map_sum id (sort_key att_key)
            (collect (\<lambda>_ e. e) unmarshalAttachment (\<lambda>a. \<not> (vm \<noteq> [] \<and> aVMName a \<noteq> vm)) kvs), s))"

definition EtcdStore_DeleteAttachment ::
    "('e, json) EtcdClient \<Rightarrow> string \<Rightarrow> string \<Rightarrow> string \<Rightarrow> 'e \<Rightarrow> error option \<times> 'e" where
  "EtcdStore_DeleteAttachment cli p disk vm = et_Delete cli (attachKey p disk vm)"

text \<open>\<open>NewEtcdStore\<close> with all its methods; \<open>Close\<close> does nothing.\<close>

definition etcdStore :: "('e, json) EtcdClient \<Rightarrow> string \<Rightarrow> 'e Store" where
  "etcdStore cli pfx = (let p = etcdPrefix pfx in
     \<lparr>st_CreateDisk = EtcdStore_CreateDisk cli p, st_UpdateDisk = EtcdStore_UpdateDisk cli p,
      st_GetDisk = EtcdStore_GetDisk cli p, st_ListDisks = EtcdStore_ListDisks cli p,
      st_DeleteDisk = EtcdStore_DeleteDisk cli p, st_CreateAttachment = EtcdStore_CreateAttachment cli p,
      st_GetAttachment = EtcdStore_GetAttachment cli p, st_ListAttachments = EtcdStore_ListAttachments cli p,
      st_DeleteAttachment = EtcdStore_DeleteAttachment cli p, st_Close = (\<lambda>s. (None, s))\<rparr>)"

section \<open>What etcd promises\<close>

fun cmp_holds :: "(string \<rightharpoonup> 'w) \<Rightarrow> etcd_cmp \<Rightarrow> bool" where
  "cmp_holds m (CreateRevision k op n) \<longleftrightarrow> n = 0 \<and> (op = ''='' \<and> m k = None \<or> op = ''>'' \<and> m k \<noteq> None)"

fun apply_op :: "'w etcd_op \<Rightarrow> (string \<rightharpoonup> 'w) \<Rightarrow> (string \<rightharpoonup> 'w)" where
  "apply_op (OpPut k v) m = m(k \<mapsto> v)"

text \<open>
  \<open>content s\<close> is the key space. The comparisons are only described for a revision of 0,
  the one the program compares with: a key exists exactly when its create revision is positive.
\<close>

definition txn_law :: "('e, 'w) EtcdClient \<Rightarrow> ('e \<Rightarrow> string \<rightharpoonup> 'w) \<Rightarrow> bool" where
  "txn_law cli content \<longleftrightarrow>
     (\<forall>k op p s r s'. (op = ''='' \<or> op = ''>'') \<longrightarrow> et_Txn cli (CreateRevision k op 0) p s = (r, s') \<longrightarrow>
        (r = Inr True \<longrightarrow> cmp_holds (content s) (CreateRevision k op 0) \<and> content s' = apply_op p (content s))
      \<and> (r = Inr False \<longrightarrow> \<not> cmp_holds (content s) (CreateRevision k op 0) \<and> content s' = content s)
      \<and> (\<forall>x. r = Inl x \<longrightarrow> \<not> sentinel x \<and> (content s' = content s \<or>
            cmp_holds (content s) (CreateRevision k op 0) \<and> content s' = apply_op p (content s))))"

definition get_law :: "('e, 'w) EtcdClient \<Rightarrow> ('e \<Rightarrow> string \<rightharpoonup> 'w) \<Rightarrow> bool" where
  "get_law cli content \<longleftrightarrow>
     (\<forall>k s r s'. et_Get cli k False s = (r, s') \<longrightarrow> content s' = content s \<and>
        (case r of Inl x \<Rightarrow> \<not> sentinel x
         | Inr kvs \<Rightarrow> kvs = (case content s k of None \<Rightarrow> [] | Some v \<Rightarrow> [(k, v)])))
   \<and> (\<forall>k s r s'. et_Get cli k True s = (r, s') \<longrightarrow> content s' = content s \<and>
        (case r of Inl x \<Rightarrow> \<not> sentinel x
         | Inr kvs \<Rightarrow> distinct (map fst kvs) \<and> set kvs = {(k', v). content s k' = Some v \<and> prefix k k'}))"

definition write_law :: "('e, 'w) EtcdClient \<Rightarrow> ('e \<Rightarrow> string \<rightharpoonup> 'w) \<Rightarrow> bool" where
  "write_law cli content \<longleftrightarrow>
     (\<forall>k v s e s'. et_Put cli k v s = (e, s') \<longrightarrow>
        (case e of None \<Rightarrow> content s' = (content s)(k \<mapsto> v)
         | Some x \<Rightarrow> \<not> sentinel x \<and> (content s' = content s \<or> content s' = (content s)(k \<mapsto> v))))
   \<and> (\<forall>k s e s'. et_Delete cli k s = (e, s') \<longrightarrow>
        (case e of None \<Rightarrow> content s' = (content s)(k := None)
         | Some x \<Rightarrow> \<not> sentinel x \<and> (content s' = content s \<or> content s' = (content s)(k := None))))"

definition etcd_laws :: "('e, 'w) EtcdClient \<Rightarrow> ('e \<Rightarrow> string \<rightharpoonup> 'w) \<Rightarrow> bool" where
  "etcd_laws cli content \<longleftrightarrow> txn_law cli content \<and> get_law cli content \<and> write_law cli content"

lemma etcd_txn:
  assumes "etcd_laws cli content" and op: "op = ''='' \<or> op = ''>''"
    and t: "et_Txn cli (CreateRevision k op 0) (OpPut k v) s = (r, s')"
  shows "r = Inr True \<Longrightarrow> ((content s k = None) = (op = ''='')) \<and> content s' = (content s)(k \<mapsto> v)"
    and "r = Inr False \<Longrightarrow> ((content s k = None) \<noteq> (op = ''='')) \<and> content s' = content s"
    and "r = Inl x \<Longrightarrow> \<not> sentinel x \<and> (content s' = content s \<or>
      ((content s k = None) = (op = ''='')) \<and> content s' = (content s)(k \<mapsto> v))"
proof -
  from assms(1) have "txn_law cli content" by (simp add: etcd_laws_def)
  note law = this [unfolded txn_law_def, rule_format, OF op t]
  have yes: "cmp_holds (content s) (CreateRevision k op 0) \<longleftrightarrow> (content s k = None) = (op = ''='')" using op by auto
  show "r = Inr True \<Longrightarrow> ((content s k = None) = (op = ''='')) \<and> content s' = (content s)(k \<mapsto> v)"
    "r = Inr False \<Longrightarrow> ((content s k = None) \<noteq> (op = ''='')) \<and> content s' = content s"
    "r = Inl x \<Longrightarrow> \<not> sentinel x \<and> (content s' = content s \<or>
      ((content s k = None) = (op = ''='')) \<and> content s' = (content s)(k \<mapsto> v))"
    using law by (simp_all only: yes apply_op.simps simp_thms sum.inject sum.distinct)
qed

lemma etcd_get:
  assumes "etcd_laws cli content"
  shows "et_Get cli k False s = (r, s') \<Longrightarrow> content s' = content s \<and>
        (case r of Inl x \<Rightarrow> \<not> sentinel x
         | Inr kvs \<Rightarrow> kvs = (case content s k of None \<Rightarrow> [] | Some v \<Rightarrow> [(k, v)]))"
    and "et_Get cli k True s = (r, s') \<Longrightarrow> content s' = content s \<and>
        (case r of Inl x \<Rightarrow> \<not> sentinel x
         | Inr kvs \<Rightarrow> distinct (map fst kvs) \<and> set kvs = {(k', v). content s k' = Some v \<and> prefix k k'})"
  using assms unfolding etcd_laws_def get_law_def by blast+

lemma etcd_delete:
  assumes "etcd_laws cli content" "et_Delete cli k s = (e, s')"
  shows "case e of None \<Rightarrow> content s' = (content s)(k := None)
         | Some x \<Rightarrow> \<not> sentinel x \<and> (content s' = content s \<or> content s' = (content s)(k := None))"
  using assms unfolding etcd_laws_def write_law_def by blast

section \<open>The contract holds\<close>

text \<open>The key of an attachment separates the disk from the VM when the disk's name has no slash.\<close>

definition etcd_ok :: "string \<Rightarrow> bool" where
  "etcd_ok d \<longleftrightarrow> CHR ''/'' \<notin> set d"

interpretation etcd_keys: att_keys "attachKey p" etcd_ok for p
proof
  fix d d' v v' :: string
  assume "etcd_ok d" "etcd_ok d'"
  then have "cut (CHR ''/'') (d @ ''/'' @ v) = (d, Some v)" "cut (CHR ''/'') (d' @ ''/'' @ v') = (d', Some v')"
    by (simp_all add: etcd_ok_def cut_append)
  then have "d @ ''/'' @ v = d' @ ''/'' @ v' \<longleftrightarrow> d = d' \<and> v = v'" by (metis option.inject prod.inject)
  then show "attachKey p d v = attachKey p d' v' \<longleftrightarrow> d = d' \<and> v = v'" by (simp add: attachKey_def)
qed (simp add: etcd_ok_def)

definition etcd_D :: "('e \<Rightarrow> string \<rightharpoonup> json) \<Rightarrow> string \<Rightarrow> 'e \<Rightarrow> table" where
  "etcd_D content p s n = content s (diskKey p n)"

definition etcd_A :: "('e \<Rightarrow> string \<rightharpoonup> json) \<Rightarrow> string \<Rightarrow> 'e \<Rightarrow> table" where
  "etcd_A content p s k = (if prefix (attachmentsPrefix p) k then content s k else None)"

definition etcd_inv :: "('e \<Rightarrow> string \<rightharpoonup> json) \<Rightarrow> string \<Rightarrow> 'e \<Rightarrow> bool" where
  "etcd_inv content pfx s = (let p = etcdPrefix pfx in
     kv_inv (attachKey p) etcd_ok (etcd_D content p s) (etcd_A content p s))"

definition etcd_cat :: "('e \<Rightarrow> string \<rightharpoonup> json) \<Rightarrow> string \<Rightarrow> 'e \<Rightarrow> Catalog" where
  "etcd_cat content pfx s = (let p = etcdPrefix pfx in
     kv_cat (attachKey p) etcd_ok (etcd_D content p s) (etcd_A content p s))"

lemma etcd_key_prefixes [simp]:
  "\<not> prefix (attachmentsPrefix p) (diskKey p n)"
  "prefix (attachmentsPrefix p) (attachKey p d v)"
  "attachKey p d v \<noteq> diskKey p n"
  "diskKey p n \<noteq> attachKey p d v"
  "diskKey p n = diskKey p n' \<longleftrightarrow> n = n'"
  by (simp_all add: diskKey_def attachKey_def attachmentsPrefix_def)

lemma etcd_tables_same:
  assumes "content s' = content s"
  shows "etcd_D content p s' = etcd_D content p s" "etcd_A content p s' = etcd_A content p s"
  using assms by (simp_all add: etcd_D_def etcd_A_def fun_eq_iff)

lemma etcd_tables_disk:
  assumes "content s' = (content s)(diskKey p n := x)"
  shows "etcd_D content p s' = (etcd_D content p s)(n := x)" "etcd_A content p s' = etcd_A content p s"
  using assms by (auto simp: etcd_D_def etcd_A_def fun_eq_iff)

lemma etcd_tables_att:
  assumes "content s' = (content s)(attachKey p d v := x)"
  shows "etcd_D content p s' = etcd_D content p s" "etcd_A content p s' = (etcd_A content p s)(attachKey p d v := x)"
  using assms by (auto simp: etcd_D_def etcd_A_def fun_eq_iff)

lemma etcd_reads:
  assumes "etcd_inv content pfx s"
  shows "cat_disks (etcd_cat content pfx s) n = None \<longleftrightarrow> content s (diskKey (etcdPrefix pfx) n) = None"
    and "etcd_ok d \<Longrightarrow> cat_atts (etcd_cat content pfx s) (d, v) = None \<longleftrightarrow>
      content s (attachKey (etcdPrefix pfx) d v) = None"
  using etcd_keys.kv_read_disk(2) [OF assms [unfolded etcd_inv_def Let_def], of n]
    etcd_keys.kv_read_att(2) [OF assms [unfolded etcd_inv_def Let_def], of d v]
  by (simp_all add: etcd_cat_def Let_def etcd_D_def etcd_A_def)

lemma etcd_same:
  assumes "content s' = content s"
  shows "etcd_inv content pfx s' = etcd_inv content pfx s" "etcd_cat content pfx s' = etcd_cat content pfx s"
  by (simp_all only: etcd_inv_def etcd_cat_def Let_def etcd_tables_same [of content s' s, OF assms])

text \<open>A guarded put as a transaction, with the cases of its outcome.\<close>

lemma txn_putE:
  assumes laws: "etcd_laws cli content" and op: "op = ''='' \<or> op = ''>''" and raw: "plain raw"
    and run: "txn_put cli op k blocked raw s = (e, s')"
  obtains (put) j where "raw = Inr j" "(content s k = None) = (op = ''='')" "content s' = (content s)(k \<mapsto> j)"
      "e = None \<or> (\<exists>x. e = Some x \<and> \<not> sentinel x)"
  | (refused) "e = Some blocked" "(content s k = None) \<noteq> (op = ''='')" "content s' = content s"
  | (failed) x where "e = Some x" "\<not> sentinel x" "content s' = content s"
proof (cases raw)
  case (Inl err)
  with run have "e = Some err" "s' = s" by (simp_all add: txn_put_def)
  with Inl raw failed show ?thesis by (simp add: plain_def)
next
  case (Inr j)
  obtain r s1 where t: "et_Txn cli (CreateRevision k op 0) (OpPut k j) s = (r, s1)" by fastforce
  note txn = etcd_txn [OF laws op t]
  show ?thesis
  proof (cases r)
    case (Inl x)
    with Inr t run have e: "e = Some x" "s' = s1" by (simp_all add: txn_put_def)
    from txn(3) [OF Inl] have x: "\<not> sentinel x" by blast
    from txn(3) [OF Inl] consider "content s' = content s"
      | "(content s k = None) = (op = ''='')" "content s' = (content s)(k \<mapsto> j)"
      unfolding e by blast
    then show ?thesis
    proof cases
      case 1
      with e x show ?thesis by (intro failed)
    next
      case 2
      with Inr e x show ?thesis by (intro put) auto
    qed
  next
    case (Inr b)
    with \<open>raw = Inr j\<close> t run have "e = (if b then None else Some blocked)" "s' = s1" by (simp_all add: txn_put_def)
    with txn(1,2) Inr \<open>raw = Inr j\<close> show ?thesis by (cases b) (auto intro: put refused)
  qed
qed

lemma etcd_create_disk:
  assumes laws: "etcd_laws cli content" and inv: "etcd_inv content pfx s"
    and run: "EtcdStore_CreateDisk cli (etcdPrefix pfx) r s = (e, s')"
  shows "etcd_inv content pfx s' \<and> write_outcome e ErrAlreadyExists (cat_disks (etcd_cat content pfx s) (dName r) = None)
     (etcd_cat content pfx s) (put_disk r (etcd_cat content pfx s)) (etcd_cat content pfx s')"
proof (cases rule: txn_putE [OF laws _ plain_marshal(1) run [unfolded EtcdStore_CreateDisk_def]])
  case 1
  show ?case by simp
next
  case (2 j)
  have "etcd_inv content pfx s' \<and> etcd_cat content pfx s' = put_disk r (etcd_cat content pfx s)"
    using inv 2 by (simp add: etcd_inv_def etcd_cat_def Let_def etcd_tables_disk [OF 2(3)]
      etcd_keys.kv_inv_writes(1) etcd_keys.kv_cat_writes(1))
  with 2 show ?thesis by (auto simp: etcd_reads(1) [OF inv] sentinel_def)
next
  case 3
  note same = etcd_same [of content s' s pfx, OF 3(3)]
  from 3 inv show ?thesis by (auto simp: etcd_reads(1) [OF inv] same)
next
  case (4 x)
  note same = etcd_same [of content s' s pfx, OF 4(3)]
  from 4 inv show ?thesis by (auto simp: same sentinel_def)
qed

lemma etcd_update_disk:
  assumes laws: "etcd_laws cli content" and inv: "etcd_inv content pfx s"
    and run: "EtcdStore_UpdateDisk cli (etcdPrefix pfx) r s = (e, s')"
  shows "etcd_inv content pfx s' \<and> write_outcome e ErrNotFound (cat_disks (etcd_cat content pfx s) (dName r) \<noteq> None)
     (etcd_cat content pfx s) (put_disk r (etcd_cat content pfx s)) (etcd_cat content pfx s')"
proof (cases rule: txn_putE [OF laws _ plain_marshal(1) run [unfolded EtcdStore_UpdateDisk_def]])
  case 1
  show ?case by simp
next
  case (2 j)
  have "etcd_inv content pfx s' \<and> etcd_cat content pfx s' = put_disk r (etcd_cat content pfx s)"
    using inv 2 by (simp add: etcd_inv_def etcd_cat_def Let_def etcd_tables_disk [OF 2(3)]
      etcd_keys.kv_inv_writes(1) etcd_keys.kv_cat_writes(1))
  with 2 show ?thesis by (auto simp: etcd_reads(1) [OF inv] sentinel_def)
next
  case 3
  note same = etcd_same [of content s' s pfx, OF 3(3)]
  from 3 inv show ?thesis by (auto simp: etcd_reads(1) [OF inv] same)
next
  case (4 x)
  note same = etcd_same [of content s' s pfx, OF 4(3)]
  from 4 inv show ?thesis by (auto simp: same sentinel_def)
qed

lemma etcd_create_att:
  assumes laws: "etcd_laws cli content" and inv: "etcd_inv content pfx s" and ok: "etcd_ok (aDiskName a)"
    and run: "EtcdStore_CreateAttachment cli (etcdPrefix pfx) a s = (e, s')"
  shows "etcd_inv content pfx s' \<and> write_outcome e ErrAlreadyExists (cat_atts (etcd_cat content pfx s) (att_key a) = None)
     (etcd_cat content pfx s) (put_att a (etcd_cat content pfx s)) (etcd_cat content pfx s')"
proof (cases rule: txn_putE [OF laws _ plain_marshal(2) run [unfolded EtcdStore_CreateAttachment_def]])
  case 1
  show ?case by simp
next
  case (2 j)
  have "etcd_inv content pfx s' \<and> etcd_cat content pfx s' = put_att a (etcd_cat content pfx s)"
    using inv ok 2 by (simp add: etcd_inv_def etcd_cat_def Let_def etcd_tables_att [OF 2(3)]
      etcd_keys.kv_inv_writes(3) etcd_keys.kv_cat_writes(3))
  with 2 show ?thesis by (auto simp: etcd_reads(2) [OF inv ok] sentinel_def)
next
  case 3
  note same = etcd_same [of content s' s pfx, OF 3(3)]
  from 3 inv show ?thesis by (auto simp: etcd_reads(2) [OF inv ok] same)
next
  case (4 x)
  note same = etcd_same [of content s' s pfx, OF 4(3)]
  from 4 inv show ?thesis by (auto simp: same sentinel_def)
qed

lemma etcd_delete_disk:
  assumes laws: "etcd_laws cli content" and inv: "etcd_inv content pfx s"
    and run: "EtcdStore_DeleteDisk cli (etcdPrefix pfx) n s = (e, s')"
  shows "etcd_inv content pfx s' \<and> write_outcome e ErrNotFound True
     (etcd_cat content pfx s) (drop_disk n (etcd_cat content pfx s)) (etcd_cat content pfx s')"
proof -
  note del = etcd_delete [OF laws run [unfolded EtcdStore_DeleteDisk_def]]
  have gone: "etcd_inv content pfx s' \<and> etcd_cat content pfx s' = drop_disk n (etcd_cat content pfx s)"
    if "content s' = (content s)(diskKey (etcdPrefix pfx) n := None)"
    using inv by (simp add: etcd_inv_def etcd_cat_def Let_def etcd_tables_disk [OF that]
      etcd_keys.kv_inv_writes(2) etcd_keys.kv_cat_writes(2))
  show ?thesis
  proof (cases e)
    case None
    with del gone show ?thesis by simp
  next
    case (Some x)
    with del have "content s' = content s \<or> content s' = (content s)(diskKey (etcdPrefix pfx) n := None)" "\<not> sentinel x" by simp_all
    with Some gone inv etcd_same [of content s' s pfx] show ?thesis by (auto simp: sentinel_def)
  qed
qed

lemma etcd_delete_att:
  assumes laws: "etcd_laws cli content" and inv: "etcd_inv content pfx s" and ok: "etcd_ok d"
    and run: "EtcdStore_DeleteAttachment cli (etcdPrefix pfx) d v s = (e, s')"
  shows "etcd_inv content pfx s' \<and> write_outcome e ErrNotFound True
     (etcd_cat content pfx s) (drop_att d v (etcd_cat content pfx s)) (etcd_cat content pfx s')"
proof -
  note del = etcd_delete [OF laws run [unfolded EtcdStore_DeleteAttachment_def]]
  have gone: "etcd_inv content pfx s' \<and> etcd_cat content pfx s' = drop_att d v (etcd_cat content pfx s)"
    if "content s' = (content s)(attachKey (etcdPrefix pfx) d v := None)"
    using inv ok by (simp add: etcd_inv_def etcd_cat_def Let_def etcd_tables_att [OF that]
      etcd_keys.kv_inv_writes(4) etcd_keys.kv_cat_writes(4))
  show ?thesis
  proof (cases e)
    case None
    with del gone show ?thesis by simp
  next
    case (Some x)
    with del have "content s' = content s \<or> content s' = (content s)(attachKey (etcdPrefix pfx) d v := None)" "\<not> sentinel x" by simp_all
    with Some gone inv etcd_same [of content s' s pfx] show ?thesis by (auto simp: sentinel_def)
  qed
qed

text \<open>Reading one key: the decoded value, or not found when the key is absent.\<close>

lemma get_one_outcome:
  assumes laws: "etcd_laws cli content" and run: "get_one cli k f s = (x, s')" and f: "\<And>j. plain (f j)"
    and "\<And>j. content s k = Some j \<Longrightarrow> f j = Inr y \<and> v = Some y" "content s k = None \<Longrightarrow> v = None"
  shows "content s' = content s \<and> read_outcome x v"
proof -
  obtain r s1 where g: "et_Get cli k False s = (r, s1)" by fastforce
  note get = etcd_get(1) [OF laws g]
  show ?thesis
  proof (cases r)
    case (Inl e)
    with g run get show ?thesis by (auto simp: get_one_def sentinel_def)
  next
    case (Inr kvs)
    with g run get assms(4,5) show ?thesis by (cases "content s k") (auto simp: get_one_def)
  qed
qed

lemma etcd_get_disk:
  assumes laws: "etcd_laws cli content" and inv: "etcd_inv content pfx s"
    and run: "EtcdStore_GetDisk cli (etcdPrefix pfx) n s = (x, s')"
  shows "etcd_inv content pfx s' \<and> etcd_cat content pfx s' = etcd_cat content pfx s \<and>
     read_outcome x (cat_disks (etcd_cat content pfx s) n)"
proof -
  let ?v = "cat_disks (etcd_cat content pfx s) n"
  have "\<exists>y. unmarshalDisk j = Inr y \<and> ?v = Some y" if "content s (diskKey (etcdPrefix pfx) n) = Some j" for j
    using etcd_keys.kv_read_disk(1) [OF inv [unfolded etcd_inv_def Let_def], of n j] that
    by (simp add: etcd_cat_def Let_def etcd_D_def)
  then have "content s (diskKey (etcdPrefix pfx) n) = Some j \<Longrightarrow> unmarshalDisk j = Inr (the ?v) \<and> ?v = Some (the ?v)" for j
    by fastforce
  from get_one_outcome [OF laws run [unfolded EtcdStore_GetDisk_def] plain_unmarshalDisk this]
  have "content s' = content s \<and> read_outcome x ?v" using etcd_reads(1) [OF inv] by blast
  with inv etcd_same [of content s' s pfx] show ?thesis by simp
qed

lemma etcd_get_att:
  assumes laws: "etcd_laws cli content" and inv: "etcd_inv content pfx s" and ok: "etcd_ok d"
    and run: "EtcdStore_GetAttachment cli (etcdPrefix pfx) d vm s = (x, s')"
  shows "etcd_inv content pfx s' \<and> etcd_cat content pfx s' = etcd_cat content pfx s \<and>
     read_outcome x (cat_atts (etcd_cat content pfx s) (d, vm))"
proof -
  let ?v = "cat_atts (etcd_cat content pfx s) (d, vm)"
  have "\<exists>y. unmarshalAttachment j = Inr y \<and> ?v = Some y" if "content s (attachKey (etcdPrefix pfx) d vm) = Some j" for j
    using etcd_keys.kv_read_att(1) [OF inv [unfolded etcd_inv_def Let_def] ok, of vm j] that
    by (simp add: etcd_cat_def Let_def etcd_A_def)
  then have "content s (attachKey (etcdPrefix pfx) d vm) = Some j \<Longrightarrow>
      unmarshalAttachment j = Inr (the ?v) \<and> ?v = Some (the ?v)" for j
    by fastforce
  from get_one_outcome [OF laws run [unfolded EtcdStore_GetAttachment_def] plain_unmarshalAttachment this]
  have "content s' = content s \<and> read_outcome x ?v" using etcd_reads(2) [OF inv ok] by blast
  with inv etcd_same [of content s' s pfx] show ?thesis by simp
qed

lemma collect_keys: "collect w f keep (map (map_prod h id) kvs) = collect (\<lambda>k. w (h k)) f keep kvs"
proof (induction kvs)
  case (Cons kv kvs)
  then show ?case by (cases kv; cases "f (snd kv)") simp_all
qed simp

lemma collect_any_wrap: "collect w f keep kvs = Inr xs \<Longrightarrow> collect w' f keep kvs = Inr xs"
proof (induction kvs arbitrary: xs)
  case (Cons kv kvs)
  obtain k j where kv: "kv = (k, j)" by fastforce
  with Cons.prems obtain x ys where "f j = Inr x" "collect w f keep kvs = Inr ys" "xs = (if keep x then x # ys else ys)"
    by (auto split: sum.splits)
  with Cons.IH kv show ?case by simp
qed simp

text \<open>Cutting the common prefix off the keys of a prefix read leaves the table under that prefix.\<close>

lemma strip_prefix:
  fixes q :: string
  assumes d: "distinct (map fst kvs)" and kvs: "set kvs = {(k, v). m k = Some v \<and> prefix q k}"
  defines "names \<equiv> map (map_prod (drop (length q)) id) kvs"
  shows "distinct (map fst names) \<and> map_of names = (\<lambda>n. m (q @ n))"
proof
  have key: "q @ drop (length q) k = k" if "(k, v) \<in> set kvs" for k v
    using that unfolding kvs by (auto simp: prefix_def)
  then have "map fst kvs = map ((@) q) (map fst names)" by (auto simp: names_def)
  with d show dn: "distinct (map fst names)" by (metis distinct_map)
  have "(n, v) \<in> set names \<longleftrightarrow> m (q @ n) = Some v" for n v
  proof
    assume "(n, v) \<in> set names"
    then obtain k where k: "(k, v) \<in> set kvs" "n = drop (length q) k" by (auto simp: names_def)
    then have "m k = Some v" "k = q @ n" using key [OF k(1)] by (auto simp: kvs)
    then show "m (q @ n) = Some v" by simp
  next
    assume "m (q @ n) = Some v"
    then have "(q @ n, v) \<in> set kvs" by (simp add: kvs)
    then have "map_prod (drop (length q)) id (q @ n, v) \<in> set names" unfolding names_def set_map by (rule imageI)
    then show "(n, v) \<in> set names" by simp
  qed
  then have "map_of names n = Some v \<longleftrightarrow> m (q @ n) = Some v" for n v using dn by (simp add: map_of_eq_Some_iff)
  then show "map_of names = (\<lambda>n. m (q @ n))" by (intro ext) (metis not_Some_eq)
qed

lemma etcd_list_disks:
  assumes laws: "etcd_laws cli content" and inv: "etcd_inv content pfx s"
    and run: "EtcdStore_ListDisks cli (etcdPrefix pfx) vg s = (xs, s')"
  shows "etcd_inv content pfx s' \<and> etcd_cat content pfx s' = etcd_cat content pfx s \<and>
     (\<forall>ds. xs = Inr ds \<longrightarrow> lists_disks vg (etcd_cat content pfx s) ds)"
proof -
  let ?p = "etcdPrefix pfx"
  let ?q = "disksPrefix ?p"
  let ?keep = "\<lambda>r. \<not> (vg \<noteq> [] \<and> dVG r \<noteq> vg)"
  obtain r s1 where g: "et_Get cli ?q True s = (r, s1)" by fastforce
  note get = etcd_get(2) [OF laws g]
  from g run have s': "s' = s1" by (auto simp: EtcdStore_ListDisks_def split: sum.splits)
  have "lists_disks vg (etcd_cat content pfx s) ds" if xs: "xs = Inr ds" for ds
  proof -
    from xs g run obtain kvs where kvs: "r = Inr kvs" by (cases r) (auto simp: EtcdStore_ListDisks_def)
    let ?names = "map (map_prod (drop (length ?q)) id) kvs"
    have D: "etcd_D content ?p s = (\<lambda>n. content s (?q @ n))"
      by (simp add: fun_eq_iff etcd_D_def diskKey_def disksPrefix_def)
    from get kvs have "distinct (map fst ?names) \<and> map_of ?names = etcd_D content ?p s"
      unfolding D by (intro strip_prefix) simp_all
    then have n: "distinct (map fst ?names)" "map_of ?names = etcd_D content ?p s" by simp_all
    from etcd_keys.kv_lists_disks [OF inv [unfolded etcd_inv_def Let_def] n, of "\<lambda>_ e. e" ?keep]
    obtain out where "collect (\<lambda>_ e. e) unmarshalDisk ?keep kvs = Inr out"
      and out: "sorted_wrt (<) (map dName (sort_key dName out))"
      "set out = {r \<in> ran (cat_disks (etcd_cat content pfx s)). ?keep r}"
      unfolding collect_keys etcd_cat_def Let_def by blast
    from collect_any_wrap [OF this(1)] have "(xs, s') = (Inr (sort_key dName out), s1)"
      using run g kvs by (simp add: EtcdStore_ListDisks_def)
    with xs out show ?thesis by (auto simp: lists_disks_def)
  qed
  with s' get inv etcd_same [of content s' s pfx] show ?thesis by simp
qed

lemma attach_prefix:
  assumes "etcd_ok d" "etcd_ok d'"
  shows "prefix (attachmentsPrefix p @ d @ ''/'') (attachKey p d' v) \<longleftrightarrow> d' = d"
proof
  assume "prefix (attachmentsPrefix p @ d @ ''/'') (attachKey p d' v)"
  then obtain r where "attachKey p d' v = attachKey p d r"
    by (auto simp: prefix_def attachKey_def attachmentsPrefix_def)
  with etcd_keys.key_inject [OF assms(2,1)] show "d' = d" by blast
qed (simp add: attachKey_def attachmentsPrefix_def)

lemma etcd_ran_ok:
  assumes "etcd_inv content pfx s" "a \<in> ran (cat_atts (etcd_cat content pfx s))"
  shows "etcd_ok (aDiskName a)"
proof -
  from assms(2) obtain d v where a: "cat_atts (etcd_cat content pfx s) (d, v) = Some a" by (auto simp: ran_def)
  then have "etcd_ok d" by (auto simp: etcd_cat_def Let_def split: if_splits)
  moreover from a etcd_keys.kv_cat_wf [OF assms(1) [unfolded etcd_inv_def Let_def]] have "att_key a = (d, v)"
    unfolding cat_wf_def etcd_cat_def Let_def by blast
  ultimately show ?thesis by simp
qed

lemma etcd_list_atts:
  assumes laws: "etcd_laws cli content" and inv: "etcd_inv content pfx s" and ok: "etcd_ok d"
    and run: "EtcdStore_ListAttachments cli (etcdPrefix pfx) d vm s = (xs, s')"
  shows "etcd_inv content pfx s' \<and> etcd_cat content pfx s' = etcd_cat content pfx s \<and>
     (\<forall>as. xs = Inr as \<longrightarrow> lists_atts d vm (etcd_cat content pfx s) as)"
proof -
  let ?p = "etcdPrefix pfx"
  let ?q = "if d \<noteq> [] then attachmentsPrefix ?p @ d @ ''/'' else attachmentsPrefix ?p"
  let ?keep = "\<lambda>a. \<not> (vm \<noteq> [] \<and> aVMName a \<noteq> vm)"
  obtain r s1 where g: "et_Get cli ?q True s = (r, s1)" by fastforce
  note get = etcd_get(2) [OF laws g]
  from g run have s': "s' = s1" by (auto simp: EtcdStore_ListAttachments_def Let_def split: sum.splits)
  have "lists_atts d vm (etcd_cat content pfx s) as" if xs: "xs = Inr as" for as
  proof -
    from xs g run obtain kvs where kvs: "r = Inr kvs"
      by (cases r) (auto simp: EtcdStore_ListAttachments_def Let_def)
    have q: "prefix ?q k \<Longrightarrow> prefix (attachmentsPrefix ?p) k" for k by (auto simp: prefix_def split: if_splits)
    have "(k, j) \<in> set kvs \<longleftrightarrow> etcd_A content ?p s k = Some j \<and> prefix ?q k" for k j
      using get kvs q by (auto simp: etcd_A_def)
    from etcd_keys.kv_lists_atts [OF inv [unfolded etcd_inv_def Let_def] _ this, of "\<lambda>_ e. e" ?keep] get kvs
    obtain out where col: "collect (\<lambda>_ e. e) unmarshalAttachment ?keep kvs = Inr out"
      and out: "sorted_wrt (<) (map att_key (sort_key att_key out))"
      "set out = {a \<in> ran (cat_atts (etcd_cat content pfx s)). prefix ?q (attachKey ?p (aDiskName a) (aVMName a)) \<and> ?keep a}"
      unfolding etcd_cat_def Let_def by auto
    have names: "prefix ?q (attachKey ?p (aDiskName a) (aVMName a)) \<longleftrightarrow> d = [] \<or> aDiskName a = d"
      if "a \<in> ran (cat_atts (etcd_cat content pfx s))" for a
      using attach_prefix [OF ok etcd_ran_ok [OF inv that]] by simp
    from col have "(xs, s') = (Inr (sort_key att_key out), s1)"
      using run g kvs by (simp add: EtcdStore_ListAttachments_def Let_def)
    with xs out names show ?thesis by (auto simp: lists_atts_def)
  qed
  with s' get inv etcd_same [of content s' s pfx] show ?thesis by simp
qed

lemma etcdStore_contract:
  assumes "etcd_laws cli content"
  shows "store_contract (etcdStore cli pfx) (etcd_cat content pfx) (etcd_inv content pfx) etcd_ok"
proof (unfold_locales, goal_cases)
  case (1 s)
  then show ?case unfolding etcd_inv_def etcd_cat_def Let_def by (rule etcd_keys.kv_cat_wf)
next
  case (2 s r e s')
  then show ?case by (simp add: etcdStore_def Let_def etcd_create_disk [OF assms] del: not_None_eq)
next
  case (3 s r e s')
  then show ?case by (simp add: etcdStore_def Let_def etcd_update_disk [OF assms] del: not_None_eq)
next
  case (4 s n x s')
  then show ?case by (simp add: etcdStore_def Let_def etcd_get_disk [OF assms] del: not_None_eq)
next
  case (5 s vg xs s')
  then show ?case by (simp add: etcdStore_def Let_def etcd_list_disks [OF assms] del: not_None_eq)
next
  case (6 s n e s')
  then show ?case by (simp add: etcdStore_def Let_def etcd_delete_disk [OF assms] del: not_None_eq)
next
  case (7 s a e s')
  then show ?case by (simp add: etcdStore_def Let_def etcd_create_att [OF assms] del: not_None_eq)
next
  case (8 s d v y s')
  then show ?case by (simp add: etcdStore_def Let_def etcd_get_att [OF assms] del: not_None_eq)
next
  case (9 s d v ys s')
  then show ?case by (simp add: etcdStore_def Let_def etcd_list_atts [OF assms] del: not_None_eq)
next
  case (10 s d v e s')
  then show ?case by (simp add: etcdStore_def Let_def etcd_delete_att [OF assms] del: not_None_eq)
next
  case 11
  show ?case by (rule etcd_keys.ok_Nil)
qed

section \<open>A key space that keeps the laws\<close>

text \<open>An association list whose calls never fail; it evaluates the methods on concrete data.\<close>

definition listEtcd :: "((string \<times> 'w) list, 'w) EtcdClient" where
  "listEtcd = \<lparr>et_Txn = (\<lambda>c p m. case p of OpPut k v \<Rightarrow>
       if cmp_holds (map_of m) c then (Inr True, AList.update k v m) else (Inr False, m)),
     et_Get = (\<lambda>k pre m. (Inr (if pre then filter (\<lambda>(k', _). prefix k k') (AList.clearjunk m)
       else case map_of m k of None \<Rightarrow> [] | Some v \<Rightarrow> [(k, v)]), m)),
     et_Put = (\<lambda>k v m. (None, AList.update k v m)), et_Delete = (\<lambda>k m. (None, AList.delete k m))\<rparr>"

lemma listEtcd_laws: "etcd_laws (listEtcd :: ((string \<times> 'w) list, 'w) EtcdClient) map_of"
proof -
  have "distinct (map fst (filter P (AList.clearjunk m)))" for P and m :: "(string \<times> 'w) list"
    by (rule distinct_map_filter) (rule distinct_clearjunk)
  moreover have "(k, v) \<in> set (AList.clearjunk m) \<longleftrightarrow> map_of m k = Some v" for k v and m :: "(string \<times> 'w) list"
    by (metis distinct_clearjunk map_of_clearjunk map_of_eq_Some_iff)
  ultimately show ?thesis
    by (auto simp: etcd_laws_def txn_law_def get_law_def write_law_def listEtcd_def
        split: etcd_op.splits if_splits option.splits)
qed

end
