(* ===== verification/Cluster.thy ===== *)
theory Cluster
  imports Service_Calls Etcd_Store Go_Float
begin

text \<open>
  The coordination layer, \<open>src/internal/cluster/cluster.go\<close>: the two lockers, the membership
  keys and their listing, the start of a manager and its TLS settings. The etcd client, its
  sessions and mutexes are parameters.
\<close>

section \<open>Lockers\<close>

text \<open>\<open>NoopLocker\<close>: every \<open>Acquire\<close> succeeds at once and the release does nothing.\<close>

definition noopLocker :: "'k Locker" where
  "noopLocker = \<lparr>lk_Acquire = (\<lambda>_ k. (Inr 0, k)), lk_Release = (\<lambda>_ k. k)\<rparr>"

text \<open>
  \<open>concurrency.Mutex\<close> as the program uses it: \<open>Lock\<close> and \<open>Unlock\<close> of the mutex
  with a given key, by a given session.
\<close>

record 'm Mutexes =
  mx_Lock :: "nat \<Rightarrow> string \<Rightarrow> 'm \<Rightarrow> error option \<times> 'm"
  mx_Unlock :: "nat \<Rightarrow> string \<Rightarrow> 'm \<Rightarrow> error option \<times> 'm"

text \<open>
  The state behind \<open>etcdLocker\<close>: the mutexes, and for every release function handed out so
  far the session and key of its mutex and its \<open>released\<close> flag.
\<close>

record 'm LockerState =
  ls_mutexes :: 'm
  ls_handles :: "(nat \<times> string \<times> bool) list"

definition lockKey :: "string \<Rightarrow> string \<Rightarrow> string" where
  "lockKey p vg = p @ ''/locks/vg/'' @ vg"

definition etcdLocker_Acquire :: "'m Mutexes \<Rightarrow> nat \<Rightarrow> string \<Rightarrow> string \<Rightarrow> 'm LockerState
    \<Rightarrow> nat result \<times> 'm LockerState" where
  "etcdLocker_Acquire mx session p vg st =
     (if vg = [] then (Inl (Errorf ''cluster: vg required'' []), st)
      else case mx_Lock mx session (lockKey p vg) (ls_mutexes st) of
        (Some err, m) \<Rightarrow> (Inl (Wrapf ''cluster: lock %s: %w'' [vg] err), st\<lparr>ls_mutexes := m\<rparr>)
      | (None, m) \<Rightarrow>
          (Inr (length (ls_handles st)),
           st\<lparr>ls_mutexes := m, ls_handles := ls_handles st @ [(session, lockKey p vg, False)]\<rparr>))"

definition etcdLocker_release :: "'m Mutexes \<Rightarrow> nat \<Rightarrow> 'm LockerState \<Rightarrow> 'm LockerState" where
  "etcdLocker_release mx h st =
     (if h < length (ls_handles st) then
        (case ls_handles st ! h of (session, key, released) \<Rightarrow>
           if released then st
           else st\<lparr>ls_handles := (ls_handles st)[h := (session, key, True)],
                  ls_mutexes := snd (mx_Unlock mx session key (ls_mutexes st))\<rparr>)
      else st)"

definition etcdLocker :: "'m Mutexes \<Rightarrow> nat \<Rightarrow> string \<Rightarrow> 'm LockerState Locker" where
  "etcdLocker mx session p =
     \<lparr>lk_Acquire = etcdLocker_Acquire mx session p, lk_Release = etcdLocker_release mx\<rparr>"

text \<open>
  What etcd promises of its mutexes while no lease expires: a key has one owning session at a
  time. A session that already owns the key may lock it again, so the promise is one between
  sessions, that is, between nodes.
\<close>

definition mutex_laws :: "'m Mutexes \<Rightarrow> ('m \<Rightarrow> string \<rightharpoonup> nat) \<Rightarrow> bool" where
  "mutex_laws mx owner \<longleftrightarrow>
     (\<forall>i k m e m'. mx_Lock mx i k m = (e, m') \<longrightarrow>
        (case e of None \<Rightarrow> (owner m k = None \<or> owner m k = Some i) \<and> owner m' = (owner m)(k \<mapsto> i)
         | Some _ \<Rightarrow> owner m' = owner m))
   \<and> (\<forall>i k m e m'. mx_Unlock mx i k m = (e, m') \<longrightarrow>
        owner m' = owner m \<or> owner m k = Some i \<and> owner m' = (owner m)(k := None))"

lemma release_idempotent:
  "etcdLocker_release mx h (etcdLocker_release mx h st) = etcdLocker_release mx h st"
  by (auto simp: etcdLocker_release_def split: prod.splits)

lemma lockKey_inject [simp]: "lockKey p vg = lockKey p vg' \<longleftrightarrow> vg = vg'"
  by (simp add: lockKey_def)

section \<open>TLS\<close>

text \<open>
  \<open>buildTLSConfig\<close>, and \<open>LoadServerTLS\<close> of the server, read key material from files; the
  readers are parameters, certificates and pools are opaque.
\<close>

record TLSFiles =
  tf_Cert :: string
  tf_Key :: string
  tf_CA :: string

record ('cert, 'pool) TLSConf =
  tc_Certificate :: "'cert option"
  tc_RootCAs :: "'pool option"

definition buildTLSConfig :: "(string \<Rightarrow> string \<Rightarrow> 'cert result) \<Rightarrow> (string \<Rightarrow> string result) \<Rightarrow> (string \<Rightarrow> 'pool option)
    \<Rightarrow> TLSFiles \<Rightarrow> ('cert, 'pool) TLSConf option result" where
  "buildTLSConfig loadPair readFile appendPEM cfg =
     (if tf_Cert cfg = [] \<and> tf_Key cfg = [] \<and> tf_CA cfg = [] then Inr None
      else let conf = \<lparr>tc_Certificate = None, tc_RootCAs = None\<rparr> in
      case (if tf_Cert cfg \<noteq> [] \<or> tf_Key cfg \<noteq> []
            then (case loadPair (tf_Cert cfg) (tf_Key cfg) of
                    Inl err \<Rightarrow> Inl (Wrapf ''cluster: load tls keypair: %w'' [] err)
                  | Inr cert \<Rightarrow> Inr (conf\<lparr>tc_Certificate := Some cert\<rparr>))
            else Inr conf) of
        Inl err \<Rightarrow> Inl err
      | Inr conf \<Rightarrow>
          if tf_CA cfg \<noteq> [] then
            (case readFile (tf_CA cfg) of
               Inl err \<Rightarrow> Inl (Wrapf ''cluster: read ca: %w'' [] err)
             | Inr caBytes \<Rightarrow>
                 (case appendPEM caBytes of
                    None \<Rightarrow> Inl (Errorf ''cluster: no PEM blocks in ca file'' [])
                  | Some pool \<Rightarrow> Inr (Some (conf\<lparr>tc_RootCAs := Some pool\<rparr>))))
          else Inr (Some conf))"

section \<open>The manager\<close>

record ClusterOptions =
  co_Endpoints :: "string list"
  co_NodeID :: string
  co_Prefix :: string
  co_LockTTL :: int
  co_DialTimeout :: int
  co_TLS :: TLSFiles
  co_Version :: string

record Manager =
  mg_prefix :: string
  mg_nodeID :: string

definition nodesPrefix :: "Manager \<Rightarrow> string" where
  "nodesPrefix m = mg_prefix m @ ''/nodes/''"

definition nodeKey :: "Manager \<Rightarrow> string" where
  "nodeKey m = nodesPrefix m @ mg_nodeID m"

text \<open>\<open>Duration.Seconds\<close> of a positive duration in nanoseconds, converted to \<open>int\<close>.\<close>

definition whole_seconds :: "int \<Rightarrow> int" where
  "whole_seconds d = \<lfloor>rnd64 (of_int (d div 1000000000) + rnd64 (of_int (d mod 1000000000) / 1000000000))\<rfloor>"

text \<open>
  The calls of the etcd packages, on a state \<open>'n\<close>: dialling, opening a session with a TTL in
  seconds, a put under the session's lease, and closing both.
\<close>

record ('n, 'cert, 'pool) EtcdLib =
  lib_New :: "string list \<Rightarrow> int \<Rightarrow> ('cert, 'pool) TLSConf option \<Rightarrow> 'n \<Rightarrow> error option \<times> 'n"
  lib_NewSession :: "int \<Rightarrow> 'n \<Rightarrow> error option \<times> 'n"
  lib_PutLeased :: "string \<Rightarrow> string \<Rightarrow> 'n \<Rightarrow> error option \<times> 'n"
  lib_CloseSession :: "'n \<Rightarrow> 'n"
  lib_CloseClient :: "'n \<Rightarrow> 'n"

definition registerNode :: "('n, 'cert, 'pool) EtcdLib \<Rightarrow> string \<Rightarrow> Manager \<Rightarrow> string \<Rightarrow> 'n \<Rightarrow> error option \<times> 'n" where
  "registerNode lib host m version s =
     (case lib_PutLeased lib (nodeKey m) (host @ ''|'' @ version) s of
        (Some err, s) \<Rightarrow> (Some (Wrapf ''cluster: register node: %w'' [] err), s)
      | (None, s) \<Rightarrow> (None, s))"

definition cluster_defaults :: "ClusterOptions \<Rightarrow> ClusterOptions" where
  "cluster_defaults opts =
     (let opts = (if co_Prefix opts = [] then opts\<lparr>co_Prefix := ''/sltv''\<rparr> else opts);
          opts = (if co_LockTTL opts \<le> 0 then opts\<lparr>co_LockTTL := 10 * 1000000000\<rparr> else opts)
      in (if co_DialTimeout opts \<le> 0 then opts\<lparr>co_DialTimeout := 5 * 1000000000\<rparr> else opts))"

definition NewManager :: "('n, 'cert, 'pool) EtcdLib \<Rightarrow> (TLSFiles \<Rightarrow> ('cert, 'pool) TLSConf option result) \<Rightarrow> string
    \<Rightarrow> ClusterOptions \<Rightarrow> 'n \<Rightarrow> Manager result \<times> 'n" where
  "NewManager lib tls host opts s =
     (if co_Endpoints opts = [] then (Inl (Errorf ''cluster: at least one etcd endpoint is required'' []), s)
      else if co_NodeID opts = [] then (Inl (Errorf ''cluster: node id is required'' []), s)
      else let opts = cluster_defaults opts in
      case tls (co_TLS opts) of
        Inl err \<Rightarrow> (Inl err, s)
      | Inr tlsConf \<Rightarrow>
          (case lib_New lib (co_Endpoints opts) (co_DialTimeout opts) tlsConf s of
             (Some err, s) \<Rightarrow> (Inl (Wrapf ''cluster: etcd dial: %w'' [] err), s)
           | (None, s) \<Rightarrow>
               (case lib_NewSession lib (whole_seconds (co_LockTTL opts)) s of
                  (Some err, s) \<Rightarrow> (Inl (Wrapf ''cluster: session: %w'' [] err), lib_CloseClient lib s)
                | (None, s) \<Rightarrow>
                    let m = \<lparr>mg_prefix = TrimRight (co_Prefix opts) (CHR ''/''), mg_nodeID = co_NodeID opts\<rparr> in
                    (case registerNode lib host m (co_Version opts) s of
                       (Some err, s) \<Rightarrow> (Inl err, lib_CloseClient lib (lib_CloseSession lib s))
                     | (None, s) \<Rightarrow> (Inr m, s)))))"

text \<open>\<open>ListNodes\<close>; \<open>path.Base\<close> of a key is its last element.\<close>

record NodeInfo =
  ni_ID :: string
  ni_Endpoint :: string

definition path_Base :: "string \<Rightarrow> string" where
  "path_Base s =
     (if s = [] then ''.''
      else let t = TrimRight s (CHR ''/'') in
      if t = [] then ''/'' else last (Split (CHR ''/'') t))"

definition ListNodes :: "('e, string) EtcdClient \<Rightarrow> Manager \<Rightarrow> 'e \<Rightarrow> NodeInfo list result \<times> 'e" where
  "ListNodes cli m s =
     (case et_Get cli (nodesPrefix m) True s of
        (Inl err, s) \<Rightarrow> (Inl err, s)
      | (Inr kvs, s) \<Rightarrow>
          (Inr (sort_key ni_ID (map (\<lambda>(k, v). \<lparr>ni_ID = path_Base k, ni_Endpoint = v\<rparr>) kvs)), s))"

end
