(* ===== verification/Handler_Order.thy ===== *)
theory Handler_Order
  imports Call_Traces Disk_Service
begin

text \<open>
  The order of the steps of each handler of \<open>src/internal/disk/disk.go\<close> and what it undoes
  when a later step fails, whatever the interfaces answer. Each handler has a monitor whose
  state is what the handler has done so far; a call the monitor does not list is forbidden to
  the handler altogether.
\<close>

section \<open>Creation and its rollback\<close>

text \<open>
  \<open>cm_lv\<close>: the volume this handler created and has not removed; \<open>cm_tmp\<close>: the
  qcow2 file it created and has not removed; \<open>cm_row\<close>: the record it stored.
\<close>

record create_state =
  cm_lv :: "(string \<times> string \<times> u64) option"
  cm_tmp :: "string option"
  cm_row :: "DiskRecord option"

definition create_start :: create_state where
  "create_start = \<lparr>cm_lv = None, cm_tmp = None, cm_row = None\<rparr>"

fun create_monitor :: "create_state monitor" where
  "create_monitor g (EvAct (CreateLV vg n sz) e) =
     (if cm_lv g \<noteq> None then None
      else Some (if e = None then g\<lparr>cm_lv := Some (vg, n, sz)\<rparr> else g))"
| "create_monitor g (EvAct (CreateQcow2 p sz) e) =
     (if cm_lv g = None \<or> cm_tmp g \<noteq> None then None
      else Some (if e = None then g\<lparr>cm_tmp := Some p\<rparr> else g))"
| "create_monitor g (EvAct (DDOver p dev) e) =
     (case cm_lv g of
        Some (vg, n, _) \<Rightarrow> if cm_tmp g = Some p \<and> dev = DevicePath vg n \<and> cm_row g = None then Some g else None
      | None \<Rightarrow> None)"
| "create_monitor g (EvAct (RemoveFile p) e) =
     (if cm_tmp g = Some p then Some (g\<lparr>cm_tmp := None\<rparr>) else None)"
| "create_monitor g (EvAct (CreateDisk r) e) =
     (case cm_lv g of
        Some (vg, n, sz) \<Rightarrow>
          if dVG r = vg \<and> dName r = n \<and> dSizeBytes r = sz \<and> cm_row g = None
          then Some (if e = None then g\<lparr>cm_row := Some r\<rparr> else g) else None
      | None \<Rightarrow> None)"
| "create_monitor g (EvAct (RemoveLV vg n) e) =
     (case cm_lv g of
        Some (vg', n', _) \<Rightarrow> if vg = vg' \<and> n = n' \<and> cm_row g = None then Some (g\<lparr>cm_lv := None\<rparr>) else None
      | None \<Rightarrow> None)"
| "create_monitor g (EvAct _ _) = None"
| "create_monitor g _ = Some g"

text \<open>
  After success, the volume with the requested size and the returned record are there; after
  an error, the volume has been handed back and nothing is stored. No temporary file is left.
\<close>

fun create_end :: "CreateInput \<Rightarrow> DiskRecord result \<Rightarrow> create_state \<Rightarrow> bool" where
  "create_end inp (Inr r) g = (g = \<lparr>cm_lv = Some (ci_VG inp, ci_Name inp, ci_SizeBytes inp),
     cm_tmp = None, cm_row = Some r\<rparr>)"
| "create_end inp (Inl e) g = (g = create_start)"

lemma persistDisk_order:
  "safe create_monitor (persistDisk sv inp)
     \<lparr>cm_lv = Some (ci_VG inp, ci_Name inp, ci_SizeBytes inp), cm_tmp = t, cm_row = None\<rparr>
     (\<lambda>x g. create_end inp x (g\<lparr>cm_tmp := None\<rparr>) \<and> cm_tmp g = t)"
  by (simp add: persistDisk_def safe_simps reply_cases Let_def newDiskRecord_def create_start_def)

lemma cm_tmp_same: "cm_tmp g = None \<Longrightarrow> g\<lparr>cm_tmp := None\<rparr> = g"
  by (cases g) simp

lemma CreateDisk_order:
  assumes "normaliseCreate sv inp = Inr inp'"
  shows "safe create_monitor (Service_CreateDisk sv inp) create_start (create_end inp')"
  using assms
  by (auto simp: Service_CreateDisk_def makeQcow2Header_def safe_simps reply_cases Let_def create_start_def
      cm_tmp_same
      intro!: safe_mono [OF persistDisk_order])

section \<open>Deletion\<close>

text \<open>
  \<open>dm_left\<close>: the listed attachments not yet undone; \<open>dm_out\<close>: the head of that list
  has been unplugged from its domain; \<open>dm_gone\<close>: the volume has been removed.
\<close>

record delete_state =
  dm_left :: "AttachmentRecord list"
  dm_out :: bool
  dm_listed :: bool
  dm_gone :: bool
  dm_row :: bool

definition delete_start :: delete_state where
  "delete_start = \<lparr>dm_left = [], dm_out = False, dm_listed = False, dm_gone = False, dm_row = True\<rparr>"

fun delete_monitor :: "string \<Rightarrow> delete_state monitor" where
  "delete_monitor n g (EvListAttachments d v r) =
     (case r of Inl _ \<Rightarrow> Some g | Inr as \<Rightarrow>
        if d = n \<and> v = [] \<and> \<not> dm_listed g then Some (g\<lparr>dm_left := as, dm_listed := True\<rparr>) else None)"
| "delete_monitor n g (EvAct (DetachDisk vm dev) e) =
     (case dm_left g of
        a # _ \<Rightarrow> if vm = aVMName a \<and> dev = aTargetDev a \<and> \<not> dm_out g
                 then Some (if e = None then g\<lparr>dm_out := True\<rparr> else g) else None
      | [] \<Rightarrow> None)"
| "delete_monitor n g (EvAct (DeleteAttachment d vm) e) =
     (case dm_left g of
        a # as \<Rightarrow> if d = aDiskName a \<and> vm = aVMName a \<and> dm_out g
                  then Some (if e = None then g\<lparr>dm_left := as, dm_out := False\<rparr> else g) else None
      | [] \<Rightarrow> None)"
| "delete_monitor n g (EvAct (RemoveLV vg m) e) =
     (if dm_listed g \<and> dm_left g = [] \<and> \<not> dm_gone g
      then Some (if e = None then g\<lparr>dm_gone := True\<rparr> else g) else None)"
| "delete_monitor n g (EvAct (DeleteDisk m) e) =
     (if dm_gone g \<and> m = n then Some (if e = None then g\<lparr>dm_row := False\<rparr> else g) else None)"
| "delete_monitor n g (EvAct _ _) = None"
| "delete_monitor n g _ = Some g"

lemma detachAll_order:
  "safe (delete_monitor n) (detachAll as) (g\<lparr>dm_left := as, dm_out := False\<rparr>)
     (\<lambda>e g'. e = None \<longrightarrow> g' = g\<lparr>dm_left := [], dm_out := False\<rparr>)"
  by (induction as) (simp_all add: safe_simps detachLocked_def reply_cases)

lemma detachAll_from_start:
  "safe (delete_monitor n) (detachAll as) (delete_start\<lparr>dm_left := as, dm_listed := True\<rparr>)
     (\<lambda>e g'. e = None \<longrightarrow> g' = delete_start\<lparr>dm_listed := True\<rparr>)"
  using detachAll_order [of n as "delete_start\<lparr>dm_listed := True\<rparr>"] by (simp add: delete_start_def)

lemma DeleteDisk_order:
  "safe (delete_monitor n) (Service_DeleteDisk n force) delete_start
     (\<lambda>e g. e = None \<longrightarrow> dm_left g = [] \<and> dm_gone g \<and> \<not> dm_row g)"
  by (auto simp: Service_DeleteDisk_def safe_simps reply_cases delete_start_def
      intro!: safe_mono [OF detachAll_from_start [unfolded delete_start_def, simplified]] split: option.split)

section \<open>Attaching\<close>

text \<open>\<open>am_plugged\<close>: the domain and device this handler plugged and has not unplugged.\<close>

record attach_state =
  am_plugged :: "(string \<times> string) option"
  am_row :: "AttachmentRecord option"

definition attach_start :: attach_state where
  "attach_start = \<lparr>am_plugged = None, am_row = None\<rparr>"

fun attach_monitor :: "attach_state monitor" where
  "attach_monitor g (EvAct (AttachDisk vm spec) e) =
     (if am_plugged g \<noteq> None then None
      else Some (if e = None then g\<lparr>am_plugged := Some (vm, sp_TargetDev spec)\<rparr> else g))"
| "attach_monitor g (EvAct (CreateAttachment a) e) =
     (if am_plugged g = Some (aVMName a, aTargetDev a) \<and> am_row g = None
      then Some (if e = None then g\<lparr>am_row := Some a\<rparr> else g) else None)"
| "attach_monitor g (EvAct (DetachDisk vm dev) e) =
     (if am_plugged g = Some (vm, dev) \<and> am_row g = None then Some (g\<lparr>am_plugged := None\<rparr>) else None)"
| "attach_monitor g (EvAct _ _) = None"
| "attach_monitor g _ = Some g"

fun attach_end :: "AttachInput \<Rightarrow> AttachmentRecord result \<Rightarrow> attach_state \<Rightarrow> bool" where
  "attach_end inp (Inr a) g = (g = \<lparr>am_plugged = Some (aVMName a, aTargetDev a), am_row = Some a\<rparr>
     \<and> aVMName a = ai_VMName inp \<and> (ai_TargetDev inp \<noteq> [] \<longrightarrow> aTargetDev a = ai_TargetDev inp))"
| "attach_end inp (Inl e) g = (g = attach_start)"

lemma plugDisk_order:
  "vm = ai_VMName inp \<Longrightarrow> (ai_TargetDev inp \<noteq> [] \<Longrightarrow> dev = ai_TargetDev inp) \<Longrightarrow>
    safe attach_monitor (plugDisk sv rec vm dev) attach_start (attach_end inp)"
  by (simp add: plugDisk_def safe_simps reply_cases Let_def attach_start_def attach_spec_def)

lemma AttachDisk_order: "safe attach_monitor (Service_AttachDisk sv inp) attach_start (attach_end inp)"
  by (auto simp: Service_AttachDisk_def reply_cases intro!: plugDisk_order split: bool.split)

section \<open>Extension\<close>

text \<open>\<open>xm_grown\<close>: \<open>lvextend\<close> has succeeded; \<open>xm_row\<close>: the record stored after it.\<close>

record extend_state =
  xm_grown :: bool
  xm_row :: "DiskRecord option"

definition extend_start :: extend_state where
  "extend_start = \<lparr>xm_grown = False, xm_row = None\<rparr>"

fun lv_grows :: "extend_state \<Rightarrow> error option \<Rightarrow> extend_state option" where
  "lv_grows g e = (if xm_grown g then None else Some (g\<lparr>xm_grown := (e = None)\<rparr>))"

fun extend_monitor :: "extend_state monitor" where
  "extend_monitor g (EvAct (ExtendLVAbsolute vg n sz) e) = lv_grows g e"
| "extend_monitor g (EvAct (ExtendLVDelta vg n d) e) = lv_grows g e"
| "extend_monitor g (EvAct (ExtendLVPercent vg n pc) e) = lv_grows g e"
| "extend_monitor g (EvAct (UpdateDisk r) e) =
     (if xm_grown g \<and> xm_row g = None then Some (if e = None then g\<lparr>xm_row := Some r\<rparr> else g) else None)"
| "extend_monitor g (EvAct (BlockResize vm dev sz) e) =
     (case xm_row g of Some r \<Rightarrow> if sz = dSizeBytes r then Some g else None | None \<Rightarrow> None)"
| "extend_monitor g (EvAct _ _) = None"
| "extend_monitor g _ = Some g"

fun extend_end :: "DiskRecord result \<Rightarrow> extend_state \<Rightarrow> bool" where
  "extend_end (Inr r) g = (g = \<lparr>xm_grown = True, xm_row = Some r\<rparr>)"
| "extend_end (Inl e) g = (xm_row g = None)"

lemma resizeAll_order:
  "xm_row g = Some r \<Longrightarrow> dSizeBytes r = sz \<Longrightarrow> safe extend_monitor p g Q \<Longrightarrow>
    safe extend_monitor (resizeAll as sz p) g Q"
  by (induction as) (simp_all add: safe_simps)

lemma recordExtended_order:
  "safe extend_monitor (recordExtended rec sz) \<lparr>xm_grown = True, xm_row = None\<rparr> extend_end"
  by (simp add: recordExtended_def reply_cases Let_def resizeAll_order)

lemma ExtendDisk_order: "safe extend_monitor (Service_ExtendDisk inp) extend_start extend_end"
  by (auto simp: Service_ExtendDisk_def safe_simps reply_cases extend_start_def
      intro!: safe_mono [OF recordExtended_order])

lemma ExtendByPercent_order: "safe extend_monitor (Service_ExtendByPercent n pc) extend_start extend_end"
  by (auto simp: Service_ExtendByPercent_def safe_simps reply_cases extend_start_def
      intro!: safe_mono [OF recordExtended_order])

end
