(* ===== verification/Sample_Service.thy ===== *)
theory Sample_Service
  imports Disk_Correctness Cluster Handler_Order
begin

text \<open>
  A service on which the statements of the development are evaluated: the in-memory store, the
  fake libvirt client, no locking, and an lvm and a qemu-img that accept every command and keep
  a log of them.
\<close>

definition logRunner :: "(string \<times> string list) list Runner" where
  "logRunner name args lg = (([], None), lg @ [(name, args)])"

definition logQemu :: "string list QemuImgRunner" where
  "logQemu = \<lparr>qi_CreateQcow2 = (\<lambda>p sz lg. (None, lg @ [''create '' @ p])),
     qi_DDOver = (\<lambda>a b lg. (None, lg @ [''dd '' @ a])),
     qi_RemoveFile = (\<lambda>p lg. (None, lg @ [''rm '' @ p]))\<rparr>"

type_synonym sample_service =
  "((string \<times> string list) list, FakeClient, MemoryStore, unit, string list) Service"
type_synonym sample_world =
  "((string \<times> string list) list, FakeClient, MemoryStore, unit, string list) World"

definition sample :: sample_service where
  "sample = \<lparr>sv_LVM = logRunner, sv_Libvirt = fakeClient, sv_Store = memoryStore, sv_Locker = noopLocker,
     sv_QemuImg = logQemu, sv_DefaultVG = ''vg0'', sv_DefaultThinInitial = 8, sv_NodeID = ''n1'',
     sv_TempDir = ''/tmp'', sv_Now = int, sv_UnixNano = int\<rparr>"

definition empty_world :: sample_world where
  "empty_world = \<lparr>w_lvm = [], w_virt = NewFakeClient [''vm1''], w_store = NewMemoryStore, w_lock = (), w_qemu = [],
     w_reads = 0\<rparr>"

definition thick_input :: CreateInput where
  "thick_input = \<lparr>ci_Name = ''d1'', ci_VG = [], ci_Mode = ProvisionThick, ci_SizeBytes = 8, ci_VirtualSizeBytes = 0\<rparr>"

definition thin_input :: CreateInput where
  "thin_input = \<lparr>ci_Name = ''t1'', ci_VG = ''vg1'', ci_Mode = ProvisionThin, ci_SizeBytes = 0,
     ci_VirtualSizeBytes = 80\<rparr>"

definition attach_input :: AttachInput where
  "attach_input = \<lparr>ai_DiskName = ''d1'', ai_VMName = ''vm1'', ai_TargetDev = []\<rparr>"

definition extend_input :: ExtendInput where
  "extend_input = \<lparr>ei_Name = ''d1'', ei_SizeBytes = 0, ei_DeltaBytes = 8\<rparr>"

text \<open>A world with one disk, and one with that disk attached.\<close>

definition disk_world :: sample_world where
  "disk_world = snd (run sample (Service_CreateDisk sample thick_input) empty_world)"

definition attached_world :: sample_world where
  "attached_world = snd (run sample (Service_AttachDisk sample attach_input) disk_world)"

lemma sample_store [simp]: "sv_Store sample = memoryStore"
  by (simp add: sample_def)

lemma sample_contract: "store_contract (sv_Store sample) mem_cat mem_inv mem_ok"
  unfolding sample_store by (rule mem.store_contract_axioms)

lemma sample_reliable: "reliable_store (sv_Store sample) mem_cat mem_inv mem_ok"
  unfolding sample_store by (rule mem.reliable_store_axioms)

lemma empty_world_good [simp]: "mem_inv (w_store empty_world)"
  by (simp add: empty_world_def)

definition d1_record :: DiskRecord where
  "d1_record = newDiskRecord sample \<lparr>ci_Name = ''d1'', ci_VG = ''vg0'', ci_Mode = ProvisionThick,
     ci_SizeBytes = 8, ci_VirtualSizeBytes = 8\<rparr> 0"

definition d1_attachment :: AttachmentRecord where
  "d1_attachment = \<lparr>aDiskName = ''d1'', aVMName = ''vm1'', aHost = ''n1'', aTargetDev = ''vdb'', aAttachedAt = 1\<rparr>"

lemma sample_create: "run sample (Service_CreateDisk sample thick_input) empty_world = (Inr d1_record, disk_world)"
  by code_simp

lemma sample_attach: "run sample (Service_AttachDisk sample attach_input) disk_world = (Inr d1_attachment, attached_world)"
  by code_simp

lemma disk_world_store:
  "w_store disk_world = \<lparr>ms_disks = [(''d1'', d1_record)], ms_attachments = []\<rparr>"
  by code_simp

lemma attached_world_store:
  "w_store attached_world = \<lparr>ms_disks = [(''d1'', d1_record)], ms_attachments = [(''d1|vm1'', d1_attachment)]\<rparr>"
  by code_simp

lemma sample_worlds_good [simp]: "mem_inv (w_store disk_world)" "mem_inv (w_store attached_world)"
  by (simp_all add: disk_world_store attached_world_store mem_inv_def gomap_ok_def d1_record_def d1_attachment_def
      newDiskRecord_def AttachmentKey_def mem_ok_def)

lemma d1_record_ok: "disk_ok d1_record" "dName d1_record = ''d1''"
  by code_simp+

lemma sample_catalogs_ok:
  "catalog_ok mem_ok (mem_cat (w_store empty_world))"
  "catalog_ok mem_ok (mem_cat (w_store disk_world))"
  "catalog_ok mem_ok (mem_cat (w_store attached_world))"
proof -
  show c0: "catalog_ok mem_ok (mem_cat (w_store empty_world))"
    by (simp add: catalog_ok_def empty_world_def NewMemoryStore_def)
  have "create_effect False sample thick_input (mem_cat (w_store empty_world)) (Inr d1_record) (mem_cat (w_store disk_world))"
    using store_contract.handler_outcome [OF sample_contract refl empty_world_good sample_create CreateDisk_catalog] by blast
  from effects_keep_catalog_ok(1) [OF c0 _ this] show c1: "catalog_ok mem_ok (mem_cat (w_store disk_world))"
    by (simp add: thick_input_def mem_ok_def)
  have "attach_effect False attach_input (mem_cat (w_store disk_world)) (Inr d1_attachment) (mem_cat (w_store attached_world))"
    using store_contract.handler_outcome [OF sample_contract refl sample_worlds_good(1) sample_attach AttachDisk_catalog [OF c1 mem.ok_Nil]]
    by blast
  from effects_keep_catalog_ok(3) [OF c1 this] show "catalog_ok mem_ok (mem_cat (w_store attached_world))" .
qed

end
