(* ===== verification/Lock_Discipline.thy ===== *)
theory Lock_Discipline
  imports Call_Traces Disk_Service
begin

text \<open>
  What the handlers of \<open>src/internal/disk/disk.go\<close> do whatever lvm, libvirt, the store, the
  locker and qemu-img answer: the per-VG locking discipline, as a monitor over their calls.
\<close>

section \<open>The locking discipline\<close>

text \<open>
  The monitor state is the lock the handler holds: its handle and the volume group. A call to
  lvm needs the lock of the volume group it names, and a write of the disk table needs the lock
  of the record's volume group; a handler holds at most one lock, and releases only that one.
\<close>

fun needs_lock :: "act \<Rightarrow> string \<Rightarrow> bool" where
  "needs_lock (CreateLV vg _ _) held = (held = vg)"
| "needs_lock (RemoveLV vg _) held = (held = vg)"
| "needs_lock (ExtendLVAbsolute vg _ _) held = (held = vg)"
| "needs_lock (ExtendLVDelta vg _ _) held = (held = vg)"
| "needs_lock (ExtendLVPercent vg _ _) held = (held = vg)"
| "needs_lock (CreateDisk r) held = (held = dVG r)"
| "needs_lock (UpdateDisk r) held = (held = dVG r)"
| "needs_lock _ held = True"

fun writes_volume :: "act \<Rightarrow> bool" where
  "writes_volume (CreateLV _ _ _) = True"
| "writes_volume (RemoveLV _ _) = True"
| "writes_volume (ExtendLVAbsolute _ _ _) = True"
| "writes_volume (ExtendLVDelta _ _ _) = True"
| "writes_volume (ExtendLVPercent _ _ _) = True"
| "writes_volume (CreateDisk _) = True"
| "writes_volume (UpdateDisk _) = True"
| "writes_volume (DeleteDisk _) = True"
| "writes_volume _ = False"

fun lock_monitor :: "(nat \<times> string) option monitor" where
  "lock_monitor g (EvAct a _) =
     (case g of
        None \<Rightarrow> if writes_volume a then None else Some g
      | Some (h, vg) \<Rightarrow> if needs_lock a vg then Some g else None)"
| "lock_monitor g (EvAcquire vg r) =
     (if g \<noteq> None then None else case r of Inl _ \<Rightarrow> Some None | Inr h \<Rightarrow> Some (Some (h, vg)))"
| "lock_monitor g (EvRelease h) =
     (case g of None \<Rightarrow> None | Some (h', _) \<Rightarrow> if h = h' then Some None else None)"
| "lock_monitor g _ = Some g"

definition disciplined :: "'a proc \<Rightarrow> bool" where
  "disciplined p \<longleftrightarrow> safe lock_monitor p None (\<lambda>_ g. g = None)"

lemma disciplined_run: "disciplined p \<Longrightarrow> monitors lock_monitor None (events sv p w) = Some None"
  using safe_run [of lock_monitor p None "\<lambda>_ g. g = None" sv w]
  by (cases "monitors lock_monitor None (events sv p w)") (simp_all add: disciplined_def)

lemma persistDisk_locked:
  "safe lock_monitor (persistDisk sv inp) (Some (h, ci_VG inp)) (\<lambda>_ g. g = Some (h, ci_VG inp))"
  by (simp add: persistDisk_def safe_simps reply_cases newDiskRecord_def Let_def)

lemma detachLocked_lock:
  "Q None g \<Longrightarrow> (\<And>e. Q (Some e) g) \<Longrightarrow> safe lock_monitor (detachLocked a) g Q"
  by (cases g) (auto simp: detachLocked_def reply_cases)

lemma detachAll_lock: "safe lock_monitor (detachAll as) g (\<lambda>_ g'. g' = g)"
  by (induction as) (simp_all add: safe_simps detachLocked_lock)

lemma resizeAll_lock: "safe lock_monitor p g Q \<Longrightarrow> safe lock_monitor (resizeAll as sz p) g Q"
  by (induction as) (auto simp: safe_simps split: option.splits)

lemma recordExtended_lock:
  "safe lock_monitor (recordExtended rec sz) (Some (h, dVG rec)) (\<lambda>_ g. g = Some (h, dVG rec))"
  by (simp add: recordExtended_def safe_simps reply_cases Let_def resizeAll_lock)

lemma plugDisk_lock: "safe lock_monitor (plugDisk sv rec vm dev) None (\<lambda>_ g. g = None)"
  by (simp add: plugDisk_def safe_simps reply_cases Let_def)

lemma CreateDisk_disciplined: "disciplined (Service_CreateDisk sv inp)"
  by (auto simp: disciplined_def Service_CreateDisk_def makeQcow2Header_def safe_simps reply_cases Let_def
      intro!: safe_mono [OF persistDisk_locked] split: sum.splits)

lemma DeleteDisk_disciplined: "disciplined (Service_DeleteDisk name force)"
  by (auto simp: disciplined_def Service_DeleteDisk_def safe_simps reply_cases
      intro!: safe_mono [OF detachAll_lock] split: option.split)

lemma DetachDisk_disciplined: "disciplined (Service_DetachDisk d v)"
  by (simp add: disciplined_def Service_DetachDisk_def reply_cases detachLocked_lock)

lemma AttachDisk_disciplined: "disciplined (Service_AttachDisk sv inp)"
  by (auto simp: disciplined_def Service_AttachDisk_def reply_cases plugDisk_lock split: bool.splits)

lemma ExtendDisk_disciplined: "disciplined (Service_ExtendDisk inp)"
  by (auto simp: disciplined_def Service_ExtendDisk_def safe_simps reply_cases
      intro!: safe_mono [OF recordExtended_lock])

lemma ExtendByPercent_disciplined: "disciplined (Service_ExtendByPercent name pc)"
  by (auto simp: disciplined_def Service_ExtendByPercent_def safe_simps reply_cases
      intro!: safe_mono [OF recordExtended_lock])

end
