(* ===== verification/Disk_Properties.thy ===== *)
theory Disk_Properties
  imports Sample_Service Lock_Discipline
begin

text \<open>
  The properties of the disk service (\<open>src/internal/disk/disk.go\<close>), over the lemmas of
  \<open>Disk_Correctness\<close>, \<open>Handler_Order\<close> and \<open>Lock_Discipline\<close>.
\<close>

section \<open>Creation\<close>

text \<open>
  C1. Whatever store backend is behind the service, as long as it meets the contract of
  \<open>store.Store\<close>: when \<open>CreateDisk\<close> returns a record, no disk of that name was in the
  catalog, and the catalog now is the old one with exactly that record added; the record is the
  one of the normalised input (defaulted volume group and mode, filled-in sizes, the device path
  of the volume, this node's id).
\<close>

theorem create_disk_success:
  assumes "store_contract (sv_Store sv) cat good ok" "good (w_store w)"
    and "run sv (Service_CreateDisk sv inp) w = (Inr r, w')"
  shows "good (w_store w') \<and> cat_disks (cat (w_store w)) (dName r) = None \<and>
    cat (w_store w') = put_disk r (cat (w_store w)) \<and>
    (\<exists>inp' t. normaliseCreate sv inp = Inr inp' \<and> r = newDiskRecord sv inp' t)"
  using store_contract.handler_outcome [OF assms(1) refl assms(2,3) CreateDisk_catalog] by auto

theorem create_disk_success_witness:
  "cat_disks (mem_cat (w_store empty_world)) (dName d1_record) = None \<and>
   mem_cat (w_store disk_world) = put_disk d1_record (mem_cat (w_store empty_world))"
  using create_disk_success [OF sample_contract empty_world_good sample_create] by blast



definition thin_normal :: CreateInput where
  "thin_normal = \<lparr>ci_Name = ''t1'', ci_VG = ''vg1'', ci_Mode = ProvisionThin, ci_SizeBytes = 8, ci_VirtualSizeBytes = 80\<rparr>"


text \<open>
  Creating a disk whose name is in the catalog fails with \<open>ErrAlreadyExists\<close>, and neither
  lvm nor qemu-img is called and the catalog stays as it is.
\<close>

theorem create_disk_exists:
  assumes "reliable_store (sv_Store sv) cat good ok" "good (w_store w)" "normaliseCreate sv inp = Inr inp'"
    and "lk_Acquire (sv_Locker sv) (ci_VG inp') (w_lock w) = (Inr h, k)"
    and "cat_disks (cat (w_store w)) (ci_Name inp) = Some r"
    and "run sv (Service_CreateDisk sv inp) w = (x, w')"
  shows "x = Inl ErrAlreadyExists \<and> w_lvm w' = w_lvm w \<and> w_qemu w' = w_qemu w \<and> cat (w_store w') = cat (w_store w)"
proof -
  have "ci_Name inp' = ci_Name inp" using assms(3) by (rule normaliseCreate_Inr)
  with reliable_store.get_disk_some [OF assms(1,2,5)] assms(3,4,6) show ?thesis
    by (auto simp: Service_CreateDisk_def on_lock_def on_store_def release_lock_def proc_simps)
qed

theorem create_disk_exists_witness:
  "\<exists>w'. run sample (Service_CreateDisk sample thick_input) disk_world = (Inl ErrAlreadyExists, w') \<and>
    w_lvm w' = w_lvm disk_world"
proof -
  have n: "normaliseCreate sample thick_input = Inr \<lparr>ci_Name = ''d1'', ci_VG = ''vg0'', ci_Mode = ProvisionThick,
     ci_SizeBytes = 8, ci_VirtualSizeBytes = 8\<rparr>" by code_simp
  have l: "lk_Acquire (sv_Locker sample) ''vg0'' (w_lock disk_world) = (Inr 0, ())" by code_simp
  have c: "cat_disks (mem_cat (w_store disk_world)) (ci_Name thick_input) = Some d1_record"
    by (simp add: disk_world_store thick_input_def)
  obtain x w' where r: "run sample (Service_CreateDisk sample thick_input) disk_world = (x, w')" by fastforce
  from create_disk_exists [OF sample_reliable sample_worlds_good(1) n _ c r] l r show ?thesis by auto
qed

lemma persistDisk_succeeds:
  assumes "reliable_store (sv_Store sv) cat good ok" "good (w_store v)"
    and "cat_disks (cat (w_store v)) (ci_Name inp) = None"
  shows "\<exists>t v'. run sv (persistDisk sv inp) v = (Inr (newDiskRecord sv inp t), v') \<and> w_lvm v' = w_lvm v \<and>
    cat (w_store v') = put_disk (newDiskRecord sv inp t) (cat (w_store v))"
proof -
  let ?r = "newDiskRecord sv inp (sv_Now sv (w_reads v))"
  from assms obtain s2 where "st_CreateDisk (sv_Store sv) ?r (w_store v) = (None, s2)"
    "cat s2 = put_disk ?r (cat (w_store v))"
    using reliable_store.create_disk_ok [OF assms(1,2), of ?r] by (auto simp: newDiskRecord_def)
  then show ?thesis by (auto simp: persistDisk_def Let_def on_store_def tick_clock_def)
qed

text \<open>
  C11. \<open>CreateDisk\<close> does succeed: for an accepted input, a free lock, a name that is not in the
  catalog, an lvm that creates the volume and, for a thin disk, a qemu-img that writes the header
  file and copies it onto the volume, it returns the record of the input, stored in the catalog.
\<close>

theorem create_disk_succeeds:
  assumes "reliable_store (sv_Store sv) cat good ok" "good (w_store w)" "normaliseCreate sv inp = Inr inp'"
    and "lk_Acquire (sv_Locker sv) (ci_VG inp') (w_lock w) = (Inr h, k)"
    and "cat_disks (cat (w_store w)) (ci_Name inp) = None"
    and "lvm_CreateLV (sv_LVM sv) (ci_VG inp') (ci_Name inp') (ci_SizeBytes inp') (w_lvm w) = (None, l)"
    and "ci_Mode inp' = ProvisionThin \<longrightarrow>
      (\<forall>p q. fst (qi_CreateQcow2 (sv_QemuImg sv) p (ci_VirtualSizeBytes inp') q) = None) \<and>
      (\<forall>p dev q. fst (qi_DDOver (sv_QemuImg sv) p dev q) = None)"
  shows "\<exists>t w'. run sv (Service_CreateDisk sv inp) w = (Inr (newDiskRecord sv inp' t), w') \<and>
    cat (w_store w') = put_disk (newDiskRecord sv inp' t) (cat (w_store w)) \<and> w_lvm w' = l"
proof -
  have name: "ci_Name inp' = ci_Name inp" using assms(3) by (rule normaliseCreate_Inr)
  obtain e s1 where g: "st_GetDisk (sv_Store sv) (ci_Name inp) (w_store w) = (Inl e, s1)" "errors_Is e ErrNotFound"
      "good s1" "cat s1 = cat (w_store w)"
    using reliable_store.get_disk_none [OF assms(1,2,5)] by blast
  have persist: "\<exists>t v'. run sv (persistDisk sv inp') v = (Inr (newDiskRecord sv inp' t), v') \<and> w_lvm v' = w_lvm v \<and>
      cat (w_store v') = put_disk (newDiskRecord sv inp' t) (cat (w_store w))" if "w_store v = s1" for v
    using persistDisk_succeeds [OF assms(1), of v inp'] that g assms(5) name by simp
  show ?thesis
  proof (cases "ci_Mode inp' = ProvisionThin")
    case False
    let ?v = "w\<lparr>w_lock := k, w_store := s1, w_lvm := l\<rparr>"
    from persist [of ?v] obtain t v' where "run sv (persistDisk sv inp') ?v = (Inr (newDiskRecord sv inp' t), v')"
      "w_lvm v' = l" "cat (w_store v') = put_disk (newDiskRecord sv inp' t) (cat (w_store w))" by auto
    with False g assms name show ?thesis
      by (auto simp: Service_CreateDisk_def on_lock_def on_store_def on_lvm_def release_lock_def proc_simps)
  next
    case True
    let ?tmp = "path_Join (sv_TempDir sv) (''sltv-'' @ ci_Name inp' @ ''-'' @ dec_int (sv_UnixNano sv (w_reads w)) @ ''.qcow2'')"
    obtain q1 where q1: "qi_CreateQcow2 (sv_QemuImg sv) ?tmp (ci_VirtualSizeBytes inp') (w_qemu w) = (None, q1)"
      using assms(7) True by (metis prod.collapse)
    obtain q2 where q2: "qi_DDOver (sv_QemuImg sv) ?tmp (DevicePath (ci_VG inp') (ci_Name inp')) q1 = (None, q2)"
      using assms(7) True by (metis prod.collapse)
    let ?v = "w\<lparr>w_lock := k, w_store := s1, w_lvm := l, w_reads := Suc (w_reads w), w_qemu := q2\<rparr>"
    from persist [of ?v] obtain t v' where "run sv (persistDisk sv inp') ?v = (Inr (newDiskRecord sv inp' t), v')"
      "w_lvm v' = l" "cat (w_store v') = put_disk (newDiskRecord sv inp' t) (cat (w_store w))" by auto
    with True g assms name q1 q2 show ?thesis
      by (auto simp: Service_CreateDisk_def makeQcow2Header_def Let_def on_lock_def on_store_def on_lvm_def on_qemu_def
          release_lock_def tick_clock_def proc_simps split: prod.splits)
  qed
qed

theorem create_disk_succeeds_witness:
  "\<exists>t w'. run sample (Service_CreateDisk sample thin_input) empty_world = (Inr (newDiskRecord sample thin_normal t), w') \<and>
    w_lvm w' = [(''lvcreate'', [''-L'', ''8B'', ''-n'', ''t1'', ''-y'', ''vg1''])]"
proof -
  have n: "normaliseCreate sample thin_input = Inr thin_normal" by code_simp
  have l: "lk_Acquire (sv_Locker sample) (ci_VG thin_normal) (w_lock empty_world) = (Inr 0, ())" by code_simp
  have c: "cat_disks (mem_cat (w_store empty_world)) (ci_Name thin_input) = None"
    by (simp add: empty_world_def NewMemoryStore_def)
  have lv: "lvm_CreateLV (sv_LVM sample) (ci_VG thin_normal) (ci_Name thin_normal) (ci_SizeBytes thin_normal) (w_lvm empty_world)
      = (None, [(''lvcreate'', [''-L'', ''8B'', ''-n'', ''t1'', ''-y'', ''vg1''])])" by code_simp
  show ?thesis using create_disk_succeeds [OF sample_reliable empty_world_good n l c lv]
    by (auto simp: sample_def logQemu_def)
qed

text \<open>
  \<open>normaliseCreate\<close> accepts an input exactly when it names a disk without blanks or
  slashes, a volume group is given or configured, and the sizes fit the mode: a thick disk (also
  the default mode) has a size; a thin disk has a virtual size larger than its initial size,
  which is the given one or the configured one and not zero.
\<close>

theorem normaliseCreate_accepts:
  "(\<exists>inp'. normaliseCreate sv inp = Inr inp') \<longleftrightarrow>
     ci_Name inp \<noteq> [] \<and> \<not> ContainsAny (ci_Name inp) bad_name_chars \<and>
     \<not> (ci_VG inp = [] \<and> sv_DefaultVG sv = []) \<and>
     ((ci_Mode inp = ProvisionUnspecified \<or> ci_Mode inp = ProvisionThick) \<and> ci_SizeBytes inp \<noteq> 0 \<or>
      ci_Mode inp = ProvisionThin \<and>
       (let sz = (if ci_SizeBytes inp = 0 then sv_DefaultThinInitial sv else ci_SizeBytes inp)
        in 0 < sz \<and> sz < ci_VirtualSizeBytes inp))"
proof -
  have "0 < (x :: u64) \<longleftrightarrow> x \<noteq> 0" for x by (simp add: word_neq_0_conv)
  moreover have "(y :: u64) \<le> x \<longleftrightarrow> \<not> x < y" for x y by (simp add: not_less)
  ultimately show ?thesis by (auto simp: normaliseCreate_def Let_def word_neq_0_conv split: if_splits)
qed

section \<open>Deletion\<close>

text \<open>
  C29. Deleting a disk that has attachments, without force, fails: the error names the disk and
  the number of its attachments, and lvm, libvirt and the catalog are untouched.
\<close>

theorem delete_disk_refuses:
  assumes "reliable_store (sv_Store sv) cat good ok" "good (w_store w)" "catalog_ok ok (cat (w_store w))"
    and "cat_disks (cat (w_store w)) n = Some r" "has_atts n (cat (w_store w))"
    and "lk_Acquire (sv_Locker sv) (dVG r) (w_lock w) = (Inr h, k)"
    and "run sv (Service_DeleteDisk n False) w = (e, w')"
  shows "(\<exists>as. lists_atts n [] (cat (w_store w)) as \<and>
      e = Some (Errorf ''disk %q has %d attachments; use force to remove'' [n, dec (length as)])) \<and>
    w_lvm w' = w_lvm w \<and> w_virt w' = w_virt w \<and> cat (w_store w') = cat (w_store w)"
proof -
  note rec = catalog_okD [OF assms(3,4)]
  obtain s1 where g: "st_GetDisk (sv_Store sv) n (w_store w) = (Inr r, s1)" "good s1" "cat s1 = cat (w_store w)"
    using reliable_store.get_disk_some [OF assms(1,2,4)] by blast
  obtain as s2 where l: "st_ListAttachments (sv_Store sv) n [] s1 = (Inr as, s2)" "cat s2 = cat (w_store w)"
      "lists_atts n [] (cat (w_store w)) as"
    using reliable_store.list_atts_ok [OF assms(1) g(2) rec(3)] g(3) by metis
  have "n \<noteq> []" using rec by (auto simp: disk_ok_def)
  from lists_atts_of_disk(3) [OF assms(3) this l(3)] assms(5) have "as \<noteq> []" by simp
  with g l assms(6,7) show ?thesis
    by (auto simp: Service_DeleteDisk_def on_lock_def on_store_def release_lock_def proc_simps)
qed

lemma sample_has_atts: "has_atts ''d1'' (mem_cat (w_store attached_world))"
  by (auto simp: has_atts_def attached_world_store mem_ok_def AttachmentKey_def intro!: exI [of _ "''vm1''"])

lemma sample_cat_d1:
  "cat_disks (mem_cat (w_store disk_world)) ''d1'' = Some d1_record"
  "cat_disks (mem_cat (w_store attached_world)) ''d1'' = Some d1_record"
  by (simp_all add: disk_world_store attached_world_store)

theorem delete_disk_refuses_witness:
  "\<exists>e w'. run sample (Service_DeleteDisk ''d1'' False) attached_world = (Some e, w') \<and> w_lvm w' = w_lvm attached_world"
proof -
  have l: "lk_Acquire (sv_Locker sample) (dVG d1_record) (w_lock attached_world) = (Inr 0, ())" by code_simp
  obtain e w' where r: "run sample (Service_DeleteDisk ''d1'' False) attached_world = (e, w')" by fastforce
  from delete_disk_refuses [OF sample_reliable sample_worlds_good(2) sample_catalogs_ok(3) sample_cat_d1(2)
      sample_has_atts l r] r
  show ?thesis by auto
qed

text \<open>
  C12. When \<open>DeleteDisk\<close> reports success, the disk was in the catalog, it had no attachments or
  force was given, and the catalog now is the old one without the disk and without any of its
  attachments; every other disk and attachment is as before.
\<close>

theorem delete_disk_success:
  assumes "store_contract (sv_Store sv) cat good ok" "good (w_store w)" "catalog_ok ok (cat (w_store w))"
    and "run sv (Service_DeleteDisk n force) w = (None, w')"
  shows "cat_disks (cat (w_store w)) n \<noteq> None \<and> (force \<or> \<not> has_atts n (cat (w_store w))) \<and>
    cat (w_store w') = forget_disk n (cat (w_store w))"
  using store_contract.handler_outcome [OF assms(1) refl assms(2,4) DeleteDisk_catalog [OF assms(3)]] by auto

theorem delete_disk_success_witness:
  "\<exists>w'. run sample (Service_DeleteDisk ''d1'' True) attached_world = (None, w') \<and>
    mem_cat (w_store w') = forget_disk ''d1'' (mem_cat (w_store attached_world))"
proof -
  obtain e w' where r: "run sample (Service_DeleteDisk ''d1'' True) attached_world = (e, w')" by fastforce
  moreover have "fst (run sample (Service_DeleteDisk ''d1'' True) attached_world) = None" by code_simp
  ultimately have r: "run sample (Service_DeleteDisk ''d1'' True) attached_world = (None, w')" by simp
  with delete_disk_success [OF sample_contract sample_worlds_good(2) sample_catalogs_ok(3) r] show ?thesis by blast
qed

text \<open>
  C13. Whatever the interfaces answer, \<open>DeleteDisk\<close> unplugs and unrecords the listed attachments
  one after the other, calls lvm to remove the volume only when all of them are gone, and drops
  the disk's row only after the volume was removed; on success all of this has happened.
\<close>

theorem delete_disk_order:
  "\<exists>g. monitors (delete_monitor n) delete_start (events sv (Service_DeleteDisk n force) w) = Some g \<and>
    (fst (run sv (Service_DeleteDisk n force) w) = None \<longrightarrow> dm_left g = [] \<and> dm_gone g \<and> \<not> dm_row g)"
  using safe_run [OF DeleteDisk_order [of n force], of sv w]
  by (cases "monitors (delete_monitor n) delete_start (events sv (Service_DeleteDisk n force) w)") simp_all

theorem delete_disk_order_witness:
  "\<exists>g. monitors (delete_monitor ''d1'') delete_start (events sample (Service_DeleteDisk ''d1'' True) attached_world) = Some g \<and>
    dm_gone g \<and> \<not> dm_row g"
proof -
  have "fst (run sample (Service_DeleteDisk ''d1'' True) attached_world) = None" by code_simp
  with delete_disk_order [of "''d1''" sample True attached_world] show ?thesis by blast
qed

section \<open>Attaching and detaching\<close>

text \<open>
  C14. When \<open>AttachDisk\<close> returns a record, the disk is in the catalog, the pair of disk and VM
  was not attached before, and the catalog is the old one with exactly that attachment added.
\<close>

theorem attach_disk_success:
  assumes "store_contract (sv_Store sv) cat good ok" "good (w_store w)" "catalog_ok ok (cat (w_store w))"
    and "run sv (Service_AttachDisk sv inp) w = (Inr a, w')"
  shows "aDiskName a = ai_DiskName inp \<and> aVMName a = ai_VMName inp \<and>
    cat_disks (cat (w_store w)) (ai_DiskName inp) \<noteq> None \<and>
    cat_atts (cat (w_store w)) (ai_DiskName inp, ai_VMName inp) = None \<and>
    cat (w_store w') = put_att a (cat (w_store w))"
  using store_contract.handler_outcome [OF assms(1) refl assms(2,4) AttachDisk_catalog
      [OF assms(3) store_contract.ok_Nil [OF assms(1)]]] by auto

theorem attach_disk_success_witness:
  "mem_cat (w_store attached_world) = put_att d1_attachment (mem_cat (w_store disk_world))"
  using attach_disk_success [OF sample_contract sample_worlds_good(1) sample_catalogs_ok(2) sample_attach] by blast

text \<open>
  C15. Whatever the interfaces answer, \<open>AttachDisk\<close> records an attachment only after libvirt
  has plugged the disk into that VM at that device (the requested one, if one is requested), and
  when it returns an error after plugging, it has asked libvirt to unplug that device again.
\<close>

theorem attach_disk_rollback:
  "\<exists>g. monitors attach_monitor attach_start (events sv (Service_AttachDisk sv inp) w) = Some g \<and>
    attach_end inp (fst (run sv (Service_AttachDisk sv inp) w)) g"
  using safe_run [OF AttachDisk_order [of sv inp], of sv w]
  by (cases "monitors attach_monitor attach_start (events sv (Service_AttachDisk sv inp) w)") simp_all

text \<open>
  When \<open>DetachDisk\<close> reports success, the pair was attached, and the catalog is the old one
  without that attachment; with a backend that fails only with the sentinels, every error leaves
  the catalog as it was.
\<close>

theorem detach_disk_effect:
  assumes "reliable_store (sv_Store sv) cat good ok" "good (w_store w)" "catalog_ok ok (cat (w_store w))"
    and "run sv (Service_DetachDisk d v) w = (e, w')"
  shows "case e of
      None \<Rightarrow> cat_atts (cat (w_store w)) (d, v) \<noteq> None \<and> cat (w_store w') = drop_att d v (cat (w_store w))
    | Some _ \<Rightarrow> cat (w_store w') = cat (w_store w)"
  using reliable_store.handler_outcome_rel [OF assms(1) refl assms(2,4) DetachDisk_catalog [OF assms(3)]]
  by (cases e) (auto simp: write_may_def)

theorem detach_disk_effect_witness:
  "\<exists>w'. run sample (Service_DetachDisk ''d1'' ''vm1'') attached_world = (None, w') \<and>
    mem_cat (w_store w') = drop_att ''d1'' ''vm1'' (mem_cat (w_store attached_world))"
proof -
  obtain e w' where r: "run sample (Service_DetachDisk ''d1'' ''vm1'') attached_world = (e, w')" by fastforce
  moreover have "fst (run sample (Service_DetachDisk ''d1'' ''vm1'') attached_world) = None" by code_simp
  ultimately have e: "e = None" by simp
  from detach_disk_effect [OF sample_reliable sample_worlds_good(2) sample_catalogs_ok(3) r] r e show ?thesis by simp
qed

lemma target_letter_count: "length target_letters = 25"
  by (simp add: target_letters_def)

text \<open>
  \<open>pickTargetDev\<close> returns the first of \<open>vdb\<close> to \<open>vdz\<close> that is not in use; only
  when all 25 are in use does it return \<open>vdaa\<close>, without looking whether that is in use too.
\<close>

lemma pickTargetDev_first_free:
  "(\<exists>i<25. pickTargetDev used = ''vd'' @ [target_letters ! i] \<and> pickTargetDev used \<notin> set used \<and>
      (\<forall>j<i. ''vd'' @ [target_letters ! j] \<in> set used)) \<or>
   (pickTargetDev used = ''vdaa'' \<and> (\<forall>c\<in>set target_letters. ''vd'' @ [c] \<in> set used))"
proof (cases "find (\<lambda>c. ''vd'' @ [c] \<notin> set used) target_letters")
  case None
  then have "\<forall>c\<in>set target_letters. ''vd'' @ [c] \<in> set used" by (simp add: find_None_iff)
  then show ?thesis unfolding pickTargetDev_def None option.case by blast
next
  case (Some c)
  then obtain i where "i < length target_letters" "''vd'' @ [target_letters ! i] \<notin> set used" "c = target_letters ! i"
    "\<forall>j<i. ''vd'' @ [target_letters ! j] \<in> set used"
    by (auto simp: find_Some_iff)
  then show ?thesis unfolding pickTargetDev_def Some option.case target_letter_count by blast
qed

lemma plugDisk_target:
  "catsafe rel ok unwatched (plugDisk sv rec vm dev) c g
     (\<lambda>x _ _. \<forall>a. x = Inr a \<longrightarrow> aTargetDev a = dev)" if "ok (dName rec)"
  using that by (auto simp: plugDisk_def catsafe_simps reply_cases Let_def)

lemma AttachDisk_target:
  assumes "catalog_ok ok c" "ok []" "ai_TargetDev inp = []"
  shows "catsafe rel ok unwatched (Service_AttachDisk sv inp) c g
     (\<lambda>x _ _. \<forall>a. x = Inr a \<longrightarrow>
        (\<exists>as. lists_atts [] (ai_VMName inp) c as \<and> aTargetDev a = pickTargetDev (''vda'' # map aTargetDev as)))"
proof -
  have "catsafe rel ok unwatched (plugDisk sv rec (ai_VMName inp) (pickTargetDev (''vda'' # map aTargetDev as))) c g
     (\<lambda>x _ _. \<forall>a. x = Inr a \<longrightarrow>
        (\<exists>as. lists_atts [] (ai_VMName inp) c as \<and> aTargetDev a = pickTargetDev (''vda'' # map aTargetDev as)))"
    if "lists_atts [] (ai_VMName inp) c as" "cat_disks c (ai_DiskName inp) = Some rec" for as rec
    by (rule catsafe_mono [OF plugDisk_target]) (use that catalog_okD [OF assms(1) that(2)] in auto)
  with assms show ?thesis by (auto simp: Service_AttachDisk_def reply_cases split: bool.split)
qed

lemma no_letter_a: "CHR ''a'' \<notin> set target_letters"
  by code_simp

lemma atts_of_vm:
  assumes "catalog_ok ok c" "vm \<noteq> []" "lists_atts [] vm c as"
  shows "cat_atts c (d, vm) = Some b \<Longrightarrow> b \<in> set as"
    and "b \<in> set as \<Longrightarrow> \<exists>d. cat_atts c (d, vm) = Some b"
proof -
  from assms have as: "set as = {a \<in> ran (cat_atts c). aVMName a = vm}" by (simp add: lists_atts_def)
  show "b \<in> set as" if "cat_atts c (d, vm) = Some b"
    using that catalog_ok_attD [OF assms(1) that] by (auto simp: as intro: ranI)
  show "\<exists>d. cat_atts c (d, vm) = Some b" if "b \<in> set as"
  proof -
    from that as obtain d v where "cat_atts c (d, v) = Some b" "aVMName b = vm" by (auto simp: ran_def)
    with catalog_ok_attD [OF assms(1)] show ?thesis by blast
  qed
qed

text \<open>
  A disk attached without a requested device gets a device that no attachment of that VM in
  the catalog uses, unless the VM already uses \<open>vdb\<close> to \<open>vdz\<close>.
\<close>

theorem attach_fresh_target:
  assumes "store_contract (sv_Store sv) cat good ok" "good (w_store w)" "catalog_ok ok (cat (w_store w))"
    and "ai_TargetDev inp = []" "run sv (Service_AttachDisk sv inp) w = (Inr a, w')"
  shows "(\<forall>d b. cat_atts (cat (w_store w)) (d, ai_VMName inp) = Some b \<longrightarrow> aTargetDev b \<noteq> aTargetDev a) \<or>
    (aTargetDev a = ''vdaa'' \<and> (\<forall>l\<in>set target_letters. \<exists>d b.
       cat_atts (cat (w_store w)) (d, ai_VMName inp) = Some b \<and> aTargetDev b = ''vd'' @ [l]))"
proof -
  let ?c = "cat (w_store w)"
  from store_contract.handler_outcome [OF assms(1) refl assms(2,5)
      AttachDisk_target [OF assms(3) store_contract.ok_Nil [OF assms(1)] assms(4)]]
  obtain as where as: "lists_atts [] (ai_VMName inp) ?c as" and a: "aTargetDev a = pickTargetDev (''vda'' # map aTargetDev as)"
    by blast
  have vm: "ai_VMName inp \<noteq> []"
    using store_contract.handler_outcome [OF assms(1) refl assms(2,5) AttachDisk_catalog
      [OF assms(3) store_contract.ok_Nil [OF assms(1)]]] by auto
  note listed = atts_of_vm [OF assms(3) vm as]
  from pickTargetDev_first_free [of "''vda'' # map aTargetDev as", folded a]
  show ?thesis
  proof (elim disjE conjE exE)
    fix i assume "aTargetDev a \<notin> set (''vda'' # map aTargetDev as)"
    then have "\<forall>d b. cat_atts ?c (d, ai_VMName inp) = Some b \<longrightarrow> aTargetDev b \<noteq> aTargetDev a"
      using listed(1) by (metis imageI list.set_intros(2) list.set_map)
    then show ?thesis ..
  next
    assume "aTargetDev a = ''vdaa''" "\<forall>l\<in>set target_letters. ''vd'' @ [l] \<in> set (''vda'' # map aTargetDev as)"
    moreover from this(2) no_letter_a have "\<forall>l\<in>set target_letters. \<exists>b\<in>set as. aTargetDev b = ''vd'' @ [l]" by force
    ultimately show ?thesis using listed by metis
  qed
qed

theorem attach_fresh_target_witness:
  "\<not> (\<exists>d b. cat_atts (mem_cat (w_store disk_world)) (d, ai_VMName attach_input) = Some b \<and> aTargetDev b = aTargetDev d1_attachment)"
proof -
  have "ai_TargetDev attach_input = []" by (simp add: attach_input_def)
  from attach_fresh_target [OF sample_contract sample_worlds_good(1) sample_catalogs_ok(2) this sample_attach]
  show ?thesis by (auto simp: d1_attachment_def)
qed

section \<open>Extension\<close>

text \<open>
  C16. When \<open>ExtendDisk\<close> returns a record, the disk was in the catalog, and the record is the
  stored one with the new size and a new time of extension, and nothing else in the catalog
  changed. For an absolute request the new size is the requested one; for a delta it is the old
  size plus the delta, as numbers, as long as the sum is below \<open>2^64\<close>.
\<close>

theorem extend_disk_success:
  assumes "store_contract (sv_Store sv) cat good ok" "good (w_store w)" "catalog_ok ok (cat (w_store w))"
    and "run sv (Service_ExtendDisk inp) w = (Inr r, w')"
  shows "\<exists>r0 t. cat_disks (cat (w_store w)) (ei_Name inp) = Some r0 \<and>
    r = r0\<lparr>dSizeBytes := dSizeBytes r, dLastExtendedAt := t\<rparr> \<and> cat (w_store w') = put_disk r (cat (w_store w)) \<and>
    (ei_SizeBytes inp \<noteq> 0 \<longrightarrow> dSizeBytes r = ei_SizeBytes inp) \<and>
    (ei_SizeBytes inp = 0 \<and> unat (dSizeBytes r0) + unat (ei_DeltaBytes inp) < 2 ^ 64 \<longrightarrow>
       unat (dSizeBytes r) = unat (dSizeBytes r0) + unat (ei_DeltaBytes inp))"
proof -
  from store_contract.handler_outcome [OF assms(1) refl assms(2,4) ExtendDisk_catalog [OF assms(3)]]
  obtain r0 t where "cat_disks (cat (w_store w)) (ei_Name inp) = Some r0"
    "r = r0\<lparr>dSizeBytes := extended_size inp r0, dLastExtendedAt := t\<rparr>" "cat (w_store w') = put_disk r (cat (w_store w))"
    by auto
  then show ?thesis
    by (intro exI [of _ r0] exI [of _ t]) (auto simp: extended_size_def u64_add_no_wrap)
qed

theorem extend_disk_success_witness:
  "\<exists>r w'. run sample (Service_ExtendDisk extend_input) disk_world = (Inr r, w') \<and> unat (dSizeBytes r) = 16"
proof -
  obtain x w' where r: "run sample (Service_ExtendDisk extend_input) disk_world = (x, w')" by fastforce
  moreover have "\<not> isl (fst (run sample (Service_ExtendDisk extend_input) disk_world))" by code_simp
  ultimately obtain r where run: "run sample (Service_ExtendDisk extend_input) disk_world = (Inr r, w')" by (cases x) auto
  from extend_disk_success [OF sample_contract sample_worlds_good(1) sample_catalogs_ok(2) run]
  have "unat (dSizeBytes r) = 16"
    by (auto simp: disk_world_store extend_input_def d1_record_def newDiskRecord_def)
  with run show ?thesis by blast
qed

lemma percentDelta_exact:
  assumes "0 < percent" "unat sz * nat percent < 2 ^ 64"
  shows "unat (percentDelta sz percent) = unat sz * nat percent div 100"
proof (cases "sz = 0")
  case True
  then show ?thesis by (simp add: percentDelta_def)
next
  case False
  then have "1 * nat percent \<le> unat sz * nat percent" by (intro mult_le_mono1) (simp add: Suc_le_eq unat_gt_0)
  with assms have "nat percent < 2 ^ 64" by linarith
  then have "unat (of_nat (nat percent) :: u64) = nat percent" by (simp add: unat_of_nat take_bit_nat_eq_self)
  moreover have "(of_int percent :: u64) = of_nat (nat percent)" using assms(1) by (simp add: of_nat_nat)
  ultimately have "unat (of_int percent :: u64) = nat percent" by simp
  with assms(2) have "unat (sz * of_int percent) = unat sz * nat percent"
    by (metis u64_mult_no_wrap)
  then show ?thesis by (simp add: percentDelta_def unat_div)
qed

text \<open>
  C28. When \<open>ExtendByPercent\<close> returns a record, its size is the stored size plus the given
  percentage of it, rounded down, as long as neither the product of size and percentage nor that
  sum reaches \<open>2^64\<close>.
\<close>

theorem extend_percent_success:
  assumes "store_contract (sv_Store sv) cat good ok" "good (w_store w)" "catalog_ok ok (cat (w_store w))"
    and "run sv (Service_ExtendByPercent n pc) w = (Inr r, w')"
  shows "\<exists>r0 t. cat_disks (cat (w_store w)) n = Some r0 \<and>
    r = r0\<lparr>dSizeBytes := dSizeBytes r, dLastExtendedAt := t\<rparr> \<and> cat (w_store w') = put_disk r (cat (w_store w)) \<and> 0 < pc \<and>
    (unat (dSizeBytes r0) * nat pc < 2 ^ 64 \<and> unat (dSizeBytes r0) + unat (dSizeBytes r0) * nat pc div 100 < 2 ^ 64 \<longrightarrow>
       unat (dSizeBytes r) = unat (dSizeBytes r0) + unat (dSizeBytes r0) * nat pc div 100)"
proof -
  from store_contract.handler_outcome [OF assms(1) refl assms(2,4) ExtendByPercent_catalog [OF assms(3)]]
  obtain r0 t where r0: "cat_disks (cat (w_store w)) n = Some r0"
    "r = r0\<lparr>dSizeBytes := dSizeBytes r0 + percentDelta (dSizeBytes r0) pc, dLastExtendedAt := t\<rparr>"
    "cat (w_store w') = put_disk r (cat (w_store w))"
    by auto
  have pc: "0 < pc" using assms(4) by (auto simp: Service_ExtendByPercent_def split: if_splits)
  with r0 show ?thesis
    by (intro exI [of _ r0] exI [of _ t]) (auto simp: percentDelta_exact u64_add_no_wrap)
qed

theorem extend_percent_success_witness:
  "\<exists>r w'. run sample (Service_ExtendByPercent ''d1'' 50) disk_world = (Inr r, w') \<and> unat (dSizeBytes r) = 12"
proof -
  obtain x w' where r: "run sample (Service_ExtendByPercent ''d1'' 50) disk_world = (x, w')" by fastforce
  moreover have "\<not> isl (fst (run sample (Service_ExtendByPercent ''d1'' 50) disk_world))" by code_simp
  ultimately obtain r where run: "run sample (Service_ExtendByPercent ''d1'' 50) disk_world = (Inr r, w')" by (cases x) auto
  from extend_percent_success [OF sample_contract sample_worlds_good(1) sample_catalogs_ok(2) run]
  have "unat (dSizeBytes r) = 12"
    by (auto simp: disk_world_store d1_record_def newDiskRecord_def)
  with run show ?thesis by blast
qed

text \<open>
  C17. Whatever the interfaces answer, both forms of extension store the new size only after lvm
  has extended the volume, notify domains only after the record is stored and only of the stored
  size, and return a record exactly when it was stored.
\<close>

theorem extend_order:
  "(\<exists>g. monitors extend_monitor extend_start (events sv (Service_ExtendDisk inp) w) = Some g \<and>
     extend_end (fst (run sv (Service_ExtendDisk inp) w)) g) \<and>
   (\<exists>g. monitors extend_monitor extend_start (events sv (Service_ExtendByPercent n pc) w) = Some g \<and>
     extend_end (fst (run sv (Service_ExtendByPercent n pc) w)) g)"
  using safe_run [OF ExtendDisk_order [of inp], of sv w] safe_run [OF ExtendByPercent_order [of n pc], of sv w]
  by (cases "monitors extend_monitor extend_start (events sv (Service_ExtendDisk inp) w)";
      cases "monitors extend_monitor extend_start (events sv (Service_ExtendByPercent n pc) w)") simp_all

section \<open>All handlers\<close>

text \<open>
  C4. Every handler keeps the locking discipline, whatever the interfaces answer: it calls lvm on
  a volume group, and writes the disk table, only while it holds that group's lock; it takes one
  lock at a time, releases only what it holds, and holds nothing when it returns.
\<close>

theorem handlers_disciplined:
  "monitors lock_monitor None (events sv (Service_CreateDisk sv inp) w) = Some None \<and>
   monitors lock_monitor None (events sv (Service_DeleteDisk n force) w) = Some None \<and>
   monitors lock_monitor None (events sv (Service_AttachDisk sv ainp) w) = Some None \<and>
   monitors lock_monitor None (events sv (Service_DetachDisk d v) w) = Some None \<and>
   monitors lock_monitor None (events sv (Service_ExtendDisk einp) w) = Some None \<and>
   monitors lock_monitor None (events sv (Service_ExtendByPercent n pc) w) = Some None"
  by (intro conjI disciplined_run CreateDisk_disciplined DeleteDisk_disciplined AttachDisk_disciplined
      DetachDisk_disciplined ExtendDisk_disciplined ExtendByPercent_disciplined)

text \<open>
  C3. The catalog's invariant holds after any sequence of requests, failed ones included: every
  disk is stored under its own name with a valid name, volume group, mode and device path, and
  every attachment belongs to a disk that exists.
\<close>

theorem catalog_invariant:
  assumes "store_contract (sv_Store sv) cat good ok" "good (w_store w)" "catalog_ok ok (cat (w_store w))"
    and "\<forall>q\<in>set qs. request_ok ok q" "run sv (perform_all sv qs) w = (es, w')"
  shows "good (w_store w') \<and> catalog_ok ok (cat (w_store w'))"
  using store_contract.handler_outcome [OF assms(1) refl assms(2,5)
      perform_all_keeps_catalog_ok [OF assms(3) store_contract.ok_Nil [OF assms(1)] assms(4)]] .

theorem catalog_invariant_witness:
  "catalog_ok mem_ok (mem_cat (w_store (snd (run sample (perform_all sample
     [ReqCreate thick_input, ReqAttach attach_input, ReqExtend extend_input, ReqDelete ''d1'' False]) empty_world))))"
proof -
  let ?qs = "[ReqCreate thick_input, ReqAttach attach_input, ReqExtend extend_input, ReqDelete ''d1'' False]"
  obtain es w' where r: "run sample (perform_all sample ?qs) empty_world = (es, w')" by fastforce
  have "\<forall>q\<in>set ?qs. request_ok mem_ok q" by (simp add: thick_input_def mem_ok_def)
  from catalog_invariant [OF sample_contract empty_world_good sample_catalogs_ok(1) this r] r show ?thesis by simp
qed

end
