(* ===== verification/Interleaving.thy ===== *)
theory Interleaving
  imports Lock_Discipline Cluster Disk_Correctness
begin

text \<open>
  Several nodes at work on one catalog and one volume group: node \<open>i\<close> runs a handler against
  its own service \<open>svs i\<close> (its own session at the locker) and the shared world, and a step of
  the whole system is one interface call of one node. A node that waits for a lock is a node
  that is not scheduled. \<open>cf_held\<close> is what each node's handler holds, followed along the
  run by the lock monitor.
\<close>

section \<open>The step relation\<close>

text \<open>The event of a handler's next call.\<close>

fun event1 :: "('l, 'v, 's, 'k, 'q) Service \<Rightarrow> 'a proc \<Rightarrow> ('l, 'v, 's, 'k, 'q) World \<Rightarrow> event option" where
  "event1 sv (Done x) w = None"
| "event1 sv (Act a k) w = Some (EvAct a (fst (exec_act sv a w)))"
| "event1 sv (Acquire vg k) w = Some (EvAcquire vg (fst (on_lock (lk_Acquire (sv_Locker sv) vg) w)))"
| "event1 sv (Release h p) w = Some (EvRelease h)"
| "event1 sv (GetDisk n k) w = Some (EvGetDisk n (fst (on_store (st_GetDisk (sv_Store sv) n) w)))"
| "event1 sv (ListDisks vg k) w = Some (EvListDisks vg (fst (on_store (st_ListDisks (sv_Store sv) vg) w)))"
| "event1 sv (GetAttachment d v k) w =
     Some (EvGetAttachment d v (fst (on_store (st_GetAttachment (sv_Store sv) d v) w)))"
| "event1 sv (ListAttachments d v k) w =
     Some (EvListAttachments d v (fst (on_store (st_ListAttachments (sv_Store sv) d v) w)))"
| "event1 sv (DomainStats vm k) w = Some (EvDomainStats vm (fst (on_virt (cl_DomainStats (sv_Libvirt sv) vm) w)))"
| "event1 sv (DomainExists vm k) w = Some (EvDomainExists vm (fst (on_virt (cl_DomainExists (sv_Libvirt sv) vm) w)))"
| "event1 sv (Now k) w = Some (EvNow (sv_Now sv (w_reads w)))"
| "event1 sv (UnixNano k) w = Some (EvUnixNano (sv_UnixNano sv (w_reads w)))"

record ('a, 'l, 'v, 's, 'k, 'q) Config =
  cf_procs :: "nat \<Rightarrow> 'a proc"
  cf_held :: "nat \<Rightarrow> (nat \<times> string) option"
  cf_world :: "('l, 'v, 's, 'k, 'q) World"

inductive sys_step :: "(nat \<Rightarrow> ('l, 'v, 's, 'k, 'q) Service) \<Rightarrow> ('a, 'l, 'v, 's, 'k, 'q) Config
    \<Rightarrow> nat \<Rightarrow> event \<Rightarrow> ('a, 'l, 'v, 's, 'k, 'q) Config \<Rightarrow> bool" for svs where
  node_step: "step1 (svs i) (cf_procs c i) (cf_world c) = Some (p', w') \<Longrightarrow>
    event1 (svs i) (cf_procs c i) (cf_world c) = Some ev \<Longrightarrow>
    lock_monitor (cf_held c i) ev = Some g' \<Longrightarrow>
    sys_step svs c i ev \<lparr>cf_procs = (cf_procs c)(i := p'), cf_held = (cf_held c)(i := g'), cf_world = w'\<rparr>"

inductive reachable :: "(nat \<Rightarrow> ('l, 'v, 's, 'k, 'q) Service) \<Rightarrow> ('a, 'l, 'v, 's, 'k, 'q) Config
    \<Rightarrow> ('a, 'l, 'v, 's, 'k, 'q) Config \<Rightarrow> bool" for svs c0 where
  start: "reachable svs c0 c0"
| step: "reachable svs c0 c \<Longrightarrow> sys_step svs c i ev c' \<Longrightarrow> reachable svs c0 c'"

inductive_cases sys_stepE: "sys_step svs c i ev c'"

text \<open>A disciplined handler is never blocked by the monitor and stays disciplined.\<close>

definition follows :: "'a proc \<Rightarrow> (nat \<times> string) option \<Rightarrow> bool" where
  "follows p g \<longleftrightarrow> safe lock_monitor p g (\<lambda>_ g. g = None)"

lemma follows_step:
  assumes "follows p g" "step1 sv p w = Some (p', w')"
  obtains ev g' where "event1 sv p w = Some ev" "lock_monitor g ev = Some g'" "follows p' g'"
proof -
  have "\<exists>ev. event1 sv p w = Some ev \<and> allowed (lock_monitor g ev) (follows p')"
    using assms unfolding follows_def
    by (cases p) (auto simp del: lock_monitor.simps simp: map_prod_def split: prod.splits)
  then obtain ev where "event1 sv p w = Some ev" "allowed (lock_monitor g ev) (follows p')" by blast
  then show thesis by (cases "lock_monitor g ev") (auto intro: that)
qed

lemma other_steps_keep_locks:
  assumes "step1 sv p w = Some (p', w')" "event1 sv p w = Some ev"
    and "\<forall>vg r. ev \<noteq> EvAcquire vg r" "\<forall>h. ev \<noteq> EvRelease h"
  shows "w_lock w' = w_lock w"
proof (cases p)
  case (Act a k)
  then have "w' = snd (exec_act sv a w)" using assms(1) by (cases "exec_act sv a w") simp
  then show ?thesis
    by (cases a) (simp_all add: on_store_def on_lvm_def on_virt_def on_qemu_def split: prod.splits)
qed (use assms in \<open>auto simp: on_store_def on_virt_def tick_clock_def split: prod.splits\<close>)

lemma lock_monitor_other:
  "\<forall>vg r. ev \<noteq> EvAcquire vg r \<Longrightarrow> \<forall>h. ev \<noteq> EvRelease h \<Longrightarrow> lock_monitor g ev = Some g' \<Longrightarrow> g' = g"
  by (cases ev) (auto split: option.splits if_splits prod.splits)

section \<open>Mutual exclusion between nodes\<close>

text \<open>
  A lock a handler holds is an unreleased handle of its own session. The session owns the mutex
  as long as its lease lives; \<open>dead\<close> is the set of sessions whose lease has expired.
\<close>

definition has_handle :: "string \<Rightarrow> 'm LockerState \<Rightarrow> nat \<Rightarrow> nat \<Rightarrow> string \<Rightarrow> bool" where
  "has_handle p st i h vg \<longleftrightarrow> h < length (ls_handles st) \<and> ls_handles st ! h = (i, lockKey p vg, False)"

definition lock_inv :: "('m \<Rightarrow> string \<rightharpoonup> nat) \<Rightarrow> string \<Rightarrow> nat set \<Rightarrow> ('a, 'l, 'v, 's, 'm LockerState, 'q) Config \<Rightarrow> bool" where
  "lock_inv owner p dead c \<longleftrightarrow> (\<forall>i. follows (cf_procs c i) (cf_held c i) \<and>
     (\<forall>h vg. cf_held c i = Some (h, vg) \<longrightarrow> has_handle p (w_lock (cf_world c)) i h vg \<and>
        (i \<notin> dead \<longrightarrow> owner (ls_mutexes (w_lock (cf_world c))) (lockKey p vg) = Some i)))"

lemma acquire_owner:
  assumes mx: "mutex_laws mx owner" and acq: "etcdLocker_Acquire mx i p vg st = (r, st')"
  shows "r = Inr h \<Longrightarrow> has_handle p st' i h vg \<and> owner (ls_mutexes st') (lockKey p vg) = Some i"
    and "has_handle p st j h' vg' \<Longrightarrow> has_handle p st' j h' vg'"
    and "owner (ls_mutexes st) k = Some j \<Longrightarrow> j \<noteq> i \<Longrightarrow> owner (ls_mutexes st') k = Some j"
proof -
  obtain e m where l: "mx_Lock mx i (lockKey p vg) (ls_mutexes st) = (e, m)" by fastforce
  with mx have own: "case e of
      None \<Rightarrow> (owner (ls_mutexes st) (lockKey p vg) = None \<or> owner (ls_mutexes st) (lockKey p vg) = Some i)
        \<and> owner m = (owner (ls_mutexes st))(lockKey p vg \<mapsto> i)
    | Some _ \<Rightarrow> owner m = owner (ls_mutexes st)"
    unfolding mutex_laws_def by blast
  show "r = Inr h \<Longrightarrow> has_handle p st' i h vg \<and> owner (ls_mutexes st') (lockKey p vg) = Some i"
    using acq l own by (auto simp: etcdLocker_Acquire_def has_handle_def split: if_splits option.splits)
  show "has_handle p st j h' vg' \<Longrightarrow> has_handle p st' j h' vg'"
    using acq l by (auto simp: etcdLocker_Acquire_def has_handle_def nth_append split: if_splits option.splits)
  show "owner (ls_mutexes st) k = Some j \<Longrightarrow> j \<noteq> i \<Longrightarrow> owner (ls_mutexes st') k = Some j"
    using acq l own by (auto simp: etcdLocker_Acquire_def split: if_splits option.splits)
qed

lemma release_owner:
  assumes mx: "mutex_laws mx owner" and hold: "has_handle p st i h vg" and "j \<noteq> i"
  shows "has_handle p st j h' vg' \<Longrightarrow> has_handle p (etcdLocker_release mx h st) j h' vg'"
    and "owner (ls_mutexes st) k = Some j \<Longrightarrow> owner (ls_mutexes (etcdLocker_release mx h st)) k = Some j"
proof -
  obtain e m where u: "mx_Unlock mx i (lockKey p vg) (ls_mutexes st) = (e, m)" by fastforce
  with mx have "owner m = owner (ls_mutexes st) \<or>
      owner (ls_mutexes st) (lockKey p vg) = Some i \<and> owner m = (owner (ls_mutexes st))(lockKey p vg := None)"
    unfolding mutex_laws_def by blast
  with assms u show "has_handle p st j h' vg' \<Longrightarrow> has_handle p (etcdLocker_release mx h st) j h' vg'"
    "owner (ls_mutexes st) k = Some j \<Longrightarrow> owner (ls_mutexes (etcdLocker_release mx h st)) k = Some j"
    by (auto simp: etcdLocker_release_def has_handle_def nth_list_update)
qed

lemma lock_inv_step:
  assumes mx: "mutex_laws mx owner" and lk: "\<forall>i. sv_Locker (svs i) = etcdLocker mx i p"
    and inv: "lock_inv owner p dead c" and st: "sys_step svs c i ev c'"
  shows "lock_inv owner p dead c'"
proof -
  from st obtain p' w' g' where s1: "step1 (svs i) (cf_procs c i) (cf_world c) = Some (p', w')"
    and e1: "event1 (svs i) (cf_procs c i) (cf_world c) = Some ev" and g: "lock_monitor (cf_held c i) ev = Some g'"
    and c': "c' = \<lparr>cf_procs = (cf_procs c)(i := p'), cf_held = (cf_held c)(i := g'), cf_world = w'\<rparr>"
    by (elim sys_stepE) blast
  from inv have fi: "follows (cf_procs c i) (cf_held c i)" by (simp add: lock_inv_def)
  from follows_step [OF fi s1] e1 g have f': "follows p' g'" by force
  let ?st = "w_lock (cf_world c)" and ?st' = "w_lock w'"
  have hi: "cf_held c i = Some (h, vg) \<Longrightarrow> has_handle p ?st i h vg \<and>
      (i \<notin> dead \<longrightarrow> owner (ls_mutexes ?st) (lockKey p vg) = Some i)" for h vg using inv by (simp add: lock_inv_def)
  have "(\<forall>h vg. g' = Some (h, vg) \<longrightarrow> has_handle p ?st' i h vg \<and> (i \<notin> dead \<longrightarrow> owner (ls_mutexes ?st') (lockKey p vg) = Some i)) \<and>
      (\<forall>j h vg. j \<noteq> i \<longrightarrow> has_handle p ?st j h vg \<longrightarrow> has_handle p ?st' j h vg) \<and>
      (\<forall>j k. j \<noteq> i \<longrightarrow> owner (ls_mutexes ?st) k = Some j \<longrightarrow> owner (ls_mutexes ?st') k = Some j)"
  proof (cases "(\<exists>vg r. ev = EvAcquire vg r) \<or> (\<exists>h. ev = EvRelease h)")
    case False
    with other_steps_keep_locks [OF s1 e1] lock_monitor_other [OF _ _ g] hi show ?thesis by auto
  next
    case True
    then show ?thesis
    proof (elim disjE exE)
      fix vg r assume ev: "ev = EvAcquire vg r"
      with e1 s1 lk have "etcdLocker_Acquire mx i p vg ?st = (r, ?st')"
        by (cases "cf_procs c i") (auto simp: on_lock_def etcdLocker_def split: prod.splits)
      with ev g acquire_owner [OF mx this] show ?thesis by (auto split: if_splits sum.splits)
    next
      fix h assume ev: "ev = EvRelease h"
      with e1 s1 lk have "?st' = etcdLocker_release mx h ?st"
        by (cases "cf_procs c i") (auto simp: release_lock_def etcdLocker_def)
      moreover from ev g obtain vg where "cf_held c i = Some (h, vg)" "g' = None"
        by (auto split: option.splits if_splits)
      ultimately show ?thesis using release_owner [OF mx] hi by auto
    qed
  qed
  with inv f' c' show ?thesis by (auto simp: lock_inv_def)
qed

lemma perform_disciplined: "disciplined (perform sv q)"
proof (cases q)
  case (ReqDelete n f)
  then show ?thesis by (simp add: DeleteDisk_disciplined)
next
  case (ReqDetach d v)
  then show ?thesis by (simp add: DetachDisk_disciplined)
qed (use CreateDisk_disciplined AttachDisk_disciplined ExtendDisk_disciplined ExtendByPercent_disciplined in
    \<open>auto simp: erring_def disciplined_def safe_simps\<close>)

lemma perform_all_disciplined: "disciplined (perform_all sv qs)"
proof (induction qs)
  case (Cons q qs)
  then show ?case
    using perform_disciplined [of sv q] by (auto simp: disciplined_def safe_simps elim!: safe_mono)
qed (simp add: disciplined_def)

text \<open>The monitor only follows the run: it blocks no step a handler could make.\<close>

lemma monitor_never_blocks:
  assumes "lock_inv owner p dead c" "step1 (svs i) (cf_procs c i) (cf_world c) = Some (p', w')"
  shows "\<exists>ev c'. sys_step svs c i ev c' \<and> cf_world c' = w' \<and> cf_procs c' = (cf_procs c)(i := p')"
proof -
  from assms(1) have "follows (cf_procs c i) (cf_held c i)" by (simp add: lock_inv_def)
  from follows_step [OF this assms(2)] obtain ev g' where
    "event1 (svs i) (cf_procs c i) (cf_world c) = Some ev" "lock_monitor (cf_held c i) ev = Some g'" by blast
  from node_step [of svs, OF assms(2) this] show ?thesis by fastforce
qed

text \<open>All nodes start with a list of requests and hold nothing.\<close>

definition start_config :: "(nat \<Rightarrow> ('l, 'v, 's, 'k, 'q) Service) \<Rightarrow> (nat \<Rightarrow> request list)
    \<Rightarrow> ('l, 'v, 's, 'k, 'q) World \<Rightarrow> (error option list, 'l, 'v, 's, 'k, 'q) Config" where
  "start_config svs reqs w = \<lparr>cf_procs = (\<lambda>i. perform_all (svs i) (reqs i)), cf_held = (\<lambda>_. None), cf_world = w\<rparr>"

lemma volume_write_held:
  assumes "sys_step svs c i (EvAct a e) c'" "writes_volume a"
  shows "\<exists>h vg. cf_held c i = Some (h, vg) \<and> needs_lock a vg"
  using assms by (auto elim!: sys_stepE split: option.splits if_splits prod.splits)

section \<open>Schedules\<close>

text \<open>A schedule says which node makes each next call; running it gives a reachable configuration.\<close>

definition advance :: "(nat \<Rightarrow> ('l, 'v, 's, 'k, 'q) Service) \<Rightarrow> nat \<Rightarrow> ('a, 'l, 'v, 's, 'k, 'q) Config
    \<Rightarrow> ('a, 'l, 'v, 's, 'k, 'q) Config option" where
  "advance svs i c =
     (case step1 (svs i) (cf_procs c i) (cf_world c) of
        None \<Rightarrow> None
      | Some (p', w') \<Rightarrow>
          (case event1 (svs i) (cf_procs c i) (cf_world c) of
             None \<Rightarrow> None
           | Some ev \<Rightarrow>
               (case lock_monitor (cf_held c i) ev of
                  None \<Rightarrow> None
                | Some g' \<Rightarrow> Some \<lparr>cf_procs = (cf_procs c)(i := p'), cf_held = (cf_held c)(i := g'), cf_world = w'\<rparr>)))"

primrec schedule :: "(nat \<Rightarrow> ('l, 'v, 's, 'k, 'q) Service) \<Rightarrow> nat list \<Rightarrow> ('a, 'l, 'v, 's, 'k, 'q) Config
    \<Rightarrow> ('a, 'l, 'v, 's, 'k, 'q) Config option" where
  "schedule svs [] c = Some c"
| "schedule svs (i # is) c = (case advance svs i c of None \<Rightarrow> None | Some c' \<Rightarrow> schedule svs is c')"

text \<open>The result of a handler that is done.\<close>

fun answer :: "'a proc \<Rightarrow> 'a option" where
  "answer (Done x) = Some x"
| "answer _ = None"

lemma advance_step:
  "advance svs i c = Some c' \<Longrightarrow> \<exists>ev. event1 (svs i) (cf_procs c i) (cf_world c) = Some ev \<and> sys_step svs c i ev c'"
  by (auto simp: advance_def intro: node_step split: option.splits prod.splits)

lemma schedule_reachable: "schedule svs is c = Some c' \<Longrightarrow> reachable svs c0 c \<Longrightarrow> reachable svs c0 c'"
proof (induction "is" arbitrary: c)
  case (Cons i "is")
  then show ?case by (auto split: option.splits dest!: advance_step intro: reachable.step)
qed simp

end
