(* ===== verification/Thin.thy ===== *)
theory Thin
  imports Disk_Correctness Lock_Discipline
begin

text \<open>
  The auto-extend loop of \<open>src/internal/thin/manager.go\<close>: the checks of \<open>New\<close>, one
  inspection pass (\<open>tick\<close>) as a tree of interface calls that returns what it logs, and the
  life of the polling loop under \<open>Run\<close> and \<open>Stop\<close> as a step relation. The lemmas show
  what a pass may change in the catalog, which VMs it asks libvirt about, and that a \<open>Stop\<close>
  that returns after the loop began finds the loop ended.
\<close>

section \<open>The manager\<close>

record ThinManager =
  tm_pollInterval :: int
  tm_freeThresholdPercent :: int
  tm_extendStepPercent :: int
  tm_nodeID :: string

text \<open>
  \<open>Options\<close>: whether each of the three interfaces is set, and the values. The service, the
  client and the store are those of the disk service the calls of \<open>tick\<close> go to.
\<close>

record ThinOptions =
  to_Disks :: bool
  to_Libvirt :: bool
  to_Store :: bool
  to_PollInterval :: int
  to_FreeThresholdPercent :: int
  to_ExtendStepPercent :: int
  to_NodeID :: string

definition thin_New :: "ThinOptions \<Rightarrow> ThinManager result" where
  "thin_New o' =
     (if \<not> to_Disks o' \<or> \<not> to_Libvirt o' \<or> \<not> to_Store o'
      then Inl (Errorf ''thin: Disks, Libvirt, and Store are required'' [])
      else let o' = (if to_PollInterval o' \<le> 0 then o'\<lparr>to_PollInterval := 15 * 1000000000\<rparr> else o') in
      if to_FreeThresholdPercent o' \<le> 0 \<or> 100 \<le> to_FreeThresholdPercent o'
      then Inl (Errorf ''thin: free_threshold_percent must be in (0, 100), got %d'' [dec_int (to_FreeThresholdPercent o')])
      else if to_ExtendStepPercent o' \<le> 0 then Inl (Errorf ''thin: extend_step_percent must be > 0'' [])
      else if to_NodeID o' = [] then Inl (Errorf ''thin: NodeID is required'' [])
      else Inr \<lparr>tm_pollInterval = to_PollInterval o', tm_freeThresholdPercent = to_FreeThresholdPercent o',
             tm_extendStepPercent = to_ExtendStepPercent o', tm_nodeID = to_NodeID o'\<rparr>)"

definition thin_valid :: "ThinManager \<Rightarrow> bool" where
  "thin_valid m \<longleftrightarrow> 0 < tm_pollInterval m \<and> 0 < tm_freeThresholdPercent m \<and> tm_freeThresholdPercent m < 100
     \<and> 0 < tm_extendStepPercent m \<and> tm_nodeID m \<noteq> []"

lemma thin_New_valid: "thin_New o' = Inr m \<Longrightarrow> thin_valid m"
  by (auto simp: thin_New_def thin_valid_def Let_def split: if_splits)

section \<open>One pass\<close>

text \<open>What a pass writes to the log, debug lines included.\<close>

datatype thin_entry =
    ListFailed error
  | StatsFailed string error
  | Inspected string string string f64
  | ExtendFailed string error
  | Extended string string string u64 u64 f64

text \<open>
  The grouping of this node's attachments by VM; an attachment without a host counts as local.
  \<open>append(byVM[vm], a)\<close> on a missing key starts a new slice.
\<close>

definition is_local :: "ThinManager \<Rightarrow> AttachmentRecord \<Rightarrow> bool" where
  "is_local m a \<longleftrightarrow> \<not> (aHost a \<noteq> [] \<and> aHost a \<noteq> tm_nodeID m)"

fun groupByVM :: "ThinManager \<Rightarrow> AttachmentRecord list \<Rightarrow> (string, AttachmentRecord list) gomap
    \<Rightarrow> (string, AttachmentRecord list) gomap" where
  "groupByVM m [] byVM = byVM"
| "groupByVM m (a # as) byVM =
     (if \<not> is_local m a then groupByVM m as byVM
      else groupByVM m as (AList.update (aVMName a)
        ((case map_of byVM (aVMName a) of None \<Rightarrow> [] | Some xs \<Rightarrow> xs) @ [a]) byVM))"

definition statsByDev :: "BlockStats list \<Rightarrow> (string, BlockStats) gomap" where
  "statsByDev stats = fold (\<lambda>s. AList.update (bs_Name s) s) stats []"

definition inspect :: "ThinManager \<Rightarrow> string \<Rightarrow> (string, BlockStats) gomap \<Rightarrow> AttachmentRecord \<Rightarrow> thin_entry list proc" where
  "inspect m vm byDev a =
     GetDisk (aDiskName a) (\<lambda>g. case g of
       Inl _ \<Rightarrow> Done []
     | Inr rec \<Rightarrow>
         if dMode rec \<noteq> ProvisionThin then Done []
         else (case map_of byDev (aTargetDev a) of
           None \<Rightarrow> Done []
         | Some s \<Rightarrow>
             (let free = FreePercent s;
                  seen = Inspected vm (dName rec) (aTargetDev a) free in
              if of_int (tm_freeThresholdPercent m) \<le> free then Done [seen]
              else bind (Service_ExtendByPercent (dName rec) (tm_extendStepPercent m)) (\<lambda>r. case r of
                Inl err \<Rightarrow> Done [seen, ExtendFailed (dName rec) err]
              | Inr updated \<Rightarrow>
                  Done [seen, Extended (dName rec) vm (aTargetDev a) (dSizeBytes rec) (dSizeBytes updated) free]))))"

fun inspectAll :: "ThinManager \<Rightarrow> string \<Rightarrow> (string, BlockStats) gomap \<Rightarrow> AttachmentRecord list \<Rightarrow> thin_entry list proc" where
  "inspectAll m vm byDev [] = Done []"
| "inspectAll m vm byDev (a # as) =
     bind (inspect m vm byDev a) (\<lambda>es. bind (inspectAll m vm byDev as) (\<lambda>es'. Done (es @ es')))"

fun inspectVMs :: "ThinManager \<Rightarrow> (string, AttachmentRecord list) gomap \<Rightarrow> thin_entry list proc" where
  "inspectVMs m [] = Done []"
| "inspectVMs m ((vm, vmAtts) # rest) =
     DomainStats vm (\<lambda>r. case r of
       Inl err \<Rightarrow> bind (inspectVMs m rest) (\<lambda>es. Done (StatsFailed vm err # es))
     | Inr stats \<Rightarrow>
         bind (inspectAll m vm (statsByDev stats) vmAtts) (\<lambda>es.
           bind (inspectVMs m rest) (\<lambda>es'. Done (es @ es'))))"

text \<open>\<open>order\<close> is the order in which the runtime ranges over the map.\<close>

definition tick :: "((string, AttachmentRecord list) gomap \<Rightarrow> (string, AttachmentRecord list) gomap)
    \<Rightarrow> ThinManager \<Rightarrow> thin_entry list proc" where
  "tick order m =
     ListAttachments [] [] (\<lambda>r. case r of
       Inl err \<Rightarrow> Done [ListFailed err]
     | Inr atts \<Rightarrow> inspectVMs m (order (groupByVM m atts [])))"

section \<open>Grouping\<close>

lemma groupByVM_ok: "gomap_ok byVM \<Longrightarrow> gomap_ok (groupByVM m as byVM)"
  by (induction m as byVM rule: groupByVM.induct) simp_all

lemma groupByVM_lookup:
  "map_of (groupByVM m as byVM) vm =
     (let new = filter (\<lambda>a. is_local m a \<and> aVMName a = vm) as in
      case map_of byVM vm of Some xs \<Rightarrow> Some (xs @ new) | None \<Rightarrow> if new = [] then None else Some new)"
  by (induction m as byVM rule: groupByVM.induct) (auto simp: Let_def split: option.splits)

lemma groupByVM_members:
  assumes "(vm, xs) \<in> set (groupByVM m as [])"
  shows "xs = filter (\<lambda>a. is_local m a \<and> aVMName a = vm) as" "xs \<noteq> []"
proof -
  have "gomap_ok (groupByVM m as [])" by (simp add: groupByVM_ok)
  with assms have "map_of (groupByVM m as []) vm = Some xs" by (simp add: gomap_in_set)
  then show "xs = filter (\<lambda>a. is_local m a \<and> aVMName a = vm) as" "xs \<noteq> []"
    by (auto simp: groupByVM_lookup Let_def split: if_splits)
qed

lemma groupByVM_keys: "set (map fst (groupByVM m as [])) = aVMName ` {a \<in> set as. is_local m a}"
proof -
  have "vm \<in> set (map fst (groupByVM m as [])) \<longleftrightarrow> map_of (groupByVM m as []) vm \<noteq> None" for vm
    by (simp add: map_of_eq_None_iff)
  also have "map_of (groupByVM m as []) vm \<noteq> None \<longleftrightarrow> vm \<in> aVMName ` {a \<in> set as. is_local m a}" for vm
    by (auto simp: groupByVM_lookup Let_def filter_empty_conv)
  finally show ?thesis by blast
qed

lemma statsByDev_lookup:
  "map_of (statsByDev stats) dev = find (\<lambda>s. bs_Name s = dev) (rev stats)"
proof (induction stats rule: rev_induct)
  case (snoc s ss)
  then show ?case by (simp add: statsByDev_def)
qed (simp add: statsByDev_def)

section \<open>What a pass does to the catalog\<close>

text \<open>
  A pass may only grow thin disks that have an attachment in \<open>as\<close>: everything else in the
  catalog, and every other field of those disks, stays.
\<close>

definition grown :: "AttachmentRecord set \<Rightarrow> Catalog \<Rightarrow> Catalog \<Rightarrow> bool" where
  "grown as c c' \<longleftrightarrow> cat_atts c' = cat_atts c \<and>
     (\<forall>n. cat_disks c' n = cat_disks c n \<or>
        (\<exists>r sz t. cat_disks c n = Some r \<and> dMode r = ProvisionThin \<and> n \<in> aDiskName ` as \<and>
           cat_disks c' n = Some (r\<lparr>dSizeBytes := sz, dLastExtendedAt := t\<rparr>)))"

lemma grown_refl [simp]: "grown as c c"
  by (simp add: grown_def)

lemma grown_trans: "grown as c c' \<Longrightarrow> grown as c' c'' \<Longrightarrow> grown as c c''"
proof -
  assume a: "grown as c c'" "grown as c' c''"
  have "cat_disks c'' n = cat_disks c n \<or>
        (\<exists>r sz t. cat_disks c n = Some r \<and> dMode r = ProvisionThin \<and> n \<in> aDiskName ` as \<and>
           cat_disks c'' n = Some (r\<lparr>dSizeBytes := sz, dLastExtendedAt := t\<rparr>))" for n
  proof (cases "cat_disks c' n = cat_disks c n")
    case True
    with a(2) show ?thesis unfolding grown_def by metis
  next
    case False
    with a(1) obtain r sz t where r: "cat_disks c n = Some r" "dMode r = ProvisionThin" "n \<in> aDiskName ` as"
      "cat_disks c' n = Some (r\<lparr>dSizeBytes := sz, dLastExtendedAt := t\<rparr>)" unfolding grown_def by blast
    from a(2) have "cat_disks c'' n = cat_disks c' n \<or> (\<exists>r' sz' t'. cat_disks c' n = Some r' \<and>
        cat_disks c'' n = Some (r'\<lparr>dSizeBytes := sz', dLastExtendedAt := t'\<rparr>))"
      unfolding grown_def by blast
    with r show ?thesis by fastforce
  qed
  with a show ?thesis unfolding grown_def by metis
qed

lemma grown_mono: "grown as c c' \<Longrightarrow> as \<subseteq> bs \<Longrightarrow> grown bs c c'"
  unfolding grown_def by blast

lemma grown_put:
  assumes "cat_disks c n = Some r" "dMode r = ProvisionThin" "n \<in> aDiskName ` as" "dName r = n"
  shows "grown as c (put_disk (r\<lparr>dSizeBytes := sz, dLastExtendedAt := t\<rparr>) c)"
  unfolding grown_def
proof (intro conjI allI)
  fix k
  show "cat_disks (put_disk (r\<lparr>dSizeBytes := sz, dLastExtendedAt := t\<rparr>) c) k = cat_disks c k \<or>
    (\<exists>r' sz' t'. cat_disks c k = Some r' \<and> dMode r' = ProvisionThin \<and> k \<in> aDiskName ` as \<and>
       cat_disks (put_disk (r\<lparr>dSizeBytes := sz, dLastExtendedAt := t\<rparr>) c) k = Some (r'\<lparr>dSizeBytes := sz', dLastExtendedAt := t'\<rparr>))"
    using assms by (cases "k = n") auto
qed simp

lemma grown_extend:
  assumes "extend_effect rel n f c x c'" "catalog_ok ok c" "cat_disks c n = Some r" "dMode r = ProvisionThin"
    and "n \<in> aDiskName ` as"
  shows "grown as c c'"
  using assms grown_put [OF assms(3-5) catalog_okD(1) [OF assms(2,3)]]
  by (cases x) (auto simp: write_may_def)

lemma inspect_catalog:
  assumes "catalog_ok ok c"
  shows "catsafe rel ok unwatched (inspect m vm byDev a) c g (\<lambda>_ c' _. catalog_ok ok c' \<and> grown {a} c c')"
proof -
  have "catsafe rel ok unwatched (Service_ExtendByPercent (dName rec) pc) c g
      (\<lambda>_ c' _. catalog_ok ok c' \<and> grown {a} c c')"
    if "cat_disks c (aDiskName a) = Some rec" "dMode rec = ProvisionThin" for rec pc
    using that effects_keep_catalog_ok(5) [OF assms] grown_extend [OF _ assms that, of rel _ _ _ "{a}"]
      catalog_okD(1) [OF assms that(1)]
    by (intro catsafe_mono [OF ExtendByPercent_catalog [OF assms]]) auto
  then have ext: "catsafe rel ok unwatched
      (bind (Service_ExtendByPercent (dName rec) pc) (\<lambda>r. case r of Inl err \<Rightarrow> Done (f err) | Inr u \<Rightarrow> Done (h u))) c g
      (\<lambda>_ c' _. catalog_ok ok c' \<and> grown {a} c c')"
    if "cat_disks c (aDiskName a) = Some rec" "dMode rec = ProvisionThin" for rec pc f h
    unfolding catsafe_bind by (rule catsafe_mono) (use that in \<open>auto split: sum.split\<close>)
  from assms show ?thesis by (auto simp: inspect_def Let_def reply_cases split: option.split intro: ext)
qed

lemma inspectAll_catalog:
  "catalog_ok ok c \<Longrightarrow> catsafe rel ok unwatched (inspectAll m vm byDev as) c g
     (\<lambda>_ c' _. catalog_ok ok c' \<and> grown (set as) c c')"
proof (induction as arbitrary: c g)
  case (Cons a as)
  have "grown (set (a # as)) c c''" if "grown {a} c c'" "grown (set as) c' c''" for c' c''
    using that by (auto intro: grown_trans grown_mono)
  then show ?case
    unfolding inspectAll.simps catsafe_bind catsafe.simps
    by (intro catsafe_mono [OF inspect_catalog [OF Cons.prems]] catsafe_mono [OF Cons.IH]) auto
qed simp

lemma inspectVMs_catalog:
  "catalog_ok ok c \<Longrightarrow> catsafe rel ok unwatched (inspectVMs m byVM) c g
     (\<lambda>_ c' _. catalog_ok ok c' \<and> grown (\<Union>(set ` snd ` set byVM)) c c')"
proof (induction byVM arbitrary: c g)
  case (Cons p rest)
  obtain vm xs where p: "p = (vm, xs)" by (cases p)
  let ?all = "\<Union>(set ` snd ` set (p # rest))"
  have g: "grown ?all c c''" if "grown (set xs) c c'" "grown (\<Union>(set ` snd ` set rest)) c' c''" for c' c''
    using that grown_mono [of "set xs" c c' ?all] grown_mono [of _ c' c'' ?all] by (auto simp: p intro: grown_trans)
  have "catsafe rel ok unwatched (inspectVMs m rest) c g (\<lambda>_ c' _. catalog_ok ok c' \<and> grown ?all c c')"
    using g [OF grown_refl] by (intro catsafe_mono [OF Cons.IH [OF Cons.prems]]) blast
  moreover have "catsafe rel ok unwatched (inspectAll m vm ss xs) c g
     (\<lambda>_ c' g. catsafe rel ok unwatched (inspectVMs m rest) c' g (\<lambda>_ c'' _. catalog_ok ok c'' \<and> grown ?all c c''))" for ss
    using g by (intro catsafe_mono [OF inspectAll_catalog [OF Cons.prems]] catsafe_mono [OF Cons.IH]) blast+
  ultimately show ?case unfolding p by (simp add: catsafe_simps reply_cases)
qed simp

lemma groupByVM_range:
  assumes "mset byVM = mset (groupByVM m as [])"
  shows "\<Union>(set ` snd ` set byVM) = {a \<in> set as. is_local m a}"
proof -
  have s: "set byVM = set (groupByVM m as [])" using assms by (rule mset_eq_setD)
  have "\<exists>p\<in>set (groupByVM m as []). a \<in> set (snd p)" if "a \<in> set as" "is_local m a" for a
  proof -
    have "map_of (groupByVM m as []) (aVMName a) = Some (filter (\<lambda>b. is_local m b \<and> aVMName b = aVMName a) as)"
      using that by (auto simp: groupByVM_lookup Let_def filter_empty_conv)
    from map_of_SomeD [OF this] that show ?thesis by force
  qed
  then show ?thesis unfolding s using groupByVM_members(1) [of _ _ m as] by fastforce
qed

lemma tick_catalog:
  assumes "catalog_ok ok c" "ok []" "\<And>x. mset (order x) = mset x"
  shows "catsafe rel ok unwatched (tick order m) c g
     (\<lambda>_ c' _. catalog_ok ok c' \<and> grown {a \<in> ran (cat_atts c). is_local m a} c c')"
proof -
  have "catsafe rel ok unwatched (inspectVMs m (order (groupByVM m as []))) c g
     (\<lambda>_ c' _. catalog_ok ok c' \<and> grown {a \<in> ran (cat_atts c). is_local m a} c c')" if "lists_atts [] [] c as" for as
    using inspectVMs_catalog [OF assms(1), of rel m "order (groupByVM m as [])" g] that
    unfolding groupByVM_range [OF assms(3)] by (simp add: lists_atts_def)
  with assms show ?thesis by (auto simp: tick_def reply_cases)
qed

section \<open>The calls of a pass\<close>

lemma inspect_locked: "safe lock_monitor (inspect m vm byDev a) None (\<lambda>_ g. g = None)"
proof -
  have "safe lock_monitor (bind (Service_ExtendByPercent n pc) (\<lambda>r. case r of Inl e \<Rightarrow> Done (f e) | Inr u \<Rightarrow> Done (h u))) None
      (\<lambda>_ g. g = None)" for n pc and f :: "error \<Rightarrow> thin_entry list" and h
    using ExtendByPercent_disciplined [of n pc] unfolding disciplined_def safe_bind
    by (rule safe_mono) (auto split: sum.split)
  then show ?thesis by (auto simp: inspect_def Let_def reply_cases split: option.split)
qed

lemma inspectAll_locked: "safe lock_monitor (inspectAll m vm byDev as) None (\<lambda>_ g. g = None)"
proof (induction as)
  case (Cons a as)
  then show ?case
    unfolding inspectAll.simps safe_bind safe.simps by (intro safe_mono [OF inspect_locked]) (auto elim: safe_mono)
qed simp

lemma inspectVMs_locked: "safe lock_monitor (inspectVMs m byVM) None (\<lambda>_ g. g = None)"
proof (induction byVM)
  case (Cons p rest)
  obtain vm xs where p: "p = (vm, xs)" by (cases p)
  have "safe lock_monitor (inspectAll m vm ss xs) None
      (\<lambda>_ g. safe lock_monitor (inspectVMs m rest) g (\<lambda>_ g. g = None))" for ss
    using Cons.IH by (intro safe_mono [OF inspectAll_locked]) auto
  with Cons.IH show ?case by (simp add: p safe_simps reply_cases)
qed simp

lemma tick_disciplined: "disciplined (tick order m)"
  using inspectVMs_locked by (simp add: disciplined_def tick_def reply_cases)

text \<open>The VMs libvirt is asked about, in order.\<close>

definition asked :: "event list \<Rightarrow> string list" where
  "asked es = List.map_filter (\<lambda>e. case e of EvDomainStats vm _ \<Rightarrow> Some vm | _ \<Rightarrow> None) es"

fun stats_monitor :: "string list monitor" where
  "stats_monitor vs (EvDomainStats vm r) = Some (vs @ [vm])"
| "stats_monitor vs _ = Some vs"

lemma stats_monitor_asked: "monitors stats_monitor vs es = Some (vs @ asked es)"
proof (induction es arbitrary: vs)
  case (Cons e es)
  then show ?case by (cases e) (simp_all add: asked_def map_filter_simps)
qed (simp add: asked_def map_filter_simps)

lemma resizeAll_asks: "safe stats_monitor p vs Q \<Longrightarrow> safe stats_monitor (resizeAll as sz p) vs Q"
  by (induction as) (simp_all add: safe_simps)

lemma ExtendByPercent_asks: "safe stats_monitor (Service_ExtendByPercent n pc) vs (\<lambda>_ vs'. vs' = vs)"
  by (auto simp: Service_ExtendByPercent_def recordExtended_def safe_simps reply_cases Let_def resizeAll_asks)

lemma inspect_asks: "safe stats_monitor (inspect m vm byDev a) vs (\<lambda>_ vs'. vs' = vs)"
proof -
  have "safe stats_monitor (bind (Service_ExtendByPercent n pc) (\<lambda>r. case r of Inl e \<Rightarrow> Done (f e) | Inr u \<Rightarrow> Done (h u))) vs
      (\<lambda>_ vs'. vs' = vs)" for n pc and f :: "error \<Rightarrow> thin_entry list" and h
    unfolding safe_bind by (rule safe_mono [OF ExtendByPercent_asks]) (auto split: sum.split)
  then show ?thesis by (auto simp: inspect_def Let_def reply_cases split: option.split)
qed

lemma inspectAll_asks: "safe stats_monitor (inspectAll m vm byDev as) vs (\<lambda>_ vs'. vs' = vs)"
proof (induction as)
  case (Cons a as)
  then show ?case
    unfolding inspectAll.simps safe_bind safe.simps by (intro safe_mono [OF inspect_asks]) (auto elim: safe_mono)
qed simp

lemma inspectVMs_asks: "safe stats_monitor (inspectVMs m byVM) vs (\<lambda>_ vs'. vs' = vs @ map fst byVM)"
proof (induction byVM arbitrary: vs)
  case (Cons p rest)
  obtain vm xs where p: "p = (vm, xs)" by (cases p)
  have "safe stats_monitor (inspectAll m vm ss xs) (vs @ [vm])
      (\<lambda>_ g. safe stats_monitor (inspectVMs m rest) g (\<lambda>_ g. g = vs @ vm # map fst rest))" for ss
    using Cons.IH [of "vs @ [vm]"] by (intro safe_mono [OF inspectAll_asks]) auto
  with Cons.IH [of "vs @ [vm]"] show ?case by (simp add: p safe_simps reply_cases)
qed simp

lemma inspectVMs_asked: "asked (events sv (inspectVMs m byVM) w) = map fst byVM"
  using safe_run [OF inspectVMs_asks [of m byVM "[]"], of sv w] by (simp add: stats_monitor_asked)

lemma asked_Cons_list [simp]: "asked (EvListAttachments d v r # es) = asked es"
  by (simp add: asked_def map_filter_simps)

section \<open>The decision\<close>

lemma events_bind:
  "events sv (bind p f) w = events sv p w @ (case run sv p w of (x, w') \<Rightarrow> events sv (f x) w')"
  by (induction p arbitrary: w) (auto split: prod.splits)

text \<open>The calls that grow a volume by the configured step.\<close>

definition grows_by :: "int \<Rightarrow> event \<Rightarrow> bool" where
  "grows_by pc ev \<longleftrightarrow> (\<exists>vg n e. ev = EvAct (ExtendLVPercent vg n pc) e)"

definition due :: "ThinManager \<Rightarrow> (string, BlockStats) gomap \<Rightarrow> DiskRecord \<Rightarrow> string \<Rightarrow> bool" where
  "due m byDev rec dev \<longleftrightarrow> dMode rec = ProvisionThin \<and>
     (case map_of byDev dev of None \<Rightarrow> False | Some s \<Rightarrow> FreePercent s < of_int (tm_freeThresholdPercent m))"

lemma inspect_not_due:
  assumes "on_store (st_GetDisk (sv_Store sv) (aDiskName a)) w = (Inr rec, w1)" "\<not> due m byDev rec (aTargetDev a)"
  shows "events sv (inspect m vm byDev a) w = [EvGetDisk (aDiskName a) (Inr rec)]"
  using assms by (auto simp: inspect_def due_def Let_def not_less split: option.split)

lemma inspect_due:
  assumes "on_store (st_GetDisk (sv_Store sv) (aDiskName a)) w = (Inr rec, w1)" "due m byDev rec (aTargetDev a)"
  shows "set (events sv (Service_ExtendByPercent (dName rec) (tm_extendStepPercent m)) w1)
    \<subseteq> set (events sv (inspect m vm byDev a) w)"
  using assms by (auto simp: inspect_def due_def Let_def not_less events_bind split: option.splits)

lemma ExtendByPercent_calls_lvm:
  assumes "0 < pc" "on_store (st_GetDisk (sv_Store sv) n) w = (Inr rec, w1)"
    and "on_lock (lk_Acquire (sv_Locker sv) (dVG rec)) w1 = (Inr h, w2)"
  shows "EvAct (ExtendLVPercent (dVG rec) (dName rec) pc) (fst (exec_act sv (ExtendLVPercent (dVG rec) (dName rec) pc) w2))
    \<in> set (events sv (Service_ExtendByPercent n pc) w)"
proof -
  obtain e w3 where "exec_act sv (ExtendLVPercent (dVG rec) (dName rec) pc) w2 = (e, w3)" by fastforce
  with assms show ?thesis
    by (auto simp: Service_ExtendByPercent_def deferred_def events_bind simp del: exec_act.simps split: prod.splits)
qed

section \<open>The life of the loop\<close>

text \<open>
  \<open>Run\<close> and \<open>Stop\<close>. \<open>rs_cancel\<close> and \<open>rs_doneCh\<close> say whether \<open>m.cancel\<close> and
  \<open>m.doneCh\<close> are set, \<open>rs_closed\<close> whether the channel is closed; setting the two fields is
  one step. A ticker may fire although the context is cancelled, since \<open>select\<close> chooses
  among the ready cases.
\<close>

datatype loop_phase = NotStarted | InTick | Waiting | Returned
datatype stop_phase = NotCalled | AwaitsDone | StopReturned

record RunState =
  rs_loop :: loop_phase
  rs_stop :: stop_phase
  rs_cancel :: bool
  rs_doneCh :: bool
  rs_cancelled :: bool
  rs_closed :: bool
  rs_ticks :: nat

definition new_run :: RunState where
  "new_run = \<lparr>rs_loop = NotStarted, rs_stop = NotCalled, rs_cancel = False, rs_doneCh = False,
     rs_cancelled = False, rs_closed = False, rs_ticks = 0\<rparr>"

inductive loop_step :: "RunState \<Rightarrow> RunState \<Rightarrow> bool" where
  run_begins: "rs_loop s = NotStarted \<Longrightarrow>
    loop_step s (s\<lparr>rs_loop := InTick, rs_cancel := True, rs_doneCh := True\<rparr>)"
| tick_ends: "rs_loop s = InTick \<Longrightarrow> loop_step s (s\<lparr>rs_loop := Waiting, rs_ticks := Suc (rs_ticks s)\<rparr>)"
| ticker_fires: "rs_loop s = Waiting \<Longrightarrow> loop_step s (s\<lparr>rs_loop := InTick\<rparr>)"
| context_done: "rs_loop s = Waiting \<Longrightarrow> rs_cancelled s \<Longrightarrow> loop_step s (s\<lparr>rs_loop := Returned, rs_closed := True\<rparr>)"
| parent_cancelled: "loop_step s (s\<lparr>rs_cancelled := True\<rparr>)"
| stop_called: "rs_stop s = NotCalled \<Longrightarrow>
    loop_step s (s\<lparr>rs_cancelled := (rs_cancelled s \<or> rs_cancel s),
                  rs_stop := (if rs_doneCh s then AwaitsDone else StopReturned)\<rparr>)"
| stop_returns: "rs_stop s = AwaitsDone \<Longrightarrow> rs_closed s \<Longrightarrow> loop_step s (s\<lparr>rs_stop := StopReturned\<rparr>)"

inductive_cases loop_stepE: "loop_step s s'"

definition loop_inv :: "RunState \<Rightarrow> bool" where
  "loop_inv s \<longleftrightarrow> (rs_closed s \<longleftrightarrow> rs_loop s = Returned) \<and> (rs_doneCh s \<longleftrightarrow> rs_loop s \<noteq> NotStarted) \<and>
     (rs_cancel s \<longleftrightarrow> rs_doneCh s) \<and> (rs_stop s = AwaitsDone \<longrightarrow> rs_doneCh s \<and> rs_cancelled s)"

lemma loop_inv_step: "loop_inv s \<Longrightarrow> loop_step s s' \<Longrightarrow> loop_inv s'"
  by (erule loop_stepE) (auto simp: loop_inv_def)

interpretation loop: step_invariant loop_step loop_inv
  by unfold_locales (rule loop_inv_step)

text \<open>A \<open>Stop\<close> called after \<open>Run\<close> began returns only after the loop has ended.\<close>

definition stop_kept :: "RunState \<Rightarrow> bool" where
  "stop_kept s \<longleftrightarrow> rs_doneCh s \<and> (rs_stop s = StopReturned \<longrightarrow> rs_loop s = Returned)"

lemma stop_kept_step: "loop_inv s \<Longrightarrow> stop_kept s \<Longrightarrow> loop_step s s' \<Longrightarrow> stop_kept s'"
  by (erule loop_stepE) (auto simp: loop_inv_def stop_kept_def)

interpretation stopping: step_invariant loop_step "\<lambda>s. loop_inv s \<and> stop_kept s"
  by unfold_locales (auto intro: loop_inv_step stop_kept_step)

interpretation ended: step_invariant loop_step "\<lambda>s. rs_loop s = Returned"
  by unfold_locales (auto elim: loop_stepE)

lemma returned_stays: "loop_step\<^sup>*\<^sup>* s s' \<Longrightarrow> rs_loop s = Returned \<Longrightarrow> rs_ticks s' = rs_ticks s"
  by (erule ended.unchanged) (auto elim: loop_stepE)

text \<open>A \<open>Stop\<close> that waits can return: the pass under way ends, the loop leaves, the channel closes.\<close>

lemma stop_can_return:
  assumes "loop_inv s" "rs_stop s = AwaitsDone"
  shows "\<exists>s'. loop_step\<^sup>*\<^sup>* s s' \<and> rs_stop s' = StopReturned \<and> rs_ticks s' \<le> Suc (rs_ticks s)"
proof -
  have from_closed: "\<exists>s'. loop_step\<^sup>*\<^sup>* s s' \<and> rs_stop s' = StopReturned \<and> rs_ticks s' = rs_ticks s"
    if "rs_stop s = AwaitsDone" "rs_closed s" for s
    using stop_returns [OF that] by (intro exI [of _ "s\<lparr>rs_stop := StopReturned\<rparr>"]) auto
  have from_waiting: "\<exists>s'. loop_step\<^sup>*\<^sup>* s s' \<and> rs_stop s' = StopReturned \<and> rs_ticks s' = rs_ticks s"
    if "rs_stop s = AwaitsDone" "rs_loop s = Waiting" "rs_cancelled s" for s
    using converse_rtranclp_into_rtranclp [of loop_step, OF context_done [OF that(2,3)]]
      from_closed [of "s\<lparr>rs_loop := Returned, rs_closed := True\<rparr>"] that(1) by auto
  show ?thesis
  proof (cases "rs_loop s")
    case InTick
    from assms have "rs_cancelled s" by (simp add: loop_inv_def)
    with from_waiting [of "s\<lparr>rs_loop := Waiting, rs_ticks := Suc (rs_ticks s)\<rparr>"] assms(2) obtain s' where
      "loop_step\<^sup>*\<^sup>* (s\<lparr>rs_loop := Waiting, rs_ticks := Suc (rs_ticks s)\<rparr>) s'" "rs_stop s' = StopReturned"
      "rs_ticks s' = Suc (rs_ticks s)" by auto
    with converse_rtranclp_into_rtranclp [of loop_step, OF tick_ends [OF InTick]] show ?thesis
      by (intro exI [of _ s']) simp
  qed (use assms from_waiting [of s] from_closed [of s] in \<open>auto simp: loop_inv_def\<close>)
qed

end
