(* ===== verification/Row_Types.thy ===== *)
theory Row_Types
  imports Interleaving Thin
begin

text \<open>
  The types of the rows in the catalog under concurrency. The handlers of all nodes and the thin
  managers' passes interleave call by call, with whatever locks they take or do not take. Each is
  judged alone, by what it relies on (the rows it reads are well typed) and what it guarantees
  (the rows it writes are); the judgement is then carried along every interleaving, for every
  store that meets the contract.
\<close>

section \<open>Well-typed rows\<close>

definition disk_typed :: "(string \<Rightarrow> bool) \<Rightarrow> DiskRecord \<Rightarrow> bool" where
  "disk_typed ok r \<longleftrightarrow> disk_ok r \<and> ok (dName r)"

definition att_typed :: "(string \<Rightarrow> bool) \<Rightarrow> AttachmentRecord \<Rightarrow> bool" where
  "att_typed ok a \<longleftrightarrow> aVMName a \<noteq> [] \<and> ok (aDiskName a)"

definition rows_typed :: "(string \<Rightarrow> bool) \<Rightarrow> Catalog \<Rightarrow> bool" where
  "rows_typed ok c \<longleftrightarrow> (\<forall>n r. cat_disks c n = Some r \<longrightarrow> dName r = n \<and> disk_typed ok r)
     \<and> (\<forall>k a. cat_atts c k = Some a \<longrightarrow> att_key a = k \<and> att_typed ok a)"

lemma catalog_ok_rows_typed: "catalog_ok ok c \<Longrightarrow> rows_typed ok c"
  by (fastforce simp: rows_typed_def catalog_ok_def disk_typed_def att_typed_def)

lemma rows_typed_ops:
  "rows_typed ok c \<Longrightarrow> disk_typed ok r \<Longrightarrow> rows_typed ok (put_disk r c)"
  "rows_typed ok c \<Longrightarrow> rows_typed ok (drop_disk n c)"
  "rows_typed ok c \<Longrightarrow> att_typed ok a \<Longrightarrow> rows_typed ok (put_att a c)"
  "rows_typed ok c \<Longrightarrow> rows_typed ok (drop_att d v c)"
  by (auto simp: rows_typed_def split: if_splits)

lemma rows_typedD:
  "rows_typed ok c \<Longrightarrow> lists_disks vg c ds \<Longrightarrow> \<forall>d\<in>set ds. disk_typed ok d"
  "rows_typed ok c \<Longrightarrow> lists_atts d v c as \<Longrightarrow> \<forall>a\<in>set as. att_typed ok a"
  by (auto simp: rows_typed_def lists_disks_def lists_atts_def ran_def)

section \<open>Well-typed programs\<close>

text \<open>What a call that writes must give the store, and what the replies of the reads have.\<close>

fun act_typed :: "(string \<Rightarrow> bool) \<Rightarrow> act \<Rightarrow> bool" where
  "act_typed ok (CreateDisk r) = disk_typed ok r"
| "act_typed ok (UpdateDisk r) = disk_typed ok r"
| "act_typed ok (CreateAttachment a) = att_typed ok a"
| "act_typed ok (DeleteAttachment d v) = ok d"
| "act_typed ok _ = True"

definition reply_typed :: "('a \<Rightarrow> bool) \<Rightarrow> 'a result \<Rightarrow> bool" where
  "reply_typed P r = (case r of Inl _ \<Rightarrow> True | Inr x \<Rightarrow> P x)"

lemma reply_typed_simps [simp]: "reply_typed P (Inl e)" "reply_typed P (Inr x) = P x"
  by (simp_all add: reply_typed_def)

primrec typed :: "(string \<Rightarrow> bool) \<Rightarrow> 'a proc \<Rightarrow> bool" where
  "typed ok (Done x) = True"
| "typed ok (Act a k) = (act_typed ok a \<and> (\<forall>e. typed ok (k e)))"
| "typed ok (Acquire vg k) = (\<forall>r. typed ok (k r))"
| "typed ok (Release h p) = typed ok p"
| "typed ok (GetDisk n k) = (\<forall>r. reply_typed (\<lambda>d. dName d = n \<and> disk_typed ok d) r \<longrightarrow> typed ok (k r))"
| "typed ok (ListDisks vg k) = (\<forall>r. reply_typed (\<lambda>ds. \<forall>d\<in>set ds. disk_typed ok d) r \<longrightarrow> typed ok (k r))"
| "typed ok (GetAttachment d v k) =
     (ok d \<and> (\<forall>r. reply_typed (\<lambda>a. att_key a = (d, v) \<and> att_typed ok a) r \<longrightarrow> typed ok (k r)))"
| "typed ok (ListAttachments d v k) =
     (ok d \<and> (\<forall>r. reply_typed (\<lambda>as. \<forall>a\<in>set as. att_typed ok a) r \<longrightarrow> typed ok (k r)))"
| "typed ok (DomainStats vm k) = (\<forall>r. typed ok (k r))"
| "typed ok (DomainExists vm k) = (\<forall>r. typed ok (k r))"
| "typed ok (Now k) = (\<forall>t. typed ok (k t))"
| "typed ok (UnixNano k) = (\<forall>t. typed ok (k t))"

lemma typed_bind: "typed ok p \<Longrightarrow> (\<And>x. typed ok (f x)) \<Longrightarrow> typed ok (bind p f)"
  by (induction p) auto

lemma typed_deferred: "typed ok p \<Longrightarrow> (\<And>x. typed ok (c (Done x))) \<Longrightarrow> typed ok (deferred c p)"
  unfolding deferred_def by (rule typed_bind)

lemma typed_ignoring [simp]: "typed ok (ignoring a p) \<longleftrightarrow> act_typed ok a \<and> typed ok p"
  by (simp add: ignoring_def)

lemmas typed_intros = typed_bind typed_deferred

section \<open>The handlers are well typed\<close>

lemma persistDisk_typed:
  assumes "normaliseCreate sv inp = Inr inp'" "ok (ci_Name inp)"
  shows "typed ok (persistDisk sv inp')"
  using newDiskRecord_ok [OF assms(1)] normaliseCreate_Inr(1) [OF assms(1)] assms(2)
  by (auto simp: persistDisk_def Let_def disk_typed_def newDiskRecord_def reply_cases)

lemma makeQcow2Header_typed: "typed ok (makeQcow2Header sv n v)"
  by (simp add: makeQcow2Header_def Let_def split_option_all)

lemma CreateDisk_typed:
  assumes "ok (ci_Name inp)"
  shows "typed ok (Service_CreateDisk sv inp)"
proof (cases "normaliseCreate sv inp")
  case (Inr inp')
  then show ?thesis
    using persistDisk_typed [where ok = ok, OF Inr assms] makeQcow2Header_typed
    by (auto simp: Service_CreateDisk_def reply_cases intro!: typed_intros split: sum.split option.split)
qed (simp add: Service_CreateDisk_def)

lemma detachLocked_typed: "att_typed ok a \<Longrightarrow> typed ok (detachLocked a)"
  by (simp add: detachLocked_def att_typed_def split_option_all)

lemma detachAll_typed: "\<forall>a\<in>set as. att_typed ok a \<Longrightarrow> typed ok (detachAll as)"
  by (induction as) (auto intro!: typed_bind detachLocked_typed split: option.split)

lemma DeleteDisk_typed: "typed ok (Service_DeleteDisk n force)"
  using detachAll_typed
  by (auto simp: Service_DeleteDisk_def reply_cases disk_typed_def intro!: typed_intros split: option.split)

lemma DetachDisk_typed: "typed ok (Service_DetachDisk d v)"
  by (auto simp: Service_DetachDisk_def reply_cases disk_typed_def intro: detachLocked_typed)

lemma AttachDisk_typed:
  assumes "ok []"
  shows "typed ok (Service_AttachDisk sv inp)"
  using assms
  by (auto simp: Service_AttachDisk_def plugDisk_def Let_def reply_cases disk_typed_def att_typed_def
      intro!: typed_intros split: option.split sum.split bool.split)

lemma resizeAll_typed: "typed ok p \<Longrightarrow> typed ok (resizeAll as sz p)"
  by (induction as) simp_all

lemma recordExtended_typed: "disk_typed ok r \<Longrightarrow> typed ok (recordExtended r sz)"
  by (auto simp: recordExtended_def Let_def reply_cases disk_typed_def disk_ok_def intro!: resizeAll_typed)

lemma ExtendDisk_typed: "typed ok (Service_ExtendDisk inp)"
  by (auto simp: Service_ExtendDisk_def reply_cases intro!: typed_intros recordExtended_typed)

lemma ExtendByPercent_typed: "typed ok (Service_ExtendByPercent n pc)"
  by (auto simp: Service_ExtendByPercent_def Let_def reply_cases intro!: typed_intros recordExtended_typed)

lemma erring_typed: "typed ok p \<Longrightarrow> typed ok (erring p)"
  by (simp add: erring_def typed_bind)

lemma perform_typed: "ok [] \<Longrightarrow> request_ok ok q \<Longrightarrow> typed ok (perform sv q)"
  by (cases q) (auto intro!: erring_typed CreateDisk_typed DeleteDisk_typed AttachDisk_typed DetachDisk_typed
      ExtendDisk_typed ExtendByPercent_typed)

lemma perform_all_typed: "ok [] \<Longrightarrow> \<forall>q\<in>set qs. request_ok ok q \<Longrightarrow> typed ok (perform_all sv qs)"
  by (induction qs) (auto intro!: typed_bind perform_typed)

lemma inspect_typed: "typed ok (inspect m vm byDev a)"
  by (auto simp: inspect_def Let_def reply_cases intro!: typed_bind ExtendByPercent_typed split: option.split sum.split)

lemma inspectAll_typed: "typed ok (inspectAll m vm byDev as)"
  by (induction as) (auto intro!: typed_bind inspect_typed)

lemma inspectVMs_typed: "typed ok (inspectVMs m g)"
  by (induction g rule: inspectVMs.induct) (auto simp: reply_cases intro!: typed_bind inspectAll_typed)

lemma tick_typed: "ok [] \<Longrightarrow> typed ok (tick order m)"
  by (simp add: tick_def reply_cases inspectVMs_typed)

section \<open>Well-typed programs keep rows well typed\<close>

lemma act_keeps_rows:
  assumes "act_outcome False a c e c'" "act_typed ok a" "rows_typed ok c"
  shows "rows_typed ok c'"
  using assms by (cases a; cases e) (auto intro: rows_typed_ops)

context store_contract
begin

lemma typed_act_ok: "act_typed ok a \<Longrightarrow> act_ok ok a"
  by (cases a) (simp_all add: att_typed_def)

lemma typed_step:
  assumes "sv_Store sv = st" "inv (w_store w)" "rows_typed ok (cat (w_store w))" "typed ok p"
    and "step1 sv p w = Some (p', w')"
  shows "inv (w_store w') \<and> rows_typed ok (cat (w_store w')) \<and> typed ok p'"
  using assms(4,5)
proof (cases p)
  case (Act a k)
  obtain e w1 where e: "exec_act sv a w = (e, w1)" by fastforce
  with Act assms(4,5) have "w1 = w'" "p' = k e" "act_typed ok a" "typed ok (k e)" by auto
  with demonic.act_step [OF assms(1,2) typed_act_ok e] act_keeps_rows [OF _ _ assms(3)] show ?thesis by blast
next
  case (GetDisk n k)
  obtain r w1 where r: "on_store (st_GetDisk (sv_Store sv) n) w = (r, w1)" by fastforce
  with demonic.read_step(1) [OF assms(1,2) r] GetDisk assms(3-5) show ?thesis
    by (cases r) (auto simp: rows_typed_def)
next
  case (ListDisks vg k)
  obtain r w1 where r: "on_store (st_ListDisks (sv_Store sv) vg) w = (r, w1)" by fastforce
  with demonic.read_step(2) [OF assms(1,2) r] ListDisks assms(3-5) show ?thesis
    by (cases r) (auto dest: rows_typedD)
next
  case (GetAttachment d v k)
  obtain r w1 where r: "on_store (st_GetAttachment (sv_Store sv) d v) w = (r, w1)" by fastforce
  with demonic.read_step(3) [OF assms(1,2) _ r] GetAttachment assms(3-5) show ?thesis
    by (cases r) (auto simp: rows_typed_def)
next
  case (ListAttachments d v k)
  obtain r w1 where r: "on_store (st_ListAttachments (sv_Store sv) d v) w = (r, w1)" by fastforce
  with demonic.read_step(4) [OF assms(1,2) _ r] ListAttachments assms(3-5) show ?thesis
    by (cases r) (auto dest: rows_typedD)
qed (use assms(2-5) in \<open>auto simp: on_virt_def on_lock_def split: prod.splits\<close>)

end

section \<open>Nodes at work\<close>

text \<open>What a goroutine of some node does: a list of requests, or a pass of the thin manager.\<close>

datatype work = Requests "request list" | AutoExtend ThinManager

fun work_ok :: "(string \<Rightarrow> bool) \<Rightarrow> work \<Rightarrow> bool" where
  "work_ok ok (Requests qs) = list_all (request_ok ok) qs"
| "work_ok ok (AutoExtend m) = True"

definition work_proc :: "((string, AttachmentRecord list) gomap \<Rightarrow> (string, AttachmentRecord list) gomap)
    \<Rightarrow> ('l, 'v, 's, 'k, 'q) Service \<Rightarrow> work \<Rightarrow> error option list proc" where
  "work_proc order sv w = (case w of Requests qs \<Rightarrow> perform_all sv qs | AutoExtend m \<Rightarrow> bind (tick order m) (\<lambda>_. Done []))"

definition work_config :: "((string, AttachmentRecord list) gomap \<Rightarrow> (string, AttachmentRecord list) gomap)
    \<Rightarrow> (nat \<Rightarrow> ('l, 'v, 's, 'k, 'q) Service) \<Rightarrow> (nat \<Rightarrow> work) \<Rightarrow> ('l, 'v, 's, 'k, 'q) World
    \<Rightarrow> (error option list, 'l, 'v, 's, 'k, 'q) Config" where
  "work_config order svs works w =
     \<lparr>cf_procs = (\<lambda>i. work_proc order (svs i) (works i)), cf_held = (\<lambda>_. None), cf_world = w\<rparr>"

lemma work_proc_typed: "ok [] \<Longrightarrow> work_ok ok w \<Longrightarrow> typed ok (work_proc order sv w)"
  by (cases w) (auto simp: work_proc_def list_all_iff intro!: perform_all_typed typed_bind tick_typed)

lemma work_proc_disciplined: "disciplined (work_proc order sv w)"
proof (cases w)
  case (AutoExtend m)
  from tick_disciplined [of order m] show ?thesis
    by (auto simp: AutoExtend work_proc_def disciplined_def safe_simps elim!: safe_mono)
qed (simp add: work_proc_def perform_all_disciplined)

definition rows_inv :: "('s \<Rightarrow> Catalog) \<Rightarrow> ('s \<Rightarrow> bool) \<Rightarrow> (string \<Rightarrow> bool) \<Rightarrow> ('a, 'l, 'v, 's, 'k, 'q) Config \<Rightarrow> bool" where
  "rows_inv cat good ok c \<longleftrightarrow> good (w_store (cf_world c)) \<and> rows_typed ok (cat (w_store (cf_world c))) \<and>
     (\<forall>i. typed ok (cf_procs c i))"

lemma rows_inv_step:
  assumes "store_contract st cat good ok" "\<forall>i. sv_Store (svs i) = st" "rows_inv cat good ok c" "sys_step svs c i ev c'"
  shows "rows_inv cat good ok c'"
proof -
  from assms(4) obtain p' w' g' where s1: "step1 (svs i) (cf_procs c i) (cf_world c) = Some (p', w')"
    and c': "c' = \<lparr>cf_procs = (cf_procs c)(i := p'), cf_held = (cf_held c)(i := g'), cf_world = w'\<rparr>"
    by (elim sys_stepE) blast
  from store_contract.typed_step [OF assms(1) _ _ _ _ s1] assms(2,3) c' show ?thesis by (simp add: rows_inv_def)
qed

lemma rows_inv_reachable:
  assumes "store_contract st cat good ok" "\<forall>i. sv_Store (svs i) = st" "reachable svs c0 c" "rows_inv cat good ok c0"
  shows "rows_inv cat good ok c"
  using assms(3,4) by induction (use rows_inv_step [OF assms(1,2)] in blast)+

lemma work_config_rows:
  assumes "store_contract st cat good ok" "good (w_store w)" "rows_typed ok (cat (w_store w))" "\<forall>i. work_ok ok (works i)"
  shows "rows_inv cat good ok (work_config order svs works w)"
  using assms(2-4) by (simp add: rows_inv_def work_config_def work_proc_typed [of ok, OF store_contract.ok_Nil [OF assms(1)]])

end
