(* ===== verification/Lease.thy ===== *)
theory Lease
  imports Row_Types
begin

text \<open>
  The locks of a cluster when leases can expire. The mutexes of \<open>cluster.Manager\<close> belong to one
  session, whose lease the etcd client keeps alive; when a node is cut off or paused for longer
  than the lease's time to live, etcd drops the keys of the session, and the mutexes are free
  for others. The handlers do not watch the session, so they go on as if they held the lock.
\<close>

text \<open>What etcd promises of an expiry: the session owns nothing any more, and nobody else is affected.\<close>

definition expiry_laws :: "(nat \<Rightarrow> 'm \<Rightarrow> 'm) \<Rightarrow> ('m \<Rightarrow> string \<rightharpoonup> nat) \<Rightarrow> bool" where
  "expiry_laws expire owner \<longleftrightarrow> (\<forall>i m. owner (expire i m) = (\<lambda>k. if owner m k = Some i then None else owner m k))"

definition expire_lease :: "(nat \<Rightarrow> 'm \<Rightarrow> 'm) \<Rightarrow> nat \<Rightarrow> ('a, 'l, 'v, 's, 'm LockerState, 'q) Config
    \<Rightarrow> ('a, 'l, 'v, 's, 'm LockerState, 'q) Config" where
  "expire_lease expire i c = c\<lparr>cf_world := (cf_world c)\<lparr>w_lock := (w_lock (cf_world c))\<lparr>
     ls_mutexes := expire i (ls_mutexes (w_lock (cf_world c)))\<rparr>\<rparr>\<rparr>"

text \<open>The configurations that calls and expiries lead to, with the sessions that have expired.\<close>

inductive leased :: "(nat \<Rightarrow> ('l, 'v, 's, 'm LockerState, 'q) Service) \<Rightarrow> (nat \<Rightarrow> 'm \<Rightarrow> 'm)
    \<Rightarrow> ('a, 'l, 'v, 's, 'm LockerState, 'q) Config \<Rightarrow> ('a, 'l, 'v, 's, 'm LockerState, 'q) Config \<Rightarrow> nat set \<Rightarrow> bool"
  for svs expire c0 where
  begins: "leased svs expire c0 c0 {}"
| calls: "leased svs expire c0 c dead \<Longrightarrow> sys_step svs c i ev c' \<Longrightarrow> leased svs expire c0 c' dead"
| expires: "leased svs expire c0 c dead \<Longrightarrow> leased svs expire c0 (expire_lease expire i c) (insert i dead)"

lemma lock_inv_expire:
  assumes "expiry_laws expire owner" "lock_inv owner p dead c"
  shows "lock_inv owner p (insert i dead) (expire_lease expire i c)"
  using assms by (auto simp: lock_inv_def expire_lease_def expiry_laws_def has_handle_def)

lemma work_config_inv: "lock_inv owner p dead (work_config order svs works w)"
  by (simp add: lock_inv_def work_config_def follows_def work_proc_disciplined [unfolded disciplined_def])

lemma leased_inv:
  assumes "mutex_laws mx owner" "expiry_laws expire owner" "\<forall>i. sv_Locker (svs i) = etcdLocker mx i p"
    and "leased svs expire (work_config order svs works w) c dead"
  shows "lock_inv owner p dead c"
  using assms(4)
proof induction
  case begins
  show ?case by (rule work_config_inv)
next
  case (calls c dead i ev c')
  with assms(1,3) show ?case by (blast intro: lock_inv_step)
next
  case (expires c dead i)
  with assms(2) show ?case by (blast intro: lock_inv_expire)
qed

lemma leased_exclusive:
  assumes "mutex_laws mx owner" "expiry_laws expire owner" "\<forall>i. sv_Locker (svs i) = etcdLocker mx i p"
    and "leased svs expire (work_config order svs works w) c dead"
    and "sys_step svs c i (EvAct a e) c'" "writes_volume a" "i \<notin> dead"
  shows "\<exists>h vg. cf_held c i = Some (h, vg) \<and> needs_lock a vg
    \<and> owner (ls_mutexes (w_lock (cf_world c))) (lockKey p vg) = Some i
    \<and> (\<forall>j h'. cf_held c j = Some (h', vg) \<longrightarrow> j = i \<or> j \<in> dead)"
proof -
  from volume_write_held [OF assms(5,6)] obtain h vg where hv: "cf_held c i = Some (h, vg)" "needs_lock a vg" by blast
  from leased_inv [OF assms(1-4)] have "owner (ls_mutexes (w_lock (cf_world c))) (lockKey p vg) = Some j"
    if "cf_held c j = Some (h', vg)" "j \<notin> dead" for j h'
    using that unfolding lock_inv_def by blast
  with hv assms(7) show ?thesis by (metis option.inject)
qed

text \<open>An expiry does not touch the catalog, so the types of the rows survive it.\<close>

lemma leased_rows:
  assumes "store_contract st cat good ok" "\<forall>i. sv_Store (svs i) = st" "leased svs expire c0 c dead" "rows_inv cat good ok c0"
  shows "rows_inv cat good ok c"
  using assms(3,4)
proof induction
  case (calls c dead i ev c')
  then show ?case using rows_inv_step [OF assms(1,2)] by blast
qed (auto simp: rows_inv_def expire_lease_def)

section \<open>Schedules with expiries\<close>

datatype move = Call nat | Expire nat

primrec lease_schedule :: "(nat \<Rightarrow> ('l, 'v, 's, 'm LockerState, 'q) Service) \<Rightarrow> (nat \<Rightarrow> 'm \<Rightarrow> 'm) \<Rightarrow> move list
    \<Rightarrow> ('a, 'l, 'v, 's, 'm LockerState, 'q) Config \<Rightarrow> ('a, 'l, 'v, 's, 'm LockerState, 'q) Config option" where
  "lease_schedule svs expire [] c = Some c"
| "lease_schedule svs expire (m # ms) c =
     (case m of
        Call i \<Rightarrow> (case advance svs i c of None \<Rightarrow> None | Some c' \<Rightarrow> lease_schedule svs expire ms c')
      | Expire i \<Rightarrow> lease_schedule svs expire ms (expire_lease expire i c))"

definition expired :: "move list \<Rightarrow> nat set" where
  "expired ms = {i. Expire i \<in> set ms}"

lemma lease_schedule_leased:
  "lease_schedule svs expire ms c = Some c' \<Longrightarrow> leased svs expire c0 c dead \<Longrightarrow> leased svs expire c0 c' (dead \<union> expired ms)"
proof (induction ms arbitrary: c dead)
  case (Cons m ms)
  show ?case
  proof (cases m)
    case (Call i)
    with Cons.prems obtain d where "advance svs i c = Some d" "lease_schedule svs expire ms d = Some c'"
      by (auto split: option.splits)
    with Cons show ?thesis by (auto simp: Call expired_def dest!: advance_step intro: leased.calls)
  next
    case (Expire i)
    have "dead \<union> expired (m # ms) = insert i dead \<union> expired ms" by (auto simp: Expire expired_def)
    with Cons.IH [OF _ leased.expires [OF Cons.prems(2)], of i] Cons.prems(1) show ?thesis by (simp add: Expire)
  qed
qed (simp add: expired_def)

end
