(* ===== verification/Cluster_Properties.thy ===== *)
theory Cluster_Properties
  imports Lease Sample_Service
begin

text \<open>
  What several nodes do together: the etcd locks keep their volume writes apart while leases
  live, the rows of the catalog keep their types, and what the locks do not cover, shown on
  schedules of two nodes and of two goroutines of one node.
\<close>

section \<open>A sample cluster\<close>

text \<open>Mutexes as a table of owners; a lock that is taken is refused instead of waited for.\<close>

definition tableMutexes :: "(string \<times> nat) list Mutexes" where
  "tableMutexes = \<lparr>
     mx_Lock = (\<lambda>i k m. case map_of m k of
        None \<Rightarrow> (None, AList.update k i m)
      | Some j \<Rightarrow> if i = j then (None, m) else (Some (ExecError ''locked''), m)),
     mx_Unlock = (\<lambda>i k m. if map_of m k = Some i then (None, AList.delete k m) else (Some (ExecError ''not owner''), m))\<rparr>"


definition sample_node :: "nat \<Rightarrow> ((string \<times> string list) list, FakeClient, MemoryStore, (string \<times> nat) list LockerState, string list) Service" where
  "sample_node i = \<lparr>sv_LVM = logRunner, sv_Libvirt = fakeClient, sv_Store = memoryStore,
     sv_Locker = etcdLocker tableMutexes i ''/sltv'', sv_QemuImg = logQemu, sv_DefaultVG = ''vg0'',
     sv_DefaultThinInitial = 8, sv_NodeID = ''n'' @ dec i, sv_TempDir = ''/tmp'', sv_Now = int, sv_UnixNano = int\<rparr>"

definition cluster_world :: "((string \<times> string list) list, FakeClient, MemoryStore, (string \<times> nat) list LockerState, string list) World" where
  "cluster_world = \<lparr>w_lvm = [], w_virt = NewFakeClient [''vm1''], w_store = w_store disk_world,
     w_lock = \<lparr>ls_mutexes = [], ls_handles = []\<rparr>, w_qemu = [], w_reads = 0\<rparr>"

definition both_extend :: "nat \<Rightarrow> request list" where
  "both_extend i = (if i < 2 then [ReqExtend extend_input] else [])"

definition attach_and_delete :: "nat \<Rightarrow> request list" where
  "attach_and_delete i = (if i = 0 then [ReqAttach attach_input] else if i = 1 then [ReqDelete ''d1'' False] else [])"


section \<open>What the locks give\<close>








text \<open>
  C10. The types of the rows survive every interleaving, whatever locks are taken or not: with
  the requests of any number of nodes and the passes of thin managers interleaved call by call,
  over any store that meets the contract, every disk row is stored under its own name and has a
  valid name, a volume group, a mode, a virtual size and its device path, and every attachment
  row is stored under its disk and its VM.
\<close>

theorem interleaved_rows_typed:
  assumes "store_contract st cat good ok" "\<forall>i. sv_Store (svs i) = st" "\<forall>i. work_ok ok (works i)"
    and "good (w_store w)" "catalog_ok ok (cat (w_store w))" "reachable svs (work_config order svs works w) c"
  shows "(cat_disks (cat (w_store (cf_world c))) n = Some r \<longrightarrow> dName r = n \<and> disk_ok r \<and> ok n) \<and>
    (cat_atts (cat (w_store (cf_world c))) (d, v) = Some a \<longrightarrow> aDiskName a = d \<and> aVMName a = v \<and> v \<noteq> [] \<and> ok d)"
proof -
  from rows_inv_reachable [OF assms(1,2,6) work_config_rows [OF assms(1,4) catalog_ok_rows_typed [OF assms(5)] assms(3)]]
  have "rows_typed ok (cat (w_store (cf_world c)))" by (simp add: rows_inv_def)
  then show ?thesis by (fastforce simp: rows_typed_def disk_typed_def att_typed_def)
qed

definition race_work :: "nat \<Rightarrow> work" where
  "race_work i = Requests (attach_and_delete i)"

theorem interleaved_rows_typed_witness:
  "\<exists>c a. schedule sample_node ([0] @ replicate 6 1 @ replicate 5 0) (work_config id sample_node race_work cluster_world) = Some c \<and>
     cat_atts (mem_cat (w_store (cf_world c))) (''d1'', ''vm1'') = Some a \<and> aDiskName a = ''d1'' \<and> aVMName a = ''vm1''"
proof -
  let ?sch = "schedule sample_node ([0] @ replicate 6 1 @ replicate 5 0) (work_config id sample_node race_work cluster_world)"
  have "map_option (\<lambda>c. cat_atts (mem_cat (w_store (cf_world c))) (''d1'', ''vm1'') = None) ?sch = Some False" by code_simp
  then obtain c a where c: "?sch = Some c" and a: "cat_atts (mem_cat (w_store (cf_world c))) (''d1'', ''vm1'') = Some a" by auto
  from c have r: "reachable sample_node (work_config id sample_node race_work cluster_world) c"
    by (rule schedule_reachable) (rule reachable.start)
  have s: "\<forall>i. sv_Store (sample_node i) = memoryStore" by (simp add: sample_node_def)
  have k: "\<forall>i. work_ok mem_ok (race_work i)" by (simp add: race_work_def attach_and_delete_def)
  have w: "mem_inv (w_store cluster_world)" "catalog_ok mem_ok (mem_cat (w_store cluster_world))"
    using sample_worlds_good sample_catalogs_ok by (simp_all add: cluster_world_def)
  from interleaved_rows_typed [OF mem.store_contract_axioms s k w r, of _ _ "''d1''" "''vm1''" a] a c show ?thesis by blast
qed

section \<open>What the locks do not cover\<close>




text \<open>
  The locks exclude nodes, not the requests of one node: all goroutines of a daemon lock with the
  same session, whose key already exists when the second of them locks. Two extensions on one
  node both get through to lvm with a release function for the volume group in hand.
\<close>

theorem goroutines_share_the_lock:
  "map_option (\<lambda>c. (map_option snd (cf_held c 0), map_option snd (cf_held c 1),
       event1 (sample_node 0) (cf_procs c 0) (cf_world c), event1 (sample_node 0) (cf_procs c 1) (cf_world c)))
     (schedule (\<lambda>_. sample_node 0) [0, 0, 1, 1] (start_config (\<lambda>_. sample_node 0) both_extend cluster_world))
   = Some (Some ''vg0'', Some ''vg0'', Some (EvAct (ExtendLVDelta ''vg0'' ''d1'' 8) None),
       Some (EvAct (ExtendLVDelta ''vg0'' ''d1'' 8) None))"
  by code_simp

end
