(* ===== verification/Bolt_Store.thy ===== *)
theory Bolt_Store
  imports Kv_Catalog Memory_Store
begin

text \<open>
  The bbolt backend, \<open>src/internal/store/bolt.go\<close>. The bbolt library is a parameter: a record
  of the calls the code makes (a read-write transaction, a read-only one, and the bucket methods
  inside a transaction), and \<open>bolt_laws\<close> states what its documentation promises. Under
  these laws the backend meets the contract of \<open>store.Store\<close>.
\<close>

section \<open>The library's interface\<close>

text \<open>
  \<open>'b\<close> is the database, \<open>'u\<close> an open transaction. A callback of \<open>View\<close> fills
  variables of the enclosing method; these are what it returns beside its error.
  \<open>bk_ForEach\<close> is the sequence of entries \<open>ForEach\<close> visits.
\<close>

type_synonym captured = "DiskRecord list \<times> AttachmentRecord list"

record ('b, 'u) BoltDB =
  bolt_Update :: "('u \<Rightarrow> error option \<times> 'u) \<Rightarrow> 'b \<Rightarrow> error option \<times> 'b"
  bolt_View :: "('u \<Rightarrow> error option \<times> captured) \<Rightarrow> 'b \<Rightarrow> (error option \<times> captured) \<times> 'b"
  bk_Get :: "string \<Rightarrow> string \<Rightarrow> 'u \<Rightarrow> json option"
  bk_Put :: "string \<Rightarrow> string \<Rightarrow> json \<Rightarrow> 'u \<Rightarrow> error option \<times> 'u"
  bk_Delete :: "string \<Rightarrow> string \<Rightarrow> 'u \<Rightarrow> error option \<times> 'u"
  bk_ForEach :: "string \<Rightarrow> 'u \<Rightarrow> (string \<times> json) list"
  bolt_Close :: "'b \<Rightarrow> error option \<times> 'b"

definition bucketDisks :: string where "bucketDisks = ''disks''"
definition bucketAttachments :: string where "bucketAttachments = ''attachments''"

lemma buckets_distinct [simp]: "bucketDisks \<noteq> bucketAttachments" "bucketAttachments \<noteq> bucketDisks"
  by (simp_all add: bucketDisks_def bucketAttachments_def)

section \<open>The methods\<close>

text \<open>
  \<open>OpenBoltStore\<close>: \<open>mkdirAll\<close> and \<open>openDB\<close> are \<open>os.MkdirAll\<close> and
  \<open>bolt.Open\<close> on the file system \<open>'f\<close>, \<open>closeDB\<close> closes the file
  again, \<open>mkBucket\<close> is \<open>CreateBucketIfNotExists\<close> inside a transaction.
\<close>

definition make_buckets :: "(string \<Rightarrow> 'u \<Rightarrow> error option \<times> 'u) \<Rightarrow> 'u \<Rightarrow> error option \<times> 'u" where
  "make_buckets mkBucket tx =
     (case mkBucket bucketDisks tx of
        (Some err, tx) \<Rightarrow> (Some err, tx)
      | (None, tx) \<Rightarrow> mkBucket bucketAttachments tx)"

definition OpenBoltStore ::
    "(string \<Rightarrow> 'f \<Rightarrow> error option \<times> 'f) \<Rightarrow> (string \<Rightarrow> 'f \<Rightarrow> 'b result \<times> 'f) \<Rightarrow> ('b \<Rightarrow> 'f \<Rightarrow> 'f) \<Rightarrow> ('b, 'u) BoltDB
     \<Rightarrow> (string \<Rightarrow> 'u \<Rightarrow> error option \<times> 'u) \<Rightarrow> string \<Rightarrow> 'f \<Rightarrow> 'b result \<times> 'f" where
  "OpenBoltStore mkdirAll openDB closeDB db mkBucket path fs =
     (if path = [] then (Inl (Errorf ''store: bolt path is required'' []), fs)
      else let dir = path_Dir path in
      case (if dir \<noteq> [] \<and> dir \<noteq> ''.'' then mkdirAll dir fs else (None, fs)) of
        (Some err, fs) \<Rightarrow> (Inl (Wrapf ''mkdir %s: %w'' [dir] err), fs)
      | (None, fs) \<Rightarrow>
          (case openDB path fs of
             (Inl err, fs) \<Rightarrow> (Inl (Wrapf ''open bolt %s: %w'' [path] err), fs)
           | (Inr b, fs) \<Rightarrow>
               (case bolt_Update db (make_buckets mkBucket) b of
                  (Some err, b) \<Rightarrow> (Inl err, closeDB b fs)
                | (None, b) \<Rightarrow> (Inr b, fs))))"

definition BoltStore_CreateDisk :: "('b, 'u) BoltDB \<Rightarrow> DiskRecord \<Rightarrow> 'b \<Rightarrow> error option \<times> 'b" where
  "BoltStore_CreateDisk db r = bolt_Update db (\<lambda>tx.
     if bk_Get db bucketDisks (dName r) tx \<noteq> None then (Some ErrAlreadyExists, tx)
     else case marshalDisk r of
       Inl err \<Rightarrow> (Some err, tx)
     | Inr raw \<Rightarrow> bk_Put db bucketDisks (dName r) raw tx)"

definition BoltStore_UpdateDisk :: "('b, 'u) BoltDB \<Rightarrow> DiskRecord \<Rightarrow> 'b \<Rightarrow> error option \<times> 'b" where
  "BoltStore_UpdateDisk db r = bolt_Update db (\<lambda>tx.
     if bk_Get db bucketDisks (dName r) tx = None then (Some ErrNotFound, tx)
     else case marshalDisk r of
       Inl err \<Rightarrow> (Some err, tx)
     | Inr raw \<Rightarrow> bk_Put db bucketDisks (dName r) raw tx)"

text \<open>The reads return what the callback captured, or the error \<open>View\<close> returned.\<close>

definition captured_disk :: "error option \<times> captured \<Rightarrow> DiskRecord result" where
  "captured_disk v = (case v of (Some err, _) \<Rightarrow> Inl err | (None, rs, _) \<Rightarrow> Inr (if rs = [] then zeroDisk else hd rs))"

definition BoltStore_GetDisk :: "('b, 'u) BoltDB \<Rightarrow> string \<Rightarrow> 'b \<Rightarrow> DiskRecord result \<times> 'b" where
  "BoltStore_GetDisk db name s = map_prod captured_disk id (bolt_View db (\<lambda>tx.
     case bk_Get db bucketDisks name tx of
       None \<Rightarrow> (Some ErrNotFound, [], [])
     | Some raw \<Rightarrow> (case unmarshalDisk raw of Inl err \<Rightarrow> (Some err, [], []) | Inr r \<Rightarrow> (None, [r], []))) s)"

definition BoltStore_ListDisks :: "('b, 'u) BoltDB \<Rightarrow> string \<Rightarrow> 'b \<Rightarrow> DiskRecord list result \<times> 'b" where
  "BoltStore_ListDisks db vg s =
     (case bolt_View db (\<lambda>tx.
        case collect (\<lambda>_ e. e) unmarshalDisk (\<lambda>r. \<not> (vg \<noteq> [] \<and> dVG r \<noteq> vg)) (bk_ForEach db bucketDisks tx) of
          Inl err \<Rightarrow> (Some err, [], [])
        | Inr out \<Rightarrow> (None, out, [])) s of
      ((Some err, _), s') \<Rightarrow> (Inl err, s')
    | ((None, out, _), s') \<Rightarrow> (Inr (sort_key dName out), s'))"

definition BoltStore_DeleteDisk :: "('b, 'u) BoltDB \<Rightarrow> string \<Rightarrow> 'b \<Rightarrow> error option \<times> 'b" where
  "BoltStore_DeleteDisk db name = bolt_Update db (\<lambda>tx. bk_Delete db bucketDisks name tx)"

definition BoltStore_CreateAttachment :: "('b, 'u) BoltDB \<Rightarrow> AttachmentRecord \<Rightarrow> 'b \<Rightarrow> error option \<times> 'b" where
  "BoltStore_CreateAttachment db a = bolt_Update db (\<lambda>tx.
     let key = AttachmentKey (aDiskName a) (aVMName a) in
     if bk_Get db bucketAttachments key tx \<noteq> None then (Some ErrAlreadyExists, tx)
     else case marshalAttachment a of
       Inl err \<Rightarrow> (Some err, tx)
     | Inr raw \<Rightarrow> bk_Put db bucketAttachments key raw tx)"

definition captured_att :: "error option \<times> captured \<Rightarrow> AttachmentRecord result" where
  "captured_att v = (case v of (Some err, _) \<Rightarrow> Inl err | (None, _, as) \<Rightarrow> Inr (if as = [] then zeroAttachment else hd as))"

definition BoltStore_GetAttachment :: "('b, 'u) BoltDB \<Rightarrow> string \<Rightarrow> string \<Rightarrow> 'b \<Rightarrow> AttachmentRecord result \<times> 'b" where
  "BoltStore_GetAttachment db disk vm s = map_prod captured_att id (bolt_View db (\<lambda>tx.
     case bk_Get db bucketAttachments (AttachmentKey disk vm) tx of
       None \<Rightarrow> (Some ErrNotFound, [], [])
     | Some raw \<Rightarrow> (case unmarshalAttachment raw of Inl err \<Rightarrow> (Some err, [], []) | Inr a \<Rightarrow> (None, [], [a]))) s)"

definition BoltStore_ListAttachments ::
    "('b, 'u) BoltDB \<Rightarrow> string \<Rightarrow> string \<Rightarrow> 'b \<Rightarrow> AttachmentRecord list result \<times> 'b" where
  "BoltStore_ListAttachments db disk vm s =
     (case bolt_View db (\<lambda>tx.
        case collect (\<lambda>_ e. e) unmarshalAttachment
            (\<lambda>a. \<not> (disk \<noteq> [] \<and> aDiskName a \<noteq> disk) \<and> \<not> (vm \<noteq> [] \<and> aVMName a \<noteq> vm))
            (bk_ForEach db bucketAttachments tx) of
          Inl err \<Rightarrow> (Some err, [], [])
        | Inr out \<Rightarrow> (None, [], out)) s of
      ((Some err, _), s') \<Rightarrow> (Inl err, s')
    | ((None, _, out), s') \<Rightarrow> (Inr (sort_key att_key out), s'))"

definition BoltStore_DeleteAttachment :: "('b, 'u) BoltDB \<Rightarrow> string \<Rightarrow> string \<Rightarrow> 'b \<Rightarrow> error option \<times> 'b" where
  "BoltStore_DeleteAttachment db disk vm =
     bolt_Update db (\<lambda>tx. bk_Delete db bucketAttachments (AttachmentKey disk vm) tx)"

text \<open>\<open>Close\<close> on a store that was opened; a nil store closes without error.\<close>

definition BoltStore_Close :: "('b, 'u) BoltDB option \<Rightarrow> 'b \<Rightarrow> error option \<times> 'b" where
  "BoltStore_Close db s = (case db of None \<Rightarrow> (None, s) | Some db \<Rightarrow> bolt_Close db s)"

definition boltStore :: "('b, 'u) BoltDB \<Rightarrow> 'b Store" where
  "boltStore db = \<lparr>st_CreateDisk = BoltStore_CreateDisk db, st_UpdateDisk = BoltStore_UpdateDisk db,
     st_GetDisk = BoltStore_GetDisk db, st_ListDisks = BoltStore_ListDisks db,
     st_DeleteDisk = BoltStore_DeleteDisk db, st_CreateAttachment = BoltStore_CreateAttachment db,
     st_GetAttachment = BoltStore_GetAttachment db, st_ListAttachments = BoltStore_ListAttachments db,
     st_DeleteAttachment = BoltStore_DeleteAttachment db, st_Close = BoltStore_Close (Some db)\<rparr>"

section \<open>What bbolt promises\<close>

text \<open>
  \<open>content tx b\<close> is the bucket \<open>b\<close> as the transaction sees it, \<open>committed s\<close> the
  transaction a new transaction on \<open>s\<close> starts from. \<open>Update\<close> commits when the callback
  returns nil and rolls back otherwise, \<open>View\<close> changes nothing, and both return the
  callback's error or an error of their own; the library's own errors are not sentinels of the
  store package.
\<close>

definition bolt_writes :: "('b, 'u) BoltDB \<Rightarrow> ('u \<Rightarrow> string \<Rightarrow> table) \<Rightarrow> bool" where
  "bolt_writes db content \<longleftrightarrow>
     (\<forall>b k u. bk_Get db b k u = content u b k)
   \<and> (\<forall>b k j u e u'. bk_Put db b k j u = (e, u') \<longrightarrow>
        (case e of None \<Rightarrow> content u' = (content u)(b := (content u b)(k \<mapsto> j)) | Some x \<Rightarrow> \<not> sentinel x))
   \<and> (\<forall>b k u e u'. bk_Delete db b k u = (e, u') \<longrightarrow>
        (case e of None \<Rightarrow> content u' = (content u)(b := (content u b)(k := None)) | Some x \<Rightarrow> \<not> sentinel x))
   \<and> (\<forall>b u. sorted_wrt (<) (map fst (bk_ForEach db b u)) \<and> map_of (bk_ForEach db b u) = content u b)"

definition bolt_txns :: "('b, 'u) BoltDB \<Rightarrow> ('u \<Rightarrow> string \<Rightarrow> table) \<Rightarrow> ('b \<Rightarrow> 'u) \<Rightarrow> bool" where
  "bolt_txns db content committed \<longleftrightarrow>
     (\<forall>f s e s'. bolt_Update db f s = (e, s') \<longrightarrow>
        (case e of
           None \<Rightarrow> fst (f (committed s)) = None \<and> content (committed s') = content (snd (f (committed s)))
         | Some x \<Rightarrow> content (committed s') = content (committed s) \<and> (fst (f (committed s)) = e \<or> \<not> sentinel x)))
   \<and> (\<forall>f s v s'. bolt_View db f s = (v, s') \<longrightarrow>
        content (committed s') = content (committed s) \<and>
        (v = f (committed s) \<or> (\<exists>x. fst v = Some x \<and> \<not> sentinel x)))"

definition bolt_laws :: "('b, 'u) BoltDB \<Rightarrow> ('u \<Rightarrow> string \<Rightarrow> table) \<Rightarrow> ('b \<Rightarrow> 'u) \<Rightarrow> bool" where
  "bolt_laws db content committed \<longleftrightarrow> bolt_writes db content \<and> bolt_txns db content committed"

section \<open>The contract holds\<close>

interpretation bolt_keys: att_keys AttachmentKey mem_ok
  by unfold_locales (simp_all add: mem_key_inject, simp add: mem_ok_def)

definition bolt_inv :: "('u \<Rightarrow> string \<Rightarrow> table) \<Rightarrow> ('b \<Rightarrow> 'u) \<Rightarrow> 'b \<Rightarrow> bool" where
  "bolt_inv content committed s \<longleftrightarrow>
     kv_inv AttachmentKey mem_ok (content (committed s) bucketDisks) (content (committed s) bucketAttachments)"

definition bolt_cat :: "('u \<Rightarrow> string \<Rightarrow> table) \<Rightarrow> ('b \<Rightarrow> 'u) \<Rightarrow> 'b \<Rightarrow> Catalog" where
  "bolt_cat content committed s =
     kv_cat AttachmentKey mem_ok (content (committed s) bucketDisks) (content (committed s) bucketAttachments)"

lemma bolt_UpdateE:
  assumes "bolt_laws db content committed" "bolt_Update db f s = (e, s')"
  obtains (commit) u where "e = None" "f (committed s) = (None, u)" "content (committed s') = content u"
  | (rollback) x where "e = Some x" "content (committed s') = content (committed s)"
      "fst (f (committed s)) = Some x \<or> \<not> sentinel x"
proof -
  from assms have *: "case e of
      None \<Rightarrow> fst (f (committed s)) = None \<and> content (committed s') = content (snd (f (committed s)))
    | Some x \<Rightarrow> content (committed s') = content (committed s) \<and> (fst (f (committed s)) = e \<or> \<not> sentinel x)"
    unfolding bolt_laws_def bolt_txns_def by blast
  show thesis
  proof (cases e)
    case None
    with * have "f (committed s) = (None, snd (f (committed s)))" by (simp add: prod_eq_iff)
    with None * show ?thesis by (intro commit) simp_all
  next
    case (Some x)
    from * have "content (committed s') = content (committed s)" "fst (f (committed s)) = Some x \<or> \<not> sentinel x"
      unfolding Some option.case by blast+
    with Some show ?thesis by (rule rollback)
  qed
qed

lemma bolt_ViewE:
  assumes "bolt_laws db content committed" "bolt_View db f s = (v, s')"
  obtains (ran) "v = f (committed s)" "content (committed s') = content (committed s)"
  | (failed) x c where "v = (Some x, c)" "\<not> sentinel x" "content (committed s') = content (committed s)"
  using assms unfolding bolt_laws_def bolt_txns_def by (metis prod.collapse)

lemma bolt_bucket_ops:
  assumes "bolt_laws db content committed"
  shows "bk_Get db b k u = content u b k"
    and "bk_Put db b k j u = (None, u') \<Longrightarrow> content u' = (content u)(b := (content u b)(k \<mapsto> j))"
    and "bk_Put db b k j u = (Some x, u') \<Longrightarrow> \<not> sentinel x"
    and "bk_Delete db b k u = (None, u') \<Longrightarrow> content u' = (content u)(b := (content u b)(k := None))"
    and "bk_Delete db b k u = (Some x, u') \<Longrightarrow> \<not> sentinel x"
    and "distinct (map fst (bk_ForEach db b u))" "map_of (bk_ForEach db b u) = content u b"
  using assms unfolding bolt_laws_def bolt_writes_def by (fastforce simp: strict_sorted_iff)+

lemma not_sentinelD: "\<not> sentinel x \<Longrightarrow> \<not> errors_Is x ErrNotFound" "\<not> sentinel x \<Longrightarrow> \<not> errors_Is x ErrAlreadyExists"
  by (simp_all add: sentinel_def)

text \<open>A guarded put inside a transaction: it happened, or it was refused or failed without effect.\<close>

lemma bolt_put:
  assumes laws: "bolt_laws db content committed"
    and up: "bolt_Update db (\<lambda>tx. if P (bk_Get db b k tx) then (Some blocked, tx)
       else case m of Inl err \<Rightarrow> (Some err, tx) | Inr raw \<Rightarrow> bk_Put db b k raw tx) s = (e, s')"
    and m: "plain m"
  obtains (stored) j where "e = None" "\<not> P (content (committed s) b k)" "m = Inr j"
      "content (committed s') = (content (committed s))(b := (content (committed s) b)(k \<mapsto> j))"
  | (failed) x where "e = Some x" "content (committed s') = content (committed s)"
      "sentinel x \<longrightarrow> P (content (committed s) b k) \<and> x = blocked"
proof (cases rule: bolt_UpdateE [OF laws up])
  case (1 u)
  then obtain j where "m = Inr j" "bk_Put db b k j (committed s) = (None, u)" "\<not> P (content (committed s) b k)"
    by (auto simp: bolt_bucket_ops(1) [OF laws] split: if_splits sum.splits)
  with 1 bolt_bucket_ops(2) [OF laws] show ?thesis by (metis stored)
next
  case (2 x)
  have "P (content (committed s) b k) \<and> x = blocked" if "sentinel x"
  proof (rule ccontr)
    assume "\<not> ?thesis"
    with 2 that have "fst (case m of Inl err \<Rightarrow> (Some err, committed s) | Inr raw \<Rightarrow> bk_Put db b k raw (committed s)) = Some x"
      by (simp add: bolt_bucket_ops(1) [OF laws] split: if_splits)
    then show False using that m bolt_bucket_ops(3) [OF laws, of b k _ "committed s"]
      by (cases m) (auto simp: plain_def, metis prod.collapse)
  qed
  with 2 failed show ?thesis by blast
qed

lemma bolt_del:
  assumes laws: "bolt_laws db content committed" and up: "bolt_Update db (\<lambda>tx. bk_Delete db b k tx) s = (e, s')"
  obtains (stored) "e = None" "content (committed s') = (content (committed s))(b := (content (committed s) b)(k := None))"
  | (failed) x where "e = Some x" "content (committed s') = content (committed s)" "\<not> sentinel x"
proof (cases rule: bolt_UpdateE [OF laws up])
  case (1 u)
  with bolt_bucket_ops(4) [OF laws] show ?thesis by (metis stored)
next
  case (2 x)
  have "\<not> sentinel x" using 2(3) bolt_bucket_ops(5) [OF laws, of b k "committed s"] by (metis prod.collapse)
  with 2 failed show ?thesis by blast
qed

lemma bolt_disk_absent:
  "bolt_inv content committed s \<Longrightarrow>
    cat_disks (bolt_cat content committed s) n = None \<longleftrightarrow> content (committed s) bucketDisks n = None"
  unfolding bolt_cat_def bolt_inv_def by (rule bolt_keys.kv_read_disk(2))

lemma bolt_att_absent:
  "bolt_inv content committed s \<Longrightarrow> mem_ok d \<Longrightarrow>
    cat_atts (bolt_cat content committed s) (d, v) = None \<longleftrightarrow>
    content (committed s) bucketAttachments (AttachmentKey d v) = None"
  unfolding bolt_cat_def bolt_inv_def by (rule bolt_keys.kv_read_att(2))

lemma bolt_same:
  "content (committed s') = content (committed s) \<Longrightarrow> bolt_inv content committed s' = bolt_inv content committed s
    \<and> bolt_cat content committed s' = bolt_cat content committed s"
  by (simp add: bolt_inv_def bolt_cat_def)

text \<open>The methods, one by one, against the contract.\<close>

lemma bolt_create_disk:
  assumes laws: "bolt_laws db content committed" and inv: "bolt_inv content committed s"
    and run: "BoltStore_CreateDisk db r s = (e, s')"
  shows "bolt_inv content committed s' \<and> write_outcome e ErrAlreadyExists
     (cat_disks (bolt_cat content committed s) (dName r) = None)
     (bolt_cat content committed s) (put_disk r (bolt_cat content committed s)) (bolt_cat content committed s')"
proof (cases rule: bolt_put [OF laws run [unfolded BoltStore_CreateDisk_def] plain_marshal(1)])
  case (1 j)
  with inv show ?thesis unfolding bolt_disk_absent [OF inv]
    by (auto simp: bolt_inv_def bolt_cat_def bolt_keys.kv_inv_writes(1) bolt_keys.kv_cat_writes(1))
next
  case (2 x)
  with inv bolt_same [of content committed s' s] show ?thesis unfolding bolt_disk_absent [OF inv]
    by (auto simp: sentinel_def)
qed

lemma bolt_update_disk:
  assumes laws: "bolt_laws db content committed" and inv: "bolt_inv content committed s"
    and run: "BoltStore_UpdateDisk db r s = (e, s')"
  shows "bolt_inv content committed s' \<and> write_outcome e ErrNotFound
     (cat_disks (bolt_cat content committed s) (dName r) \<noteq> None)
     (bolt_cat content committed s) (put_disk r (bolt_cat content committed s)) (bolt_cat content committed s')"
proof (cases rule: bolt_put [OF laws run [unfolded BoltStore_UpdateDisk_def] plain_marshal(1)])
  case (1 j)
  with inv show ?thesis unfolding bolt_disk_absent [OF inv]
    by (auto simp: bolt_inv_def bolt_cat_def bolt_keys.kv_inv_writes(1) bolt_keys.kv_cat_writes(1))
next
  case (2 x)
  with inv bolt_same [of content committed s' s] show ?thesis unfolding bolt_disk_absent [OF inv]
    by (auto simp: sentinel_def)
qed

lemma bolt_create_att:
  assumes laws: "bolt_laws db content committed" and inv: "bolt_inv content committed s"
    and ok: "mem_ok (aDiskName a)" and run: "BoltStore_CreateAttachment db a s = (e, s')"
  shows "bolt_inv content committed s' \<and> write_outcome e ErrAlreadyExists
     (cat_atts (bolt_cat content committed s) (att_key a) = None)
     (bolt_cat content committed s) (put_att a (bolt_cat content committed s)) (bolt_cat content committed s')"
proof (cases rule: bolt_put [OF laws run [unfolded BoltStore_CreateAttachment_def Let_def] plain_marshal(2)])
  case (1 j)
  with inv ok show ?thesis unfolding bolt_att_absent [OF inv ok]
    by (auto simp: bolt_inv_def bolt_cat_def bolt_keys.kv_inv_writes(3) bolt_keys.kv_cat_writes(3))
next
  case (2 x)
  with inv bolt_same [of content committed s' s] show ?thesis unfolding bolt_att_absent [OF inv ok]
    by (auto simp: sentinel_def)
qed

lemma bolt_delete_disk:
  assumes laws: "bolt_laws db content committed" and inv: "bolt_inv content committed s"
    and run: "BoltStore_DeleteDisk db n s = (e, s')"
  shows "bolt_inv content committed s' \<and> write_outcome e ErrNotFound True
     (bolt_cat content committed s) (drop_disk n (bolt_cat content committed s)) (bolt_cat content committed s')"
proof (cases rule: bolt_del [OF laws run [unfolded BoltStore_DeleteDisk_def]])
  case 1
  with inv show ?thesis
    by (auto simp: bolt_inv_def bolt_cat_def bolt_keys.kv_inv_writes(2) bolt_keys.kv_cat_writes(2))
next
  case (2 x)
  with inv bolt_same [of content committed s' s] show ?thesis by (auto simp: sentinel_def)
qed

lemma bolt_delete_att:
  assumes laws: "bolt_laws db content committed" and inv: "bolt_inv content committed s" and ok: "mem_ok d"
    and run: "BoltStore_DeleteAttachment db d v s = (e, s')"
  shows "bolt_inv content committed s' \<and> write_outcome e ErrNotFound True
     (bolt_cat content committed s) (drop_att d v (bolt_cat content committed s)) (bolt_cat content committed s')"
proof (cases rule: bolt_del [OF laws run [unfolded BoltStore_DeleteAttachment_def]])
  case 1
  with inv ok show ?thesis
    by (auto simp: bolt_inv_def bolt_cat_def bolt_keys.kv_inv_writes(4) bolt_keys.kv_cat_writes(4))
next
  case (2 x)
  with inv bolt_same [of content committed s' s] show ?thesis by (auto simp: sentinel_def)
qed

lemma bolt_get_disk:
  assumes laws: "bolt_laws db content committed" and inv: "bolt_inv content committed s"
    and run: "BoltStore_GetDisk db n s = (x, s')"
  shows "bolt_inv content committed s' \<and> bolt_cat content committed s' = bolt_cat content committed s \<and>
     read_outcome x (cat_disks (bolt_cat content committed s) n)"
proof -
  let ?f = "\<lambda>tx. case bk_Get db bucketDisks n tx of None \<Rightarrow> (Some ErrNotFound, [], [])
     | Some raw \<Rightarrow> (case unmarshalDisk raw of Inl err \<Rightarrow> (Some err, [], []) | Inr r \<Rightarrow> (None, [r], []))"
  obtain v where v: "bolt_View db ?f s = (v, s')" "x = captured_disk v"
    using run by (cases "bolt_View db ?f s") (simp add: BoltStore_GetDisk_def)
  show ?thesis
  proof (cases rule: bolt_ViewE [OF laws v(1)])
    case 1
    from bolt_keys.kv_read_disk(1) [of "content (committed s) bucketDisks" "content (committed s) bucketAttachments" n]
    have "read_outcome x (cat_disks (bolt_cat content committed s) n)"
      using inv 1 bolt_disk_absent [OF inv, of n] v(2)
      by (fastforce simp: bolt_bucket_ops(1) [OF laws] captured_disk_def bolt_inv_def bolt_cat_def split: option.splits)
    with bolt_same [of content committed s' s, OF 1(2)] inv show ?thesis by simp
  next
    case (2 e c)
    with bolt_same [of content committed s' s, OF 2(3)] inv v(2) show ?thesis by (simp add: captured_disk_def sentinel_def)
  qed
qed

lemma bolt_get_att:
  assumes laws: "bolt_laws db content committed" and inv: "bolt_inv content committed s" and ok: "mem_ok d"
    and run: "BoltStore_GetAttachment db d vm s = (x, s')"
  shows "bolt_inv content committed s' \<and> bolt_cat content committed s' = bolt_cat content committed s \<and>
     read_outcome x (cat_atts (bolt_cat content committed s) (d, vm))"
proof -
  let ?f = "\<lambda>tx. case bk_Get db bucketAttachments (AttachmentKey d vm) tx of None \<Rightarrow> (Some ErrNotFound, [], [])
     | Some raw \<Rightarrow> (case unmarshalAttachment raw of Inl err \<Rightarrow> (Some err, [], []) | Inr a \<Rightarrow> (None, [], [a]))"
  obtain v where v: "bolt_View db ?f s = (v, s')" "x = captured_att v"
    using run by (cases "bolt_View db ?f s") (simp add: BoltStore_GetAttachment_def)
  show ?thesis
  proof (cases rule: bolt_ViewE [OF laws v(1)])
    case 1
    from bolt_keys.kv_read_att(1) [of "content (committed s) bucketDisks" "content (committed s) bucketAttachments" d vm]
    have "read_outcome x (cat_atts (bolt_cat content committed s) (d, vm))"
      using inv 1 bolt_att_absent [OF inv ok, of vm] v(2) ok
      by (fastforce simp: bolt_bucket_ops(1) [OF laws] captured_att_def bolt_inv_def bolt_cat_def split: option.splits)
    with bolt_same [of content committed s' s, OF 1(2)] inv show ?thesis by simp
  next
    case (2 e c)
    with bolt_same [of content committed s' s, OF 2(3)] inv v(2) show ?thesis by (simp add: captured_att_def sentinel_def)
  qed
qed

lemma bolt_list_disks:
  assumes laws: "bolt_laws db content committed" and inv: "bolt_inv content committed s"
    and run: "BoltStore_ListDisks db vg s = (xs, s')"
  shows "bolt_inv content committed s' \<and> bolt_cat content committed s' = bolt_cat content committed s \<and>
     (\<forall>ds. xs = Inr ds \<longrightarrow> lists_disks vg (bolt_cat content committed s) ds)"
proof -
  let ?keep = "\<lambda>r. \<not> (vg \<noteq> [] \<and> dVG r \<noteq> vg)"
  let ?f = "\<lambda>tx. case collect (\<lambda>_ e. e) unmarshalDisk ?keep (bk_ForEach db bucketDisks tx) of
     Inl err \<Rightarrow> (Some err, [], []) | Inr out \<Rightarrow> (None, out, [])"
  obtain v where v: "bolt_View db ?f s = (v, s')"
    and xs: "xs = (case v of (Some err, _) \<Rightarrow> Inl err | (None, out, _) \<Rightarrow> Inr (sort_key dName out))"
    using run by (auto simp: BoltStore_ListDisks_def split: prod.splits option.splits)
  show ?thesis
  proof (cases rule: bolt_ViewE [OF laws v])
    case 1
    from bolt_keys.kv_lists_disks [OF inv [unfolded bolt_inv_def] bolt_bucket_ops(6,7) [OF laws]]
    obtain ds where ds: "collect (\<lambda>_ e. e) unmarshalDisk ?keep (bk_ForEach db bucketDisks (committed s)) = Inr ds"
      "sorted_wrt (<) (map dName (sort_key dName ds))"
      "set ds = {r \<in> ran (cat_disks (bolt_cat content committed s)). ?keep r}"
      unfolding bolt_cat_def by meson
    with 1 xs have "\<forall>ds. xs = Inr ds \<longrightarrow> lists_disks vg (bolt_cat content committed s) ds"
      by (auto simp: lists_disks_def)
    with bolt_same [of content committed s' s, OF 1(2)] inv show ?thesis by simp
  next
    case (2 e c)
    with bolt_same [of content committed s' s, OF 2(3)] inv xs show ?thesis by simp
  qed
qed

lemma bolt_list_atts:
  assumes laws: "bolt_laws db content committed" and inv: "bolt_inv content committed s"
    and run: "BoltStore_ListAttachments db d vm s = (xs, s')"
  shows "bolt_inv content committed s' \<and> bolt_cat content committed s' = bolt_cat content committed s \<and>
     (\<forall>as. xs = Inr as \<longrightarrow> lists_atts d vm (bolt_cat content committed s) as)"
proof -
  let ?keep = "\<lambda>a. \<not> (d \<noteq> [] \<and> aDiskName a \<noteq> d) \<and> \<not> (vm \<noteq> [] \<and> aVMName a \<noteq> vm)"
  let ?kvs = "bk_ForEach db bucketAttachments"
  let ?f = "\<lambda>tx. case collect (\<lambda>_ e. e) unmarshalAttachment ?keep (?kvs tx) of
     Inl err \<Rightarrow> (Some err, [], []) | Inr out \<Rightarrow> (None, [], out)"
  obtain v where v: "bolt_View db ?f s = (v, s')"
    and xs: "xs = (case v of (Some err, _) \<Rightarrow> Inl err | (None, _, out) \<Rightarrow> Inr (sort_key att_key out))"
    using run by (auto simp: BoltStore_ListAttachments_def split: prod.splits option.splits)
  show ?thesis
  proof (cases rule: bolt_ViewE [OF laws v])
    case 1
    have "(k, j) \<in> set (?kvs (committed s)) \<longleftrightarrow> content (committed s) bucketAttachments k = Some j \<and> True" for k j
      using bolt_bucket_ops(6,7) [OF laws, of bucketAttachments "committed s"] by (metis map_of_eq_Some_iff)
    from bolt_keys.kv_lists_atts [OF inv [unfolded bolt_inv_def] bolt_bucket_ops(6) [OF laws] this]
    obtain as where "collect (\<lambda>_ e. e) unmarshalAttachment ?keep (?kvs (committed s)) = Inr as"
      "sorted_wrt (<) (map att_key (sort_key att_key as))"
      "set as = {a \<in> ran (cat_atts (bolt_cat content committed s)). True \<and> ?keep a}"
      unfolding bolt_cat_def by meson
    with 1 xs have "\<forall>as. xs = Inr as \<longrightarrow> lists_atts d vm (bolt_cat content committed s) as"
      by (auto simp: lists_atts_def)
    with bolt_same [of content committed s' s, OF 1(2)] inv show ?thesis by simp
  next
    case (2 e c)
    with bolt_same [of content committed s' s, OF 2(3)] inv xs show ?thesis by simp
  qed
qed

lemma boltStore_contract:
  assumes "bolt_laws db content committed"
  shows "store_contract (boltStore db) (bolt_cat content committed) (bolt_inv content committed) mem_ok"
proof (unfold_locales, goal_cases)
  case (1 s)
  then show ?case unfolding bolt_inv_def bolt_cat_def by (rule bolt_keys.kv_cat_wf)
next
  case (2 s r e s')
  then show ?case by (simp add: boltStore_def bolt_create_disk [OF assms])
next
  case (3 s r e s')
  then show ?case by (simp add: boltStore_def bolt_update_disk [OF assms] del: not_None_eq)
next
  case (4 s n x s')
  then show ?case by (simp add: boltStore_def bolt_get_disk [OF assms])
next
  case (5 s vg xs s')
  then show ?case by (simp add: boltStore_def bolt_list_disks [OF assms])
next
  case (6 s n e s')
  then show ?case by (simp add: boltStore_def bolt_delete_disk [OF assms])
next
  case (7 s a e s')
  then show ?case by (simp add: boltStore_def bolt_create_att [OF assms])
next
  case (8 s d v y s')
  then show ?case by (simp add: boltStore_def bolt_get_att [OF assms])
next
  case (9 s d v ys s')
  then show ?case by (auto simp: boltStore_def dest: bolt_list_atts [OF assms])
next
  case (10 s d v e s')
  then show ?case by (simp add: boltStore_def bolt_delete_att [OF assms])
next
  case 11
  show ?case by (rule bolt_keys.ok_Nil)
qed

section \<open>A database that keeps the laws\<close>

text \<open>
  Buckets as association lists and a transaction that is applied at once: it shows that the
  laws can be met, and evaluates the methods on concrete data.
\<close>

type_synonym buckets = "string \<Rightarrow> (string \<times> json) list"

definition listBolt :: "(buckets, buckets) BoltDB" where
  "listBolt = \<lparr>bolt_Update = (\<lambda>f u. case f u of (None, u') \<Rightarrow> (None, u') | (Some e, _) \<Rightarrow> (Some e, u)),
     bolt_View = (\<lambda>f u. (f u, u)), bk_Get = (\<lambda>b k u. map_of (u b) k),
     bk_Put = (\<lambda>b k j u. (None, u(b := AList.update k j (u b)))),
     bk_Delete = (\<lambda>b k u. (None, u(b := AList.delete k (u b)))),
     bk_ForEach = (\<lambda>b u. sort_key fst (AList.clearjunk (u b))),
     bolt_Close = (\<lambda>u. (None, u))\<rparr>"

lemma map_of_sorted_entries:
  fixes m :: "('k::linorder \<times> 'v) list"
  shows "distinct (map fst m) \<Longrightarrow> map_of (sort_key fst m) = map_of m"
    and "distinct (map fst m) \<Longrightarrow> sorted_wrt (<) (map fst (sort_key fst m))"
proof -
  assume m: "distinct (map fst m)"
  then show s: "sorted_wrt (<) (map fst (sort_key fst m))" by (rule sorted_by_distinct_key)
  then have "distinct (map fst (sort_key fst m))" by (simp add: strict_sorted_iff)
  with m show "map_of (sort_key fst m) = map_of m" by (subst map_of_inject_set) simp_all
qed

lemma listBolt_laws: "bolt_laws listBolt (\<lambda>u b. map_of (u b)) id"
proof -
  have "map_of (sort_key fst (AList.clearjunk m)) = map_of m \<and>
      sorted_wrt (<) (map fst (sort_key fst (AList.clearjunk m)))" for m :: "(string \<times> json) list"
    using map_of_sorted_entries [OF distinct_clearjunk [of m]] by (simp add: map_of_clearjunk)
  moreover have "(\<lambda>b'. map_of ((u(b := m)) b')) = (\<lambda>b'. map_of (u b'))(b := map_of m)"
    for u :: buckets and b m by auto
  ultimately show ?thesis
    by (auto simp: bolt_laws_def bolt_writes_def bolt_txns_def listBolt_def split: option.splits prod.splits)
qed

end
