(* ===== verification/Backend_Properties.thy ===== *)
theory Backend_Properties
  imports Bolt_Store Etcd_Store Memory_Store Cluster Libvirtx
begin

text \<open>
  What the backends of the service promise: the three stores against the catalog they
  represent, the forms in which data crosses to lvm2, libvirt and etcd and back.
\<close>

section \<open>Stores\<close>

text \<open>
  C6. The in-memory store implements the catalog exactly: it starts empty and well formed, every
  operation has the effect of the catalog operation or fails with the sentinel error that the
  state calls for, reads and sorted listings return what the catalog holds, and nothing else can
  go wrong, as long as disk names contain no bar.
\<close>

theorem memory_store_refines:
  "mem_inv NewMemoryStore \<and> reliable_store memoryStore mem_cat mem_inv mem_ok"
  using mem.reliable_store_axioms by simp

text \<open>
  C7. The bbolt store implements the catalog over any database that keeps the promises of bbolt
  transactions: each method returns the sentinel errors exactly for missing and duplicate
  entries, listings are sorted and complete, and on any other error the catalog is unchanged or
  holds exactly the write that was asked for.
\<close>

theorem bolt_store_refines:
  assumes "bolt_laws db content committed"
  shows "store_contract (boltStore db) (bolt_cat content committed) (bolt_inv content committed) mem_ok"
  using assms by (rule boltStore_contract)

theorem bolt_store_refines_witness:
  "store_contract (boltStore listBolt) (bolt_cat (\<lambda>u b. map_of (u b)) id) (bolt_inv (\<lambda>u b. map_of (u b)) id) mem_ok"
  using listBolt_laws by (rule bolt_store_refines)

text \<open>
  C8. The etcd store implements the catalog over any etcd that keeps its promises about
  transactions, reads and deletes, for keys under any prefix and disk names without a slash: the compare of the transaction decides between the write and the sentinel error.
\<close>

theorem etcd_store_refines:
  assumes "etcd_laws cli content"
  shows "store_contract (etcdStore cli p) (etcd_cat content p) (etcd_inv content p) etcd_ok"
  using assms by (rule etcdStore_contract)

theorem etcd_store_refines_witness:
  "store_contract (etcdStore listEtcd ''/sltv'') (etcd_cat map_of ''/sltv'') (etcd_inv map_of ''/sltv'') etcd_ok"
  using listEtcd_laws by (rule etcd_store_refines)


definition bar_attachment :: AttachmentRecord where
  "bar_attachment = \<lparr>aDiskName = ''a|b'', aVMName = ''c'', aHost = ''n1'', aTargetDev = ''vdb'', aAttachedAt = 0\<rparr>"

text \<open>
  A bar in a disk name, which \<open>normaliseCreate\<close> accepts, makes attachment keys collide:
  after disk \<open>a|b\<close> is attached to VM \<open>c\<close>, the store has disk \<open>a\<close> attached to VM
  \<open>b|c\<close> and refuses to attach it.
\<close>

theorem attachment_keys_collide:
  "\<not> ContainsAny ''a|b'' [CHR '' '', CHR ''/'', CHR 0x5C, CHR 0x09, CHR 0x0A] \<and>
   AttachmentKey ''a|b'' ''c'' = AttachmentKey ''a'' ''b|c'' \<and>
   (let s = snd (MemoryStore_CreateAttachment bar_attachment NewMemoryStore) in
      fst (MemoryStore_GetAttachment ''a'' ''b|c'' s) = Inr bar_attachment \<and>
      fst (MemoryStore_CreateAttachment (bar_attachment\<lparr>aDiskName := ''a'', aVMName := ''b|c''\<rparr>) s) = Some ErrAlreadyExists)"
  by code_simp

section \<open>Reports of lvm2\<close>

text \<open>The rows lvm2 prints with \<open>--units b --nosuffix\<close>: sizes in decimal.\<close>

definition row_of_vg :: "VG \<Rightarrow> row" where
  "row_of_vg v = [(''vg_name'', AnyString (vg_Name v)), (''vg_size'', AnyString (dec (unat (vg_SizeBytes v)))),
     (''vg_free'', AnyString (dec (unat (vg_FreeBytes v))))]"

definition row_of_lv :: "LV \<Rightarrow> row" where
  "row_of_lv v = [(''lv_name'', AnyString (lv_Name v)), (''vg_name'', AnyString (lv_VG v)),
     (''lv_size'', AnyString (dec (unat (lv_SizeBytes v)))), (''lv_path'', AnyString (lv_Path v))]"

lemma parseUintField_dec: "parseUintField oob (AnyString (dec (unat n))) = Inr n"
proof -
  have "unat n \<le> maxUint64" using u64_bound [of n] by simp
  moreover have "TrimSpace (dec (unat n)) = dec (unat n)"
    by (intro TrimSpace_plain plain_ends_digits) (simp_all add: dec_digits)
  ultimately show ?thesis by (simp add: parseUintField_def ParseUint_dec Let_def)
qed

text \<open>
  C33. A report of lvm2 is read back exactly: for volume groups and volumes printed with decimal
  sizes in any number of sections, \<open>ListVGs\<close> and \<open>ListLVs\<close> return them all, in order, with
  every 64-bit size intact.
\<close>

theorem lvm_report_roundtrip:
  "parseVGsJSON (\<lambda>_. Inr (map (\<lambda>vs. [(''vg'', map row_of_vg vs)]) vss)) oob out = Inr (concat vss) \<and>
   parseLVsJSON (\<lambda>_. Inr (map (\<lambda>ls. [(''lv'', map row_of_lv ls)]) lss)) oob out = Inr (concat lss)"
proof -
  have rows: "list_all2 (\<lambda>r x. f r = Inr x) (map h xs) xs" if "\<And>x. f (h x) = Inr x"
    for f :: "'r \<Rightarrow> 'a result" and h xs
    using that by (induction xs) simp_all
  have "vg_of_row oob (row_of_vg v) = Inr v" for v
    by (simp add: vg_of_row_def row_of_vg_def row_field_def parseUintField_dec as_string_def)
  moreover have "lv_of_row oob (row_of_lv v) = Inr v" for v
    by (simp add: lv_of_row_def row_of_lv_def row_field_def parseUintField_dec as_string_def)
  ultimately show ?thesis
    by (simp add: parseVGsJSON_def parseLVsJSON_def decodeReportAny_def comp_def section_rows_def
        collect_rows_Inr_iff rows flip: map_concat)
qed

section \<open>libvirt\<close>

text \<open>
  C34. The hand-written insertion sort is the sorting function of the library.
\<close>

theorem sortInts_is_sort: "sortInts a = sort a"
  by (rule sortInts_sort)

lemma scan_stat_keys:
  "set (map fst (scan_stat l m)) = set (map fst m) \<union> {i. \<exists>k v. parse_stat_line l = Some (i, k, v)}"
  by (auto simp: scan_stat_def Let_def dom_update split: option.splits)

lemma scan_stats_keys:
  "set (map fst (fold (\<lambda>l. scan_stat (dropCR l)) ls m)) =
     set (map fst m) \<union> {i. \<exists>l\<in>set ls. \<exists>k v. parse_stat_line (dropCR l) = Some (i, k, v)}"
proof (induction ls arbitrary: m)
  case (Cons l ls)
  show ?case unfolding fold_simps comp_apply Cons.IH scan_stat_keys by auto
qed simp

text \<open>
  The statistics parsed from the output of \<open>virsh domstats\<close> come out once per device index, in
  increasing numeric order, for exactly the indices some line of the output names; parsing fails
  exactly when a line is longer than the scanner's buffer.
\<close>

theorem domstats_ordered:
  "case parseDomstatsBlocks out of
     Inr stats \<Rightarrow> sorted_wrt (<) (map bs_Index stats) \<and>
       set (map bs_Index stats) = {i. \<exists>l\<in>set (raw_lines out). \<exists>k v. parse_stat_line (dropCR l) = Some (i, k, v)}
   | Inl _ \<Rightarrow> \<exists>l\<in>set (raw_lines out). maxTokenSize \<le> length l"
proof -
  let ?m = "fold (\<lambda>l. scan_stat (dropCR l)) (raw_lines out) []"
  have ok: "stats_ok ?m" by (simp add: scan_stats_ok)
  have "set (map bs_Index (order_stats ?m)) = set (map fst ?m)" unfolding order_stats_indices [OF ok] by simp
  with order_stats_sorted [OF ok] scan_stats_keys [of "raw_lines out" "[]"] show ?thesis
    by (auto simp: parseDomstatsBlocks_def Let_def list_ex_iff split: if_splits)
qed


lemma count_escape [simp]:
  "count_list (xml_escape s) (CHR 0x22) = 0" "count_list (xml_escape s) (CHR ''<'') = 0" "count_list (xml_escape s) (CHR ''>'') = 0"
  using xml_escape_safe [of _ s] by (auto simp: count_list_0_iff)

text \<open>
  C36. Names cannot inject into the device XML: whatever the source device, target, format and bus
  are, an accepted specification gives a document with exactly the 16 quotes, 8 opening and 8
  closing angle brackets of the template. The specification is refused exactly when the source or
  the target is missing.
\<close>

theorem disk_xml_no_injection:
  "case buildDiskXML spec of
     Inr xml \<Rightarrow> count_list xml (CHR 0x22) = 16 \<and> count_list xml (CHR ''<'') = 8 \<and> count_list xml (CHR ''>'') = 8
       \<and> sp_SourceDevice spec \<noteq> [] \<and> sp_TargetDev spec \<noteq> []
   | Inl _ \<Rightarrow> sp_SourceDevice spec = [] \<or> sp_TargetDev spec = []"
  by (simp add: buildDiskXML_def Let_def xml_attr_def newline_def)

section \<open>The cluster\<close>

lemma TrimRight_id: "s \<noteq> [] \<Longrightarrow> last s \<noteq> c \<Longrightarrow> TrimRight s c = s"
  by (cases s rule: rev_cases) (simp_all add: TrimRight_def)

lemma Split_append: "Split c (a @ c # b) = Split c a @ Split c b"
  by (induction a) (auto split: list.split)

lemma last_Split:
  assumes "c \<notin> set b"
  shows "last (Split c (a @ c # b)) = b"
proof -
  have "Split c b = [b]" using assms by (induction b) auto
  then show ?thesis by (simp add: Split_append)
qed

lemma path_Base_last:
  assumes "b \<noteq> []" "CHR ''/'' \<notin> set b"
  shows "path_Base (a @ CHR ''/'' # b) = b"
proof -
  have "last b \<noteq> CHR ''/''" using assms by (metis last_in_set)
  with assms have "TrimRight (a @ CHR ''/'' # b) (CHR ''/'') = a @ CHR ''/'' # b" by (intro TrimRight_id) auto
  with assms(2) show ?thesis by (simp add: path_Base_def Let_def last_Split)
qed

text \<open>
  A node's registration is found again: the key \<open>registerNode\<close> writes lies under the prefix
  that \<open>ListNodes\<close> reads, and \<open>ListNodes\<close> takes the node's id back out of it, for every id
  without a slash. With a slash in the id only its last part comes back.
\<close>

theorem node_key_roundtrip:
  assumes "mg_nodeID m \<noteq> []" "CHR ''/'' \<notin> set (mg_nodeID m)"
  shows "prefix (nodesPrefix m) (nodeKey m) \<and> path_Base (nodeKey m) = mg_nodeID m
    \<and> path_Base (nodeKey (m\<lparr>mg_nodeID := x @ ''/'' @ mg_nodeID m\<rparr>)) = mg_nodeID m"
  using path_Base_last [OF assms, of "mg_prefix m @ ''/nodes''"]
    path_Base_last [OF assms, of "mg_prefix m @ ''/nodes/'' @ x"]
  by (simp add: nodeKey_def nodesPrefix_def prefix_def)

theorem node_key_roundtrip_witness:
  "path_Base (nodeKey \<lparr>mg_prefix = ''/sltv'', mg_nodeID = ''n1''\<rparr>) = ''n1''"
  using node_key_roundtrip [of "\<lparr>mg_prefix = ''/sltv'', mg_nodeID = ''n1''\<rparr>"] by simp

end
