(* ===== verification/Thin_Properties.thy ===== *)
theory Thin_Properties
  imports Thin Sample_Service
begin

text \<open>What the auto-extend loop promises, with a sample node that has one thin disk running low.\<close>

section \<open>A sample node\<close>

definition thin_manager :: ThinManager where
  "thin_manager = \<lparr>tm_pollInterval = 1, tm_freeThresholdPercent = 20, tm_extendStepPercent = 50, tm_nodeID = ''n1''\<rparr>"

definition low_stat :: BlockStats where
  "low_stat = \<lparr>bs_Index = 0, bs_Name = ''vdb'', bs_BackingPath = [], bs_AllocationBytes = 8, bs_CapacityBytes = 80,
     bs_PhysicalBytes = 8\<rparr>"

definition t1_world :: sample_world where
  "t1_world = snd (run sample (Service_CreateDisk sample thin_input) empty_world)"

definition t1_attach :: AttachInput where
  "t1_attach = \<lparr>ai_DiskName = ''t1'', ai_VMName = ''vm1'', ai_TargetDev = []\<rparr>"

definition thin_world :: sample_world where
  "thin_world = (let w = snd (run sample (Service_AttachDisk sample t1_attach) t1_world)
     in w\<lparr>w_virt := (w_virt w)\<lparr>fc_Stats := [(''vm1'', [low_stat])]\<rparr>\<rparr>)"

lemma thin_world_ok: "mem_inv (w_store thin_world)" "catalog_ok mem_ok (mem_cat (w_store thin_world))"
proof -
  obtain x1 where r1: "run sample (Service_CreateDisk sample thin_input) empty_world = (x1, t1_world)"
    unfolding t1_world_def by (metis prod.collapse)
  obtain x2 w2 where r2: "run sample (Service_AttachDisk sample t1_attach) t1_world = (x2, w2)" by fastforce
  have i1: "mem_inv (w_store t1_world)"
    and e1: "create_effect False sample thin_input (mem_cat (w_store empty_world)) x1 (mem_cat (w_store t1_world))"
    using store_contract.handler_outcome [OF sample_contract refl empty_world_good r1 CreateDisk_catalog] by auto
  have c1: "catalog_ok mem_ok (mem_cat (w_store t1_world))"
    by (rule effects_keep_catalog_ok(1) [OF sample_catalogs_ok(1) _ e1]) (simp add: thin_input_def mem_ok_def)
  have "mem_inv (w_store w2)"
    and e2: "attach_effect False t1_attach (mem_cat (w_store t1_world)) x2 (mem_cat (w_store w2))"
    using store_contract.handler_outcome [OF sample_contract refl i1 r2 AttachDisk_catalog [OF c1 mem.ok_Nil]] by auto
  moreover have "w_store thin_world = w_store w2" by (simp add: thin_world_def r2 Let_def)
  ultimately show "mem_inv (w_store thin_world)" "catalog_ok mem_ok (mem_cat (w_store thin_world))"
    using effects_keep_catalog_ok(3) [OF c1 e2] by simp_all
qed

definition t1_attachment :: AttachmentRecord where
  "t1_attachment = \<lparr>aDiskName = ''t1'', aVMName = ''vm1'', aHost = ''n1'', aTargetDev = ''vdb'', aAttachedAt = 2\<rparr>"

definition t1_record :: DiskRecord where
  "t1_record = newDiskRecord sample (thin_input\<lparr>ci_SizeBytes := 8\<rparr>) 1"

lemma thin_world_store:
  "w_store thin_world = \<lparr>ms_disks = [(''t1'', t1_record)], ms_attachments = [(''t1|vm1'', t1_attachment)]\<rparr>"
  by code_simp

lemma thin_world_catalog:
  "cat_atts (mem_cat (w_store thin_world)) = [(''t1'', ''vm1'') \<mapsto> t1_attachment]"
  "cat_disks (mem_cat (w_store thin_world)) = [''t1'' \<mapsto> t1_record]"
proof -
  have "mem_ok d \<Longrightarrow> AttachmentKey d v = ''t1|vm1'' \<longleftrightarrow> d = ''t1'' \<and> v = ''vm1''" for d v
    using AttachmentKey_inject [of d "''t1''" v "''vm1''"] by (simp add: mem_ok_def AttachmentKey_def)
  then show "cat_atts (mem_cat (w_store thin_world)) = [(''t1'', ''vm1'') \<mapsto> t1_attachment]"
    by (auto simp: fun_eq_iff thin_world_store mem_ok_def)
qed (simp add: thin_world_store)

section \<open>Properties\<close>



text \<open>
  C19. The decision: for an attachment whose disk is in the catalog, when the volume group's lock is
  granted, the inspection grows a volume exactly if the disk is thin, libvirt reported statistics
  for the attachment's device, and their free percentage is below the threshold; it then calls
  lvm for that disk with the configured step.
\<close>

theorem inspect_decides:
  assumes "reliable_store (sv_Store sv) cat good ok" "good (w_store w)" "catalog_ok ok (cat (w_store w))"
    and "cat_disks (cat (w_store w)) (aDiskName a) = Some rec" "thin_valid m"
    and "lk_Acquire (sv_Locker sv) (dVG rec) (w_lock w) = (Inr h, k)"
  shows "((\<exists>e. EvAct (ExtendLVPercent (dVG rec) (dName rec) (tm_extendStepPercent m)) e \<in> set (events sv (inspect m vm byDev a) w))
      \<longleftrightarrow> due m byDev rec (aTargetDev a)) \<and>
    (\<not> due m byDev rec (aTargetDev a) \<longrightarrow> events sv (inspect m vm byDev a) w = [EvGetDisk (aDiskName a) (Inr rec)])"
proof -
  note store = reliable_store.get_disk_some [OF assms(1)]
  from store [OF assms(2,4)] obtain s1 where g1: "on_store (st_GetDisk (sv_Store sv) (aDiskName a)) w = (Inr rec, w\<lparr>w_store := s1\<rparr>)"
    "good s1" "cat s1 = cat (w_store w)" by (auto simp: on_store_def)
  have n: "\<not> due m byDev rec (aTargetDev a) \<Longrightarrow> events sv (inspect m vm byDev a) w = [EvGetDisk (aDiskName a) (Inr rec)]"
    by (rule inspect_not_due [OF g1(1)])
  have name: "dName rec = aDiskName a" by (rule catalog_okD(1) [OF assms(3,4)])
  from store [OF g1(2), of "dName rec" rec] g1(3) assms(4) name obtain s2 where
    g2: "on_store (st_GetDisk (sv_Store sv) (dName rec)) (w\<lparr>w_store := s1\<rparr>) = (Inr rec, w\<lparr>w_store := s2\<rparr>)"
    by (auto simp: on_store_def)
  have l: "on_lock (lk_Acquire (sv_Locker sv) (dVG rec)) (w\<lparr>w_store := s2\<rparr>) = (Inr h, w\<lparr>w_store := s2, w_lock := k\<rparr>)"
    using assms(6) by (simp add: on_lock_def)
  have "0 < tm_extendStepPercent m" using assms(5) by (simp add: thin_valid_def)
  from ExtendByPercent_calls_lvm [OF this g2 l] inspect_due [OF g1(1)] n show ?thesis
    by (cases "due m byDev rec (aTargetDev a)") (blast, auto)
qed

theorem inspect_decides_witness:
  "\<exists>e. EvAct (ExtendLVPercent ''vg1'' ''t1'' 50) e
     \<in> set (events sample (inspect thin_manager ''vm1'' (statsByDev [low_stat]) t1_attachment) thin_world)"
proof -
  have d: "due thin_manager (statsByDev [low_stat]) t1_record ''vdb''"
    using FreePercent_full [of low_stat]
    by (simp add: due_def t1_record_def newDiskRecord_def thin_input_def thin_manager_def statsByDev_def low_stat_def)
  have l: "lk_Acquire (sv_Locker sample) (dVG t1_record) (w_lock thin_world) = (Inr 0, ())"
    by (simp add: sample_def noopLocker_def)
  have "cat_disks (mem_cat (w_store thin_world)) (aDiskName t1_attachment) = Some t1_record"
    by (simp add: thin_world_store t1_attachment_def)
  moreover have "thin_valid thin_manager" by (simp add: thin_valid_def thin_manager_def)
  ultimately show ?thesis
    using inspect_decides [OF sample_reliable thin_world_ok _ _ l, of t1_attachment thin_manager "''vm1''" "statsByDev [low_stat]"] d
    by (simp add: t1_attachment_def t1_record_def newDiskRecord_def thin_input_def thin_manager_def)
qed

text \<open>
  A pass asks libvirt for the statistics of each VM that has an attachment on this node exactly
  once, and of no other VM.
\<close>

theorem tick_asks_local_vms:
  assumes "reliable_store (sv_Store sv) cat good ok" "good (w_store w)" "catalog_ok ok (cat (w_store w))"
    and "\<And>x. mset (order x) = mset x"
  shows "distinct (asked (events sv (tick order m) w))
    \<and> set (asked (events sv (tick order m) w)) = aVMName ` {a \<in> ran (cat_atts (cat (w_store w))). is_local m a}"
proof -
  let ?c = "cat (w_store w)"
  from reliable_store.list_atts_ok [OF assms(1,2) store_contract.ok_Nil [OF reliable_store.axioms(1) [OF assms(1)]], of "[]"]
  obtain as s' where l: "st_ListAttachments (sv_Store sv) [] [] (w_store w) = (Inr as, s')" "lists_atts [] [] ?c as" by blast
  then have as: "set as = ran (cat_atts ?c)" by (simp add: lists_atts_def)
  have e: "asked (events sv (tick order m) w) = map fst (order (groupByVM m as []))"
    using l by (simp add: tick_def on_store_def inspectVMs_asked)
  have "mset (map fst (order (groupByVM m as []))) = mset (map fst (groupByVM m as []))" by (simp add: assms(4))
  moreover have "distinct (map fst (groupByVM m as []))" using groupByVM_ok [of "[]" m as] by (simp add: gomap_ok_def)
  ultimately have "distinct (map fst (order (groupByVM m as [])))"
    "set (map fst (order (groupByVM m as []))) = set (map fst (groupByVM m as []))"
    using mset_eq_imp_distinct_iff mset_eq_setD by blast+
  then show ?thesis unfolding e groupByVM_keys as by blast
qed

theorem tick_asks_local_vms_witness:
  "set (asked (events sample (tick rev thin_manager) thin_world)) = {''vm1''}"
proof -
  have r: "ran (cat_atts (mem_cat (w_store thin_world))) = {t1_attachment}"
    unfolding thin_world_catalog by (simp add: ran_map_upd)
  have "is_local thin_manager t1_attachment" "aVMName t1_attachment = ''vm1''" by code_simp+
  then have e: "aVMName ` {a \<in> {t1_attachment}. is_local thin_manager a} = {''vm1''}" by auto
  from tick_asks_local_vms [OF sample_reliable thin_world_ok mset_rev, of thin_manager, THEN conjunct2] show ?thesis
    unfolding r e .
qed




end
