(* ===== verification/Membership.thy ===== *)
theory Membership
  imports Cluster
begin

text \<open>
  The life of a cluster manager after \<open>NewManager\<close> (\<open>src/internal/cluster/cluster.go\<close>): the
  goroutine \<open>heartbeat\<close>, which registers the node again at every tick, and \<open>Close\<close>, which any
  number of callers may call at any time. The steps of the goroutines interleave freely;
  \<open>'n\<close> is the state behind the etcd packages.
\<close>

section \<open>State\<close>

text \<open>
  \<open>heartbeat\<close> waits in its \<open>select\<close>, registers the node, or has returned and closed \<open>doneCh\<close>.
  A caller of \<open>Close\<close> has not called it, runs the function given to \<open>stopOnce.Do\<close>, waits for
  the caller that does (\<open>sync.Once\<close> lets every other caller wait), or has returned.
\<close>

datatype beat_phase = BeatWaits | BeatRegisters | BeatReturned
datatype close_phase = CloseNotCalled | CloseRuns | CloseWaits | CloseReturned

text \<open>The body of \<open>stopOnce\<close>: not begun, waiting for \<open>doneCh\<close>, closing the session, closing the client, over.\<close>

datatype once_phase = OnceFree | OnceAwaitsDone | OnceClosesSession | OnceClosesClient | OnceOver

text \<open>What the manager did with the etcd packages, oldest first.\<close>

datatype member_event = Registered | SessionClosed | ClientClosed

record 'n MemberState =
  ms_beat :: beat_phase
  ms_once :: once_phase
  ms_callers :: "nat \<Rightarrow> close_phase"
  ms_cancelled :: bool
  ms_doneCh :: bool
  ms_etcd :: 'n
  ms_log :: "member_event list"

definition started :: "'n \<Rightarrow> 'n MemberState" where
  "started n = \<lparr>ms_beat = BeatWaits, ms_once = OnceFree, ms_callers = (\<lambda>_. CloseNotCalled), ms_cancelled = False,
     ms_doneCh = False, ms_etcd = n, ms_log = []\<rparr>"

section \<open>Steps\<close>

text \<open>
  A ready tick and a cancelled context may be seen in either order, as \<open>select\<close> chooses freely.
  The error of a registration is dropped.
\<close>

inductive member_step :: "('n, 'cert, 'pool) EtcdLib \<Rightarrow> string \<Rightarrow> Manager \<Rightarrow> string \<Rightarrow> 'n MemberState \<Rightarrow> 'n MemberState \<Rightarrow> bool"
  for lib host m version where
  tick: "ms_beat s = BeatWaits \<Longrightarrow> member_step lib host m version s (s\<lparr>ms_beat := BeatRegisters\<rparr>)"
| registers: "ms_beat s = BeatRegisters \<Longrightarrow> member_step lib host m version s
    (s\<lparr>ms_beat := BeatWaits, ms_etcd := snd (registerNode lib host m version (ms_etcd s)), ms_log := ms_log s @ [Registered]\<rparr>)"
| beat_returns: "ms_beat s = BeatWaits \<Longrightarrow> ms_cancelled s \<Longrightarrow>
    member_step lib host m version s (s\<lparr>ms_beat := BeatReturned, ms_doneCh := True\<rparr>)"
| close_first: "ms_callers s c = CloseNotCalled \<Longrightarrow> ms_once s = OnceFree \<Longrightarrow> member_step lib host m version s
    (s\<lparr>ms_callers := (ms_callers s)(c := CloseRuns), ms_once := OnceAwaitsDone, ms_cancelled := True\<rparr>)"
| close_again: "ms_callers s c = CloseNotCalled \<Longrightarrow> ms_once s \<noteq> OnceFree \<Longrightarrow>
    member_step lib host m version s (s\<lparr>ms_callers := (ms_callers s)(c := CloseWaits)\<rparr>)"
| done_seen: "ms_once s = OnceAwaitsDone \<Longrightarrow> ms_doneCh s \<Longrightarrow>
    member_step lib host m version s (s\<lparr>ms_once := OnceClosesSession\<rparr>)"
| session_closes: "ms_once s = OnceClosesSession \<Longrightarrow> member_step lib host m version s
    (s\<lparr>ms_once := OnceClosesClient, ms_etcd := lib_CloseSession lib (ms_etcd s), ms_log := ms_log s @ [SessionClosed]\<rparr>)"
| client_closes: "ms_once s = OnceClosesClient \<Longrightarrow> member_step lib host m version s
    (s\<lparr>ms_once := OnceOver, ms_etcd := lib_CloseClient lib (ms_etcd s), ms_log := ms_log s @ [ClientClosed]\<rparr>)"
| close_returns: "ms_once s = OnceOver \<Longrightarrow> ms_callers s c = CloseRuns \<or> ms_callers s c = CloseWaits \<Longrightarrow>
    member_step lib host m version s (s\<lparr>ms_callers := (ms_callers s)(c := CloseReturned)\<rparr>)"

inductive_cases member_stepE: "member_step lib host m version s s'"

section \<open>The invariant\<close>

text \<open>What the log looks like at each point of the shutdown: registrations, then the session, then the client.\<close>

definition shutdown_log :: "once_phase \<Rightarrow> member_event list" where
  "shutdown_log p = (case p of OnceClosesClient \<Rightarrow> [SessionClosed] | OnceOver \<Rightarrow> [SessionClosed, ClientClosed] | _ \<Rightarrow> [])"

definition orderly_log :: "once_phase \<Rightarrow> member_event list \<Rightarrow> bool" where
  "orderly_log p lg \<longleftrightarrow> lg = takeWhile ((=) Registered) lg @ shutdown_log p"

definition member_inv :: "'n MemberState \<Rightarrow> bool" where
  "member_inv s \<longleftrightarrow> orderly_log (ms_once s) (ms_log s) \<and>
     (ms_doneCh s \<longleftrightarrow> ms_beat s = BeatReturned) \<and>
     (ms_cancelled s \<longleftrightarrow> ms_once s \<noteq> OnceFree) \<and>
     (ms_once s \<in> {OnceClosesSession, OnceClosesClient, OnceOver} \<longrightarrow> ms_doneCh s) \<and>
     (\<forall>c. ms_callers s c = CloseReturned \<longrightarrow> ms_once s = OnceOver) \<and>
     (\<forall>c. ms_callers s c \<noteq> CloseNotCalled \<longrightarrow> ms_once s \<noteq> OnceFree)"

lemma member_inv_started: "member_inv (started n)"
  by (simp add: member_inv_def started_def orderly_log_def shutdown_log_def)

lemma orderly_log_steps:
  "orderly_log p lg \<Longrightarrow> shutdown_log p = [] \<Longrightarrow> shutdown_log q = [] \<Longrightarrow> orderly_log q lg"
  "orderly_log p lg \<Longrightarrow> shutdown_log p = [] \<Longrightarrow> orderly_log p (lg @ [Registered])"
  "orderly_log OnceClosesSession lg \<Longrightarrow> orderly_log OnceClosesClient (lg @ [SessionClosed])"
  "orderly_log OnceClosesClient lg \<Longrightarrow> orderly_log OnceOver (lg @ [ClientClosed])"
proof -
  have all: "takeWhile ((=) Registered) lg = lg \<longleftrightarrow> (\<forall>e\<in>set lg. e = Registered)" for lg
    by (auto simp: takeWhile_eq_all_conv)
  show "orderly_log p lg \<Longrightarrow> shutdown_log p = [] \<Longrightarrow> shutdown_log q = [] \<Longrightarrow> orderly_log q lg"
    by (simp add: orderly_log_def)
  show "orderly_log p lg \<Longrightarrow> shutdown_log p = [] \<Longrightarrow> orderly_log p (lg @ [Registered])"
    using all [of lg] all [of "lg @ [Registered]"] by (auto simp: orderly_log_def)
  show "orderly_log OnceClosesSession lg \<Longrightarrow> orderly_log OnceClosesClient (lg @ [SessionClosed])"
    using all [of lg] by (auto simp: orderly_log_def shutdown_log_def takeWhile_append)
  show "orderly_log OnceClosesClient lg \<Longrightarrow> orderly_log OnceOver (lg @ [ClientClosed])"
  proof -
    let ?rs = "takeWhile ((=) Registered) lg"
    assume "orderly_log OnceClosesClient lg"
    then have "lg = ?rs @ [SessionClosed]" by (simp add: orderly_log_def shutdown_log_def)
    then have lg: "lg @ [ClientClosed] = ?rs @ [SessionClosed, ClientClosed]" by (metis append.assoc append_Cons append_Nil)
    have "takeWhile ((=) Registered) (?rs @ [SessionClosed, ClientClosed]) = ?rs"
      by (subst takeWhile_append2) (auto dest: set_takeWhileD)
    with lg show ?thesis unfolding orderly_log_def shutdown_log_def by (simp only: lg once_phase.case)
  qed
qed

lemma member_inv_step:
  assumes "member_inv s" "member_step lib host m version s s'"
  shows "member_inv s'"
  using assms(2)
proof cases
  case registers
  with assms(1) have "shutdown_log (ms_once s) = []"
    by (auto simp: member_inv_def shutdown_log_def split: once_phase.split)
  with registers assms(1) show ?thesis by (auto simp: member_inv_def intro: orderly_log_steps(2))
next
  case (close_first c)
  with assms(1) show ?thesis by (auto simp: member_inv_def shutdown_log_def elim!: orderly_log_steps(1))
next
  case done_seen
  with assms(1) show ?thesis by (auto simp: member_inv_def shutdown_log_def elim!: orderly_log_steps(1))
next
  case session_closes
  with assms(1) show ?thesis by (auto simp: member_inv_def intro: orderly_log_steps(3))
next
  case client_closes
  with assms(1) show ?thesis by (auto simp: member_inv_def intro: orderly_log_steps(4))
qed (use assms(1) in \<open>auto simp: member_inv_def\<close>)

interpretation membership: step_invariant "member_step lib host m version" member_inv for lib host m version
  by unfold_locales (rule member_inv_step)

text \<open>When the shutdown is over, nothing reaches the etcd packages any more.\<close>

interpretation after_close: step_invariant "member_step lib host m version" "\<lambda>s. member_inv s \<and> ms_once s = OnceOver"
  for lib host m version
proof (unfold_locales, goal_cases)
  case (1 s s')
  from 1(2) have "ms_once s = OnceOver \<Longrightarrow> ms_once s' = OnceOver" by cases auto
  with 1 show ?case by (auto intro: member_inv_step)
qed

lemma closed_is_final:
  assumes "member_step lib host m version s s'" "member_inv s" "ms_once s = OnceOver"
  shows "ms_etcd s' = ms_etcd s \<and> ms_log s' = ms_log s"
  using assms by cases (auto simp: member_inv_def)

lemma closed_stays:
  assumes "(member_step lib host m version)\<^sup>*\<^sup>* s s'" "member_inv s" "ms_once s = OnceOver"
  shows "ms_etcd s' = ms_etcd s" "ms_log s' = ms_log s"
  by (rule after_close.unchanged [OF assms(1)]; use assms(2,3) closed_is_final in blast)+

section \<open>Close can always finish\<close>

text \<open>From every point of the shutdown some steps lead to its end, without touching the callers.\<close>

lemma once_can_finish:
  assumes "member_inv s" "ms_once s \<noteq> OnceFree"
  shows "\<exists>s'. (member_step lib host m version)\<^sup>*\<^sup>* s s' \<and> ms_once s' = OnceOver \<and> ms_callers s' = ms_callers s"
proof -
  define ends where "ends s cs \<longleftrightarrow> (\<exists>s'. (member_step lib host m version)\<^sup>*\<^sup>* s s' \<and> ms_once s' = OnceOver \<and> ms_callers s' = cs)"
    for s and cs :: "nat \<Rightarrow> close_phase"
  have via: "ends s (ms_callers s)"
    if "member_step lib host m version s s'" "ms_callers s' = ms_callers s" "ends s' (ms_callers s')" for s s'
    using that(3) unfolding ends_def that(2) by (rule reach_via [of "member_step lib host m version", OF that(1)])
  have over: "ends s (ms_callers s)" if "ms_once s = OnceOver" for s
    using that unfolding ends_def by blast
  have client: "ends s (ms_callers s)" if "ms_once s = OnceClosesClient" for s
    by (rule via [OF client_closes [OF that]], simp, rule over, simp)
  have session: "ends s (ms_callers s)" if "ms_once s = OnceClosesSession" for s
    by (rule via [OF session_closes [OF that]], simp, rule client, simp)
  have seen: "ends s (ms_callers s)" if "ms_once s = OnceAwaitsDone" "ms_doneCh s" for s
    by (rule via [OF done_seen [OF that]], simp, rule session, simp)
  have waits: "ends s (ms_callers s)" if "ms_once s = OnceAwaitsDone" "ms_beat s = BeatWaits" "ms_cancelled s" for s
    by (rule via [OF beat_returns [OF that(2,3)]], simp, rule seen) (simp_all add: that(1))
  have beats: "ends s (ms_callers s)" if "ms_once s = OnceAwaitsDone" "ms_beat s = BeatRegisters" "ms_cancelled s" for s
    by (rule via [OF registers [OF that(2)]], simp, rule waits) (simp_all add: that(1,3))
  have "ends s (ms_callers s)"
    using assms over [of s] client [of s] session [of s] seen [of s] waits [of s] beats [of s]
    by (cases "ms_once s"; cases "ms_beat s") (simp_all add: member_inv_def)
  then show ?thesis by (simp add: ends_def)
qed

lemma close_can_return:
  assumes "member_inv s" "ms_callers s c = CloseRuns \<or> ms_callers s c = CloseWaits"
  shows "\<exists>s'. (member_step lib host m version)\<^sup>*\<^sup>* s s' \<and> ms_callers s' c = CloseReturned"
proof -
  from assms have "ms_once s \<noteq> OnceFree" by (auto simp: member_inv_def)
  with assms(1) obtain s' where s': "(member_step lib host m version)\<^sup>*\<^sup>* s s'" "ms_once s' = OnceOver" "ms_callers s' = ms_callers s"
    using once_can_finish by blast
  with close_returns [of s' c lib host m version] assms(2) have
    "member_step lib host m version s' (s'\<lparr>ms_callers := (ms_callers s')(c := CloseReturned)\<rparr>)" by simp
  with s'(1) have "(member_step lib host m version)\<^sup>*\<^sup>* s (s'\<lparr>ms_callers := (ms_callers s')(c := CloseReturned)\<rparr>)" by simp
  then show ?thesis by (intro exI conjI) (assumption, simp)
qed

end
