(* ===== verification/Serve.thy ===== *)
theory Serve
  imports Service_Calls
begin

text \<open>
  \<open>Serve\<close> of \<open>src/internal/server/server.go\<close>: one goroutine per listener, a channel for their
  errors, and the caller, which waits for its context or for the first error, stops the gRPC
  server and waits for every goroutine. When and how \<open>g.Serve\<close> of a listener returns is
  left open; that it returns after the server was stopped is what the package promises, and
  the steps allow it.
\<close>

section \<open>State\<close>

text \<open>A goroutine is in \<open>g.Serve\<close>, has an error to send, has sent it or has none and still owes \<open>wg.Done\<close>, or is done.\<close>

datatype serve_phase = InServe | Sends error | OwesDone | WorkerDone

text \<open>\<open>Serve\<close> itself: in its \<open>select\<close>, stopping the server with its result chosen, waiting for the group, or returned.\<close>

datatype serve_main = Selects | Stops error | Waits error | ServeReturned error

record ServeState =
  ss_main :: serve_main
  ss_workers :: "serve_phase list"
  ss_errCh :: "error list"
  ss_cancelled :: bool
  ss_stopped :: bool
  ss_sent :: "error list"

definition serving :: "string list \<Rightarrow> ServeState" where
  "serving addrs = \<lparr>ss_main = Selects, ss_workers = map (\<lambda>_. InServe) addrs, ss_errCh = [], ss_cancelled = False,
     ss_stopped = False, ss_sent = []\<rparr>"

text \<open>The error of the context, and the error a listener's goroutine sends.\<close>

definition ctxErr :: error where
  "ctxErr = ExecError ''context canceled''"

definition serveErr :: "string \<Rightarrow> error \<Rightarrow> error" where
  "serveErr addr err = Wrapf ''serve %s: %w'' [addr] err"

section \<open>Steps\<close>

text \<open>
  The channel holds as many errors as there are listeners; a send on a full channel would
  block, so \<open>sends\<close> needs room. \<open>ss_sent\<close> records what was sent.
\<close>

inductive serve_step :: "string list \<Rightarrow> ServeState \<Rightarrow> ServeState \<Rightarrow> bool" for addrs where
  serve_fails: "i < length addrs \<Longrightarrow> ss_workers s ! i = InServe \<Longrightarrow>
    serve_step addrs s (s\<lparr>ss_workers := (ss_workers s)[i := Sends (serveErr (addrs ! i) err)]\<rparr>)"
| serve_ends: "i < length addrs \<Longrightarrow> ss_workers s ! i = InServe \<Longrightarrow> ss_stopped s \<Longrightarrow>
    serve_step addrs s (s\<lparr>ss_workers := (ss_workers s)[i := OwesDone]\<rparr>)"
| sends: "i < length addrs \<Longrightarrow> ss_workers s ! i = Sends e \<Longrightarrow> length (ss_errCh s) < length addrs \<Longrightarrow>
    serve_step addrs s (s\<lparr>ss_workers := (ss_workers s)[i := OwesDone], ss_errCh := ss_errCh s @ [e], ss_sent := e # ss_sent s\<rparr>)"
| worker_done: "i < length addrs \<Longrightarrow> ss_workers s ! i = OwesDone \<Longrightarrow>
    serve_step addrs s (s\<lparr>ss_workers := (ss_workers s)[i := WorkerDone]\<rparr>)"
| ctx_cancelled: "serve_step addrs s (s\<lparr>ss_cancelled := True\<rparr>)"
| select_ctx: "ss_main s = Selects \<Longrightarrow> ss_cancelled s \<Longrightarrow> serve_step addrs s (s\<lparr>ss_main := Stops ctxErr\<rparr>)"
| select_err: "ss_main s = Selects \<Longrightarrow> ss_errCh s = e # es \<Longrightarrow>
    serve_step addrs s (s\<lparr>ss_main := Stops e, ss_errCh := es\<rparr>)"
| graceful_stop: "ss_main s = Stops e \<Longrightarrow> serve_step addrs s (s\<lparr>ss_main := Waits e, ss_stopped := True\<rparr>)"
| group_done: "ss_main s = Waits e \<Longrightarrow> set (ss_workers s) \<subseteq> {WorkerDone} \<Longrightarrow>
    serve_step addrs s (s\<lparr>ss_main := ServeReturned e\<rparr>)"

inductive_cases serve_stepE: "serve_step addrs s s'"

section \<open>The invariant\<close>

text \<open>How many goroutines have not sent an error: each sends at most one, so the channel has room for them all.\<close>

definition may_send :: "serve_phase \<Rightarrow> nat" where
  "may_send p = (case p of InServe \<Rightarrow> 1 | Sends _ \<Rightarrow> 1 | _ \<Rightarrow> 0)"

definition serve_result :: "serve_main \<Rightarrow> error option" where
  "serve_result p = (case p of Selects \<Rightarrow> None | Stops e \<Rightarrow> Some e | Waits e \<Rightarrow> Some e | ServeReturned e \<Rightarrow> Some e)"

definition serve_inv :: "string list \<Rightarrow> ServeState \<Rightarrow> bool" where
  "serve_inv addrs s \<longleftrightarrow> length (ss_workers s) = length addrs \<and>
     length (ss_errCh s) + sum_list (map may_send (ss_workers s)) \<le> length addrs \<and>
     set (ss_errCh s) \<subseteq> set (ss_sent s) \<and>
     (\<forall>e \<in> set (ss_sent s). \<exists>i < length addrs. \<exists>err. e = serveErr (addrs ! i) err) \<and>
     (\<forall>i < length addrs. \<forall>e. ss_workers s ! i = Sends e \<longrightarrow> (\<exists>err. e = serveErr (addrs ! i) err)) \<and>
     (ss_stopped s \<longleftrightarrow> (\<exists>e. ss_main s = Waits e \<or> ss_main s = ServeReturned e)) \<and>
     (\<forall>e. serve_result (ss_main s) = Some e \<longrightarrow> e = ctxErr \<and> ss_cancelled s \<or> e \<in> set (ss_sent s)) \<and>
     (\<forall>e. ss_main s = ServeReturned e \<longrightarrow> set (ss_workers s) \<subseteq> {WorkerDone})"

lemma serve_inv_serving: "serve_inv addrs (serving addrs)"
  by (simp add: serve_inv_def serving_def serve_result_def may_send_def comp_def sum_list_triv)

lemma sum_list_update_may_send:
  "i < length ps \<Longrightarrow> sum_list (map may_send (ps[i := p])) + may_send (ps ! i) = sum_list (map may_send ps) + may_send p"
proof (induction ps arbitrary: i)
  case (Cons q ps)
  then show ?case by (cases i) (simp_all add: add.commute add.left_commute)
qed simp

lemma workers_running: "i < length ps \<Longrightarrow> ps ! i \<noteq> WorkerDone \<Longrightarrow> \<not> set ps \<subseteq> {WorkerDone}"
  using nth_mem by fastforce

lemma serve_inv_step:
  assumes "serve_inv addrs s" "serve_step addrs s s'"
  shows "serve_inv addrs s'"
  using assms(2)
proof cases
  case (serve_fails i err)
  from assms(1) have len: "i < length (ss_workers s)" using serve_fails by (simp add: serve_inv_def)
  have "\<not> set (ss_workers s) \<subseteq> {WorkerDone}" using workers_running [OF len] serve_fails by simp
  with sum_list_update_may_send [OF len, of "Sends (serveErr (addrs ! i) err)"] serve_fails assms(1) show ?thesis
    by (auto simp: serve_inv_def may_send_def nth_list_update serve_result_def)
next
  case (serve_ends i)
  from assms(1) have len: "i < length (ss_workers s)" using serve_ends by (simp add: serve_inv_def)
  have "\<not> set (ss_workers s) \<subseteq> {WorkerDone}" using workers_running [OF len] serve_ends by simp
  with sum_list_update_may_send [OF len, of OwesDone] serve_ends assms(1) show ?thesis
    by (auto simp: serve_inv_def may_send_def nth_list_update serve_result_def)
next
  case (sends i e)
  from assms(1) have len: "i < length (ss_workers s)" using sends by (simp add: serve_inv_def)
  have "\<not> set (ss_workers s) \<subseteq> {WorkerDone}" using workers_running [OF len] sends by simp
  with sum_list_update_may_send [OF len, of OwesDone] sends assms(1) show ?thesis
    by (auto simp: serve_inv_def may_send_def nth_list_update serve_result_def)
next
  case (worker_done i)
  from assms(1) have len: "i < length (ss_workers s)" using worker_done by (simp add: serve_inv_def)
  have "\<not> set (ss_workers s) \<subseteq> {WorkerDone}" using workers_running [OF len] worker_done by simp
  with sum_list_update_may_send [OF len, of WorkerDone] worker_done assms(1) show ?thesis
    by (auto simp: serve_inv_def may_send_def nth_list_update serve_result_def)
qed (use assms(1) in \<open>auto simp: serve_inv_def serve_result_def\<close>)

interpretation serve: step_invariant "serve_step addrs" "serve_inv addrs" for addrs
  by unfold_locales (rule serve_inv_step)

text \<open>A goroutine with an error never waits for room in the channel.\<close>

lemma room_to_send:
  assumes "serve_inv addrs s" "i < length addrs" "ss_workers s ! i = Sends e"
  shows "length (ss_errCh s) < length addrs"
proof -
  have "may_send (Sends e) \<in> set (map may_send (ss_workers s))"
    using assms nth_mem [of i "ss_workers s"] by (auto simp: serve_inv_def)
  then have "1 \<le> sum_list (map may_send (ss_workers s))"
    using member_le_sum_list [of "may_send (Sends e)" "map may_send (ss_workers s)"] by (simp add: may_send_def)
  with assms(1) show ?thesis by (simp add: serve_inv_def)
qed

section \<open>A stopped server lets Serve return\<close>

definition work_left :: "serve_phase \<Rightarrow> nat" where
  "work_left p = (case p of WorkerDone \<Rightarrow> 0 | OwesDone \<Rightarrow> 1 | _ \<Rightarrow> 2)"

lemma work_left_update:
  "i < length ps \<Longrightarrow> work_left p < work_left (ps ! i) \<Longrightarrow> sum_list (map work_left (ps[i := p])) < sum_list (map work_left ps)"
proof (induction ps arbitrary: i)
  case (Cons q ps)
  then show ?case by (cases i) auto
qed simp

lemma group_progress:
  assumes "serve_inv addrs s" "ss_main s = Waits e" "\<not> set (ss_workers s) \<subseteq> {WorkerDone}"
  shows "\<exists>s'. serve_step addrs s s' \<and> ss_main s' = Waits e \<and>
    sum_list (map work_left (ss_workers s')) < sum_list (map work_left (ss_workers s))"
proof -
  from assms have "ss_stopped s" and len: "length (ss_workers s) = length addrs" by (auto simp: serve_inv_def)
  from assms(3) obtain p where "p \<in> set (ss_workers s)" "p \<noteq> WorkerDone" by blast
  then obtain i where i: "i < length addrs" "ss_workers s ! i \<noteq> WorkerDone"
    by (auto simp: in_set_conv_nth len)
  have progress: ?thesis if "serve_step addrs s s'" "ss_main s' = Waits e" "ss_workers s' = (ss_workers s)[i := q]"
    "work_left q < work_left (ss_workers s ! i)" for s' q
    using that work_left_update [of i "ss_workers s" q] i(1) len by (intro exI [of _ s']) simp
  show ?thesis
  proof (cases "ss_workers s ! i")
    case InServe
    show ?thesis
      by (rule progress [OF serve_ends [OF i(1) InServe \<open>ss_stopped s\<close>], of OwesDone])
         (simp_all add: assms(2) InServe work_left_def)
  next
    case (Sends err)
    show ?thesis
      by (rule progress [OF sends [OF i(1) Sends room_to_send [OF assms(1) i(1) Sends]], of OwesDone])
         (simp_all add: assms(2) Sends work_left_def)
  next
    case OwesDone
    show ?thesis
      by (rule progress [OF worker_done [OF i(1) OwesDone], of WorkerDone])
         (simp_all add: assms(2) OwesDone work_left_def)
  qed (use i in simp)
qed

lemma waiting_can_return:
  assumes "serve_inv addrs s" "ss_main s = Waits e"
  shows "\<exists>s'. (serve_step addrs)\<^sup>*\<^sup>* s s' \<and> ss_main s' = ServeReturned e"
  using assms
proof (induction "sum_list (map work_left (ss_workers s))" arbitrary: s rule: less_induct)
  case less
  show ?case
  proof (cases "set (ss_workers s) \<subseteq> {WorkerDone}")
    case True
    with group_done [of s e addrs] less.prems(2) have "(serve_step addrs)\<^sup>*\<^sup>* s (s\<lparr>ss_main := ServeReturned e\<rparr>)" by blast
    then show ?thesis by (intro exI conjI) (assumption, simp)
  next
    case False
    from group_progress [OF less.prems False] obtain s' where s': "serve_step addrs s s'" "ss_main s' = Waits e"
      "sum_list (map work_left (ss_workers s')) < sum_list (map work_left (ss_workers s))" by blast
    from less.hyps [OF s'(3) serve_inv_step [OF less.prems(1) s'(1)] s'(2)] show ?thesis
      by (rule reach_via [of "serve_step addrs", OF s'(1)])
  qed
qed

lemma chosen_can_return:
  assumes "serve_inv addrs s" "serve_result (ss_main s) = Some e"
  shows "\<exists>s'. (serve_step addrs)\<^sup>*\<^sup>* s s' \<and> ss_main s' = ServeReturned e"
proof (cases "ss_main s")
  case (Stops e')
  with assms(2) have e: "ss_main s = Stops e" by (simp add: serve_result_def)
  from graceful_stop [OF e] have st: "serve_step addrs s (s\<lparr>ss_main := Waits e, ss_stopped := True\<rparr>)" .
  from waiting_can_return [OF serve_inv_step [OF assms(1) st]] show ?thesis
    by (rule reach_via [of "serve_step addrs", OF st, OF _]) simp
qed (use assms waiting_can_return in \<open>auto simp: serve_result_def\<close>)

end
