(* ===== verification/Lifecycle_Properties.thy ===== *)
theory Lifecycle_Properties
  imports Membership Serve
begin

text \<open>
  What the goroutines of the cluster manager and of \<open>server.Serve\<close> guarantee, for every
  interleaving of their steps.
\<close>

text \<open>
  C21. However the heartbeat and any number of callers of \<open>Close\<close> interleave: once a call of
  \<open>Close\<close> has returned, the heartbeat has ended, the manager has registered the node some
  number of times, then closed the session once and then the client once, and nothing the
  manager does reaches etcd afterwards; and a call that is under way can return.
\<close>

theorem close_ends_heartbeat:
  assumes "(member_step lib host m version)\<^sup>*\<^sup>* (started n) s"
  shows "(ms_callers s c = CloseReturned \<longrightarrow>
      ms_beat s = BeatReturned \<and>
      ms_log s = takeWhile ((=) Registered) (ms_log s) @ [SessionClosed, ClientClosed] \<and>
      (\<forall>s'. (member_step lib host m version)\<^sup>*\<^sup>* s s' \<longrightarrow> ms_etcd s' = ms_etcd s \<and> ms_log s' = ms_log s)) \<and>
    (ms_callers s c = CloseRuns \<or> ms_callers s c = CloseWaits \<longrightarrow>
      (\<exists>s'. (member_step lib host m version)\<^sup>*\<^sup>* s s' \<and> ms_callers s' c = CloseReturned))"
proof -
  have i: "member_inv s" using assms member_inv_started by (rule membership.reachable)
  then have over: "ms_callers s c = CloseReturned \<Longrightarrow> ms_once s = OnceOver" by (auto simp: member_inv_def)
  moreover have "ms_once s = OnceOver \<Longrightarrow> ms_beat s = BeatReturned \<and>
      ms_log s = takeWhile ((=) Registered) (ms_log s) @ [SessionClosed, ClientClosed]"
    using i by (auto simp: member_inv_def orderly_log_def shutdown_log_def)
  ultimately show ?thesis using i closed_stays close_can_return by metis
qed

text \<open>An etcd that counts the calls it gets, and a manager closed by two callers.\<close>

definition countEtcd :: "(nat, unit, unit) EtcdLib" where
  "countEtcd = \<lparr>lib_New = (\<lambda>_ _ _ n. (None, n + 1)), lib_NewSession = (\<lambda>_ n. (None, n + 1)),
     lib_PutLeased = (\<lambda>_ _ n. (None, n + 1)), lib_CloseSession = (\<lambda>n. n + 1), lib_CloseClient = (\<lambda>n. n + 1)\<rparr>"

definition closing_manager :: "nat MemberState" where
  "closing_manager = (started 0)\<lparr>ms_once := OnceAwaitsDone, ms_cancelled := True,
     ms_callers := (\<lambda>_. CloseNotCalled)(0 := CloseRuns, 1 := CloseWaits)\<rparr>"

theorem close_ends_heartbeat_witness:
  "\<exists>s. (member_step countEtcd ''h'' \<lparr>mg_prefix = ''/sltv'', mg_nodeID = ''n1''\<rparr> ''dev'')\<^sup>*\<^sup>* closing_manager s \<and>
     ms_callers s 1 = CloseReturned"
proof -
  let ?R = "member_step countEtcd ''h'' \<lparr>mg_prefix = ''/sltv'', mg_nodeID = ''n1''\<rparr> ''dev''"
  let ?s0 = "started (0 :: nat)"
  let ?s1 = "?s0\<lparr>ms_callers := (ms_callers ?s0)(0 := CloseRuns), ms_once := OnceAwaitsDone, ms_cancelled := True\<rparr>"
  have a: "?R ?s0 ?s1" by (rule close_first) (simp_all add: started_def)
  have "?R ?s1 (?s1\<lparr>ms_callers := (ms_callers ?s1)(1 := CloseWaits)\<rparr>)"
    by (rule close_again) (simp_all add: started_def)
  moreover have "?s1\<lparr>ms_callers := (ms_callers ?s1)(1 := CloseWaits)\<rparr> = closing_manager"
    by (simp add: closing_manager_def started_def)
  ultimately have "?R ?s1 closing_manager" by simp
  with a have "?R\<^sup>*\<^sup>* ?s0 closing_manager" by (rule converse_rtranclp_into_rtranclp [OF _ r_into_rtranclp])
  from close_ends_heartbeat [OF this, of 1] show ?thesis by (simp add: closing_manager_def)
qed

text \<open>
  C22. However the goroutines of \<open>Serve\<close> interleave: when \<open>Serve\<close> returns, the server was
  stopped and every goroutine has finished, and the result is the context's error, if the
  context was cancelled, or the error of one of the listeners, with its address; once it has
  chosen its result, it can return it; and no goroutine ever waits to send its error.
\<close>

theorem serve_returns:
  assumes "(serve_step addrs)\<^sup>*\<^sup>* (serving addrs) s"
  shows "(ss_main s = ServeReturned e \<longrightarrow> ss_stopped s \<and> set (ss_workers s) \<subseteq> {WorkerDone} \<and>
      (e = ctxErr \<and> ss_cancelled s \<or> (\<exists>i < length addrs. \<exists>err. e = serveErr (addrs ! i) err))) \<and>
    (serve_result (ss_main s) = Some e \<longrightarrow> (\<exists>s'. (serve_step addrs)\<^sup>*\<^sup>* s s' \<and> ss_main s' = ServeReturned e)) \<and>
    (i < length addrs \<and> ss_workers s ! i = Sends e \<longrightarrow> length (ss_errCh s) < length addrs)"
proof -
  have inv: "serve_inv addrs s" using assms serve_inv_serving by (rule serve.reachable)
  then have "ss_main s = ServeReturned e \<Longrightarrow> ss_stopped s \<and> set (ss_workers s) \<subseteq> {WorkerDone} \<and>
      (e = ctxErr \<and> ss_cancelled s \<or> (\<exists>i < length addrs. \<exists>err. e = serveErr (addrs ! i) err))"
    by (auto simp: serve_inv_def serve_result_def)
  with inv chosen_can_return room_to_send show ?thesis by blast
qed

definition failed_server :: ServeState where
  "failed_server = \<lparr>ss_main = Stops (serveErr ''a'' (ExecError ''x'')), ss_workers = [OwesDone, InServe], ss_errCh = [],
     ss_cancelled = False, ss_stopped = False, ss_sent = [serveErr ''a'' (ExecError ''x'')]\<rparr>"

theorem serve_returns_witness:
  "\<exists>s. (serve_step [''a'', ''b''])\<^sup>*\<^sup>* failed_server s \<and> ss_main s = ServeReturned (serveErr ''a'' (ExecError ''x''))"
proof -
  let ?R = "serve_step [''a'', ''b'']" and ?e = "serveErr ''a'' (ExecError ''x'')"
  let ?s0 = "serving [''a'', ''b'']"
  let ?s1 = "?s0\<lparr>ss_workers := [Sends ?e, InServe]\<rparr>"
  let ?s2 = "?s1\<lparr>ss_workers := [OwesDone, InServe], ss_errCh := [?e], ss_sent := [?e]\<rparr>"
  have a: "?R ?s0 ?s1" using serve_fails [of 0 "[''a'', ''b'']" ?s0 "ExecError ''x''"] by (simp add: serving_def)
  have b: "?R ?s1 ?s2" using sends [of 0 "[''a'', ''b'']" ?s1 ?e] by (simp add: serving_def)
  have "?R ?s2 failed_server"
    using select_err [of ?s2 ?e "[]" "[''a'', ''b'']"] by (simp add: serving_def failed_server_def)
  then have "?R\<^sup>*\<^sup>* ?s0 failed_server"
    by (intro converse_rtranclp_into_rtranclp [of ?R, OF a] converse_rtranclp_into_rtranclp [of ?R, OF b] r_into_rtranclp)
  from serve_returns [OF this, of ?e] show ?thesis by (simp add: failed_server_def serve_result_def)
qed

end
