(* ===== verification/Daemon_Config.thy ===== *)
theory Daemon_Config
  imports Go_Float Sltv_Prelude
begin

text \<open>
  The configuration of the daemon, \<open>src/internal/config/config.go\<close>: its records and defaults,
  the loader with the environment overrides, the validation, and the parser of human-readable
  sizes. Reading a file, decoding YAML (\<open>gopkg.in/yaml.v3\<close>), the environment and the host
  name are parameters. The lemmas say which configurations are valid, that what \<open>Load\<close>
  returns is valid and has every override applied, and that sizes up to \<open>2^53\<close> times a unit
  are read exactly.
\<close>

section \<open>Letter case\<close>

text \<open>
  \<open>strings.ToUpper\<close> and \<open>ToLower\<close> on the letters that can end up as ASCII letters: the
  ASCII ones and the four code points outside ASCII whose mapping is an ASCII letter (dotless i,
  long s; dotted capital I, the Kelvin sign). Every other byte is kept; it never becomes part of
  an ASCII word, which is all the program compares with.
\<close>

definition ascii_upper :: "char \<Rightarrow> char" where
  "ascii_upper c = (let n = (of_char c :: nat) in if 97 \<le> n \<and> n \<le> 122 then char_of (n - 32) else c)"

definition ascii_lower :: "char \<Rightarrow> char" where
  "ascii_lower c = (let n = (of_char c :: nat) in if 65 \<le> n \<and> n \<le> 90 then char_of (n + 32) else c)"

fun ToUpper :: "string \<Rightarrow> string" where
  "ToUpper (x # y # s) =
     (if x = CHR 0xC4 \<and> y = CHR 0xB1 then CHR ''I'' # ToUpper s
      else if x = CHR 0xC5 \<and> y = CHR 0xBF then CHR ''S'' # ToUpper s
      else ascii_upper x # ToUpper (y # s))"
| "ToUpper s = map ascii_upper s"

fun ToLower :: "string \<Rightarrow> string" where
  "ToLower (x # y # z # s) =
     (if x = CHR 0xC4 \<and> y = CHR 0xB0 then CHR ''i'' # ToLower (z # s)
      else if x = CHR 0xE2 \<and> y = CHR 0x84 \<and> z = CHR 0xAA then CHR ''k'' # ToLower s
      else ascii_lower x # ToLower (y # z # s))"
| "ToLower s = (if s = [CHR 0xC4, CHR 0xB0] then ''i'' else map ascii_lower s)"

section \<open>The records\<close>

record ListenConfig =
  lc_Unix :: string
  lc_TCP :: string

record CfgTLS =
  ct_Cert :: string
  ct_Key :: string
  ct_CA :: string

record StorageConfig =
  sc_StateDir :: string
  sc_DefaultVG :: string

record LibvirtConfig =
  vc_URI :: string

record ThinConfig =
  hc_DefaultInitialSize :: u64
  hc_FreeThresholdPercent :: int
  hc_ExtendStepPercent :: int
  hc_PollInterval :: int

record ETCDConfig =
  ec_Endpoints :: "string list"
  ec_LockTTL :: int
  ec_TLS :: CfgTLS

record ClusterConfig =
  cc_Enabled :: bool
  cc_NodeID :: string
  cc_ETCD :: ETCDConfig

record LogConfig =
  gc_Level :: string
  gc_Format :: string

record SltvdConfig =
  cfg_Listen :: ListenConfig
  cfg_TLS :: CfgTLS
  cfg_Storage :: StorageConfig
  cfg_Libvirt :: LibvirtConfig
  cfg_Thin :: ThinConfig
  cfg_Cluster :: ClusterConfig
  cfg_Log :: LogConfig

definition KiB :: u64 where "KiB = push_bit 10 1"
definition MiB :: u64 where "MiB = push_bit 20 1"
definition GiB :: u64 where "GiB = push_bit 30 1"
definition TiB :: u64 where "TiB = push_bit 40 1"

text \<open>Durations are in nanoseconds.\<close>

definition second :: int where "second = 1000000000"

definition noTLS :: CfgTLS where
  "noTLS = \<lparr>ct_Cert = [], ct_Key = [], ct_CA = []\<rparr>"

definition Default :: SltvdConfig where
  "Default = \<lparr>
     cfg_Listen = \<lparr>lc_Unix = ''/run/sltv/sltvd.sock'', lc_TCP = []\<rparr>,
     cfg_TLS = noTLS,
     cfg_Storage = \<lparr>sc_StateDir = ''/var/lib/sltv'', sc_DefaultVG = ''vg-sltv''\<rparr>,
     cfg_Libvirt = \<lparr>vc_URI = ''qemu:///system''\<rparr>,
     cfg_Thin = \<lparr>hc_DefaultInitialSize = 10 * GiB, hc_FreeThresholdPercent = 10, hc_ExtendStepPercent = 10,
       hc_PollInterval = 15 * second\<rparr>,
     cfg_Cluster = \<lparr>cc_Enabled = False, cc_NodeID = [],
       cc_ETCD = \<lparr>ec_Endpoints = [], ec_LockTTL = 10 * second, ec_TLS = noTLS\<rparr>\<rparr>,
     cfg_Log = \<lparr>gc_Level = ''info'', gc_Format = ''json''\<rparr>\<rparr>"

section \<open>Validation\<close>

definition Validate :: "SltvdConfig \<Rightarrow> error option" where
  "Validate c =
     (if lc_Unix (cfg_Listen c) = [] \<and> lc_TCP (cfg_Listen c) = []
      then Some (Errorf ''listen: at least one of unix or tcp must be set'' [])
      else if lc_TCP (cfg_Listen c) \<noteq> [] \<and> (ct_Cert (cfg_TLS c) = [] \<or> ct_Key (cfg_TLS c) = [])
      then Some (Errorf ''listen.tcp requires tls.cert and tls.key'' [])
      else if sc_StateDir (cfg_Storage c) = [] then Some (Errorf ''storage.state_dir must not be empty'' [])
      else if hc_FreeThresholdPercent (cfg_Thin c) \<le> 0 \<or> 100 \<le> hc_FreeThresholdPercent (cfg_Thin c)
      then Some (Errorf ''thin.free_threshold_percent must be in (0, 100)'' [])
      else if hc_ExtendStepPercent (cfg_Thin c) \<le> 0 \<or> 1000 < hc_ExtendStepPercent (cfg_Thin c)
      then Some (Errorf ''thin.extend_step_percent must be in (0, 1000]'' [])
      else if hc_PollInterval (cfg_Thin c) < second then Some (Errorf ''thin.poll_interval must be >= 1s'' [])
      else if hc_DefaultInitialSize (cfg_Thin c) \<le> 0 then Some (Errorf ''thin.default_initial_size must be > 0'' [])
      else if cc_Enabled (cfg_Cluster c) then
        (if length (ec_Endpoints (cc_ETCD (cfg_Cluster c))) = 0
         then Some (Errorf ''cluster.etcd.endpoints must be set when cluster.enabled=true'' [])
         else if ec_LockTTL (cc_ETCD (cfg_Cluster c)) < second
         then Some (Errorf ''cluster.etcd.lock_ttl must be >= 1s'' [])
         else None)
      else None)"

section \<open>Loading\<close>

definition parseBool :: "string \<Rightarrow> bool" where
  "parseBool v \<longleftrightarrow> ToLower (TrimSpace v) \<in> {''1'', ''t'', ''true'', ''y'', ''yes'', ''on''}"

definition splitCSV :: "string \<Rightarrow> string list" where
  "splitCSV v = filter (\<lambda>p. p \<noteq> []) (map TrimSpace (Split (CHR '','') v))"

text \<open>One override: the variable's value when it is set, the old value otherwise.\<close>

definition env_or :: "(string \<Rightarrow> string option) \<Rightarrow> string \<Rightarrow> (string \<Rightarrow> 'a) \<Rightarrow> 'a \<Rightarrow> 'a" where
  "env_or env name f old = (case env name of Some v \<Rightarrow> f v | None \<Rightarrow> old)"

lemma env_or_simps [simp]: "env name = None \<Longrightarrow> env_or env name f old = old"
  "env name = Some v \<Longrightarrow> env_or env name f old = f v"
  by (simp_all add: env_or_def)

definition applyEnv :: "(string \<Rightarrow> string option) \<Rightarrow> SltvdConfig \<Rightarrow> SltvdConfig" where
  "applyEnv env cfg =
     (let cfg = cfg\<lparr>cfg_Listen := (cfg_Listen cfg)\<lparr>
            lc_Unix := env_or env ''SLTV_LISTEN_UNIX'' id (lc_Unix (cfg_Listen cfg)),
            lc_TCP := env_or env ''SLTV_LISTEN_TCP'' id (lc_TCP (cfg_Listen cfg))\<rparr>\<rparr>;
          cfg = cfg\<lparr>cfg_Storage := (cfg_Storage cfg)\<lparr>
            sc_StateDir := env_or env ''SLTV_STATE_DIR'' id (sc_StateDir (cfg_Storage cfg)),
            sc_DefaultVG := env_or env ''SLTV_DEFAULT_VG'' id (sc_DefaultVG (cfg_Storage cfg))\<rparr>\<rparr>;
          cfg = cfg\<lparr>cfg_Libvirt := (cfg_Libvirt cfg)\<lparr>
            vc_URI := env_or env ''SLTV_LIBVIRT_URI'' id (vc_URI (cfg_Libvirt cfg))\<rparr>\<rparr>;
          etcd = cc_ETCD (cfg_Cluster cfg);
          cfg = cfg\<lparr>cfg_Cluster := (cfg_Cluster cfg)\<lparr>
            cc_NodeID := env_or env ''SLTV_NODE_ID'' id (cc_NodeID (cfg_Cluster cfg)),
            cc_Enabled := env_or env ''SLTV_CLUSTER_ENABLED'' parseBool (cc_Enabled (cfg_Cluster cfg)),
            cc_ETCD := etcd\<lparr>ec_Endpoints := env_or env ''SLTV_ETCD_ENDPOINTS''
              (\<lambda>v. if v \<noteq> [] then splitCSV v else ec_Endpoints etcd) (ec_Endpoints etcd)\<rparr>\<rparr>\<rparr>
      in cfg\<lparr>cfg_Log := (cfg_Log cfg)\<lparr>
            gc_Level := env_or env ''SLTV_LOG_LEVEL'' id (gc_Level (cfg_Log cfg)),
            gc_Format := env_or env ''SLTV_LOG_FORMAT'' id (gc_Format (cfg_Log cfg))\<rparr>\<rparr>)"

text \<open>
  \<open>os.ReadFile\<close>: a missing file (\<open>os.ErrNotExist\<close>) is told apart from other failures.
\<close>

datatype read_result = Content string | NotExist | ReadFailed error

definition ErrFileNotFound :: error where
  "ErrFileNotFound = Errorf ''config file not found'' []"

definition Load :: "(string \<Rightarrow> read_result) \<Rightarrow> (string \<Rightarrow> SltvdConfig \<Rightarrow> SltvdConfig result) \<Rightarrow> (string \<Rightarrow> string option)
    \<Rightarrow> string \<Rightarrow> SltvdConfig result" where
  "Load readFile unmarshal env path =
     (case (if path \<noteq> [] then
              (case readFile path of
                 Content raw \<Rightarrow>
                   (case unmarshal raw Default of
                      Inl err \<Rightarrow> Inl (Wrapf ''parse %s: %w'' [path] err)
                    | Inr cfg \<Rightarrow> Inr cfg)
               | NotExist \<Rightarrow> Inl (Wrapf ''%w: %s'' [path] ErrFileNotFound)
               | ReadFailed err \<Rightarrow> Inl (Wrapf ''read %s: %w'' [path] err))
            else Inr Default) of
        Inl err \<Rightarrow> Inl err
      | Inr cfg \<Rightarrow>
          (let cfg = applyEnv env cfg in
           case Validate cfg of Some err \<Rightarrow> Inl err | None \<Rightarrow> Inr cfg))"

definition EffectiveNodeID :: "string result \<Rightarrow> SltvdConfig \<Rightarrow> string" where
  "EffectiveNodeID hostname c =
     (if cc_NodeID (cfg_Cluster c) \<noteq> [] then cc_NodeID (cfg_Cluster c)
      else (case hostname of Inl _ \<Rightarrow> ''sltvd'' | Inr host \<Rightarrow> if host = [] then ''sltvd'' else host))"

lemma EffectiveNodeID_not_Nil: "EffectiveNodeID hostname c \<noteq> []"
  by (auto simp: EffectiveNodeID_def split: sum.split)

section \<open>Sizes\<close>

text \<open>
  \<open>strconv.ParseFloat\<close> on the strings \<open>ParseSize\<close> gives it, which consist of digits and
  points: at least one digit and at most one point. The value is the nearest 64-bit float; a
  value that rounds to \<open>2^1024\<close> or more is a range error.
\<close>

definition digits_val :: "string \<Rightarrow> nat" where
  "digits_val s = fold (\<lambda>c n. 10 * n + digit_val c) s 0"

definition ParseFloat :: "string \<Rightarrow> num_error + f64" where
  "ParseFloat s =
     (case cut (CHR ''.'') s of
        (a, r) \<Rightarrow>
          (let b = (case r of None \<Rightarrow> [] | Some b \<Rightarrow> b) in
           if a @ b = [] \<or> \<not> list_all is_digit (a @ b) then Inl ErrSyntax
           else let x = rnd64 (of_nat (digits_val (a @ b)) / 10 ^ length b)
                in if 2 ^ 1024 \<le> x then Inl ErrRange else Inr x))"

definition is_num_char :: "char \<Rightarrow> bool" where
  "is_num_char c \<longleftrightarrow> is_digit c \<or> c = CHR ''.''"

definition size_mult :: "string \<Rightarrow> u64 option" where
  "size_mult unit =
     (let u = ToUpper unit in
      if u \<in> {'''', ''B''} then Some 1
      else if u \<in> {''K'', ''KB'', ''KIB''} then Some KiB
      else if u \<in> {''M'', ''MB'', ''MIB''} then Some MiB
      else if u \<in> {''G'', ''GB'', ''GIB''} then Some GiB
      else if u \<in> {''T'', ''TB'', ''TIB''} then Some TiB
      else None)"

definition float_error :: "string \<Rightarrow> num_error \<Rightarrow> error" where
  "float_error s e = Errorf ''strconv.ParseFloat: parsing %q: %s''
     [s, (case e of ErrSyntax \<Rightarrow> ''invalid syntax'' | ErrRange \<Rightarrow> ''value out of range'')]"

definition ParseSize :: "(f64 \<Rightarrow> u64) \<Rightarrow> string \<Rightarrow> u64 result" where
  "ParseSize oob inp =
     (let s = TrimSpace inp in
      if s = [] then Inl (Errorf ''empty size'' [])
      else let num = TrimSpace (takeWhile is_num_char s);
               unit = TrimSpace (dropWhile is_num_char s) in
      if num = [] then Inl (Errorf ''size %q: missing number'' [inp])
      else (case ParseFloat num of
              Inl e \<Rightarrow> Inl (Wrapf ''size %q: %w'' [inp] (float_error num e))
            | Inr val \<Rightarrow>
                if val < 0 then Inl (Errorf ''size %q: must be non-negative'' [inp])
                else (case size_mult unit of
                        None \<Rightarrow> Inl (Errorf ''size %q: unknown unit %q'' [inp, unit])
                      | Some m \<Rightarrow> Inr (u64_of_f64 oob (f64_mul val (f64_of_u64 m))))))"

text \<open>A YAML scalar: its tag and its text.\<close>

record YamlNode =
  yn_Tag :: string
  yn_Value :: string

definition HumanSize_UnmarshalYAML :: "(f64 \<Rightarrow> u64) \<Rightarrow> YamlNode \<Rightarrow> u64 result" where
  "HumanSize_UnmarshalYAML oob v =
     (if yn_Tag v = ''!!int'' then
        (case ParseUint (yn_Value v) of
           (_, Some e) \<Rightarrow> Inl (Errorf ''strconv.ParseUint: parsing %q: %s''
             [yn_Value v, (case e of ErrSyntax \<Rightarrow> ''invalid syntax'' | ErrRange \<Rightarrow> ''value out of range'')])
         | (n, None) \<Rightarrow> Inr (of_nat n))
      else if yn_Tag v = ''!!str'' then ParseSize oob (yn_Value v)
      else Inl (Errorf ''config: cannot decode size from %q (tag=%s)'' [yn_Value v, yn_Tag v]))"

text \<open>
  \<open>MarshalYAML\<close> emits the byte count, which YAML prints in decimal as an integer scalar.
\<close>

definition HumanSize_MarshalYAML :: "u64 \<Rightarrow> YamlNode" where
  "HumanSize_MarshalYAML s = \<lparr>yn_Tag = ''!!int'', yn_Value = dec (unat s)\<rparr>"

section \<open>Loading applies every override\<close>

lemma Load_Inr:
  assumes "Load readFile unmarshal env path = Inr cfg"
  shows "Validate cfg = None" "\<exists>cfg0. cfg = applyEnv env cfg0 \<and> (path = [] \<longrightarrow> cfg0 = Default)"
  using assms by (auto simp: Load_def Let_def split: if_splits read_result.splits sum.splits option.splits)

lemma applyEnv_fields:
  "lc_Unix (cfg_Listen (applyEnv env c)) = env_or env ''SLTV_LISTEN_UNIX'' id (lc_Unix (cfg_Listen c))"
  "lc_TCP (cfg_Listen (applyEnv env c)) = env_or env ''SLTV_LISTEN_TCP'' id (lc_TCP (cfg_Listen c))"
  "sc_StateDir (cfg_Storage (applyEnv env c)) = env_or env ''SLTV_STATE_DIR'' id (sc_StateDir (cfg_Storage c))"
  "sc_DefaultVG (cfg_Storage (applyEnv env c)) = env_or env ''SLTV_DEFAULT_VG'' id (sc_DefaultVG (cfg_Storage c))"
  "vc_URI (cfg_Libvirt (applyEnv env c)) = env_or env ''SLTV_LIBVIRT_URI'' id (vc_URI (cfg_Libvirt c))"
  "cc_NodeID (cfg_Cluster (applyEnv env c)) = env_or env ''SLTV_NODE_ID'' id (cc_NodeID (cfg_Cluster c))"
  "cc_Enabled (cfg_Cluster (applyEnv env c)) = env_or env ''SLTV_CLUSTER_ENABLED'' parseBool (cc_Enabled (cfg_Cluster c))"
  "gc_Level (cfg_Log (applyEnv env c)) = env_or env ''SLTV_LOG_LEVEL'' id (gc_Level (cfg_Log c))"
  "gc_Format (cfg_Log (applyEnv env c)) = env_or env ''SLTV_LOG_FORMAT'' id (gc_Format (cfg_Log c))"
  "ec_Endpoints (cc_ETCD (cfg_Cluster (applyEnv env c))) = env_or env ''SLTV_ETCD_ENDPOINTS''
     (\<lambda>v. if v \<noteq> [] then splitCSV v else ec_Endpoints (cc_ETCD (cfg_Cluster c))) (ec_Endpoints (cc_ETCD (cfg_Cluster c)))"
  "cfg_Thin (applyEnv env c) = cfg_Thin c" "cfg_TLS (applyEnv env c) = cfg_TLS c"
  by (simp_all add: applyEnv_def Let_def cong: if_cong)

lemma applyEnv_unset: "(\<And>n. env n = None) \<Longrightarrow> applyEnv env c = c"
  by (simp add: applyEnv_def Let_def)

section \<open>Exact sizes\<close>

text \<open>The spellings of the units with ASCII letters that the documentation shows.\<close>

definition size_units :: "string list" where
  "size_units = ['''', ''B'', ''K'', ''KB'', ''KiB'', ''M'', ''MB'', ''MiB'', ''G'', ''GB'', ''GiB'', ''T'', ''TB'', ''TiB'',
     ''b'', ''k'', ''kb'', ''kib'', ''m'', ''mb'', ''mib'', ''g'', ''gb'', ''gib'', ''t'', ''tb'', ''tib'']"

lemma size_units_plain:
  assumes "u \<in> set size_units"
  shows "u = [] \<or> plain_ends u \<and> \<not> is_num_char (hd u)"
proof -
  have "u = [] \<or> is_letter (hd u) \<and> is_letter (last u) \<and> \<not> is_num_char (hd u)"
    using assms by (auto simp: size_units_def is_letter_def is_num_char_def is_digit_def)
  then show ?thesis using plain_ends_letters by blast
qed

lemma units: "KiB = 2 ^ 10" "MiB = 2 ^ 20" "GiB = 2 ^ 30" "TiB = 2 ^ 40"
  by (simp_all add: KiB_def MiB_def GiB_def TiB_def push_bit_eq_mult)

lemma size_mult_pow2: "size_mult u = Some k \<Longrightarrow> \<exists>j\<le>40. k = 2 ^ j \<and> unat k = 2 ^ j"
proof -
  assume "size_mult u = Some k"
  then have "k \<in> {2 ^ 0, 2 ^ 10, 2 ^ 20, 2 ^ 30, 2 ^ 40}"
    by (auto simp: size_mult_def Let_def units split: if_splits)
  then obtain j where j: "j \<in> {0, 10, 20, 30, 40}" "k = 2 ^ j" by blast
  then have "unat k = 2 ^ j" by auto
  with j show ?thesis by auto
qed

lemma digits_val_dec: "digits_val (dec n) = n"
proof (induction n rule: dec.induct)
  case (1 n)
  show ?case
  proof (cases "n < 10")
    case True
    then show ?thesis by (simp add: dec.simps [of n] digits_val_def)
  next
    case False
    with "1.IH" have "fold (\<lambda>c n. 10 * n + digit_val c) (dec (n div 10)) 0 = n div 10" by (simp add: digits_val_def)
    with False show ?thesis by (simp add: dec.simps [of n] digits_val_def)
  qed
qed

lemma ParseFloat_dec:
  assumes "n \<le> 2 ^ 53"
  shows "ParseFloat (dec n) = Inr (of_nat n)"
proof -
  have "CHR ''.'' \<notin> set (dec n)" using dec_digits [of _ n] digit_not_special(3) by blast
  then have "cut (CHR ''.'') (dec n) = (dec n, None)" by (rule cut_absent)
  moreover have "list_all is_digit (dec n)" using dec_digits [of _ n] by (simp add: list_all_iff)
  moreover have "rnd64 (of_nat n) = of_nat n" using assms by (rule rnd64_of_nat)
  moreover have "(of_nat n :: rat) < 2 ^ 1024"
  proof -
    have "(of_nat n :: rat) \<le> of_nat (2 ^ 53)" using assms by (simp only: of_nat_le_iff)
    also have "\<dots> < 2 ^ 1024" by simp
    finally show ?thesis .
  qed
  ultimately show ?thesis by (simp add: ParseFloat_def digits_val_dec)
qed

lemma plain_ends_dec: "plain_ends (dec n)"
  by (rule plain_ends_digits) (simp_all add: dec_digits)

lemma ParseSize_dec:
  assumes u: "u \<in> set size_units" "size_mult u = Some k" and n: "n \<le> 2 ^ 53"
  shows "ParseSize oob (dec n @ u) = Inr (u64_of_f64 oob (f64_mul (of_nat n) (f64_of_u64 k)))"
proof -
  have d: "\<forall>c\<in>set (dec n). is_num_char c" using dec_digits [of _ n] by (simp add: is_num_char_def)
  have "takeWhile is_num_char u = [] \<and> dropWhile is_num_char u = u"
    using size_units_plain [OF u(1)] by (cases u) auto
  then have "takeWhile is_num_char (dec n @ u) = dec n" "dropWhile is_num_char (dec n @ u) = u"
    using d by auto
  moreover have "TrimSpace (dec n @ u) = dec n @ u" "TrimSpace (dec n) = dec n" "TrimSpace u = u"
    using size_units_plain [OF u(1)] plain_ends_dec [of n]
    by (cases "u = []"; simp add: plain_ends_append TrimSpace_Nil TrimSpace_plain)+
  ultimately show ?thesis
    using ParseFloat_dec [OF n] u(2) by (simp add: ParseSize_def)
qed

lemma f64_mul_pow2:
  assumes "n \<le> 2 ^ 53" "unat k = 2 ^ j" "j \<le> 40"
  shows "f64_mul (of_nat n) (f64_of_u64 k) = of_nat (n * 2 ^ j)"
proof -
  have "(2 :: nat) ^ j \<le> 2 ^ 53" using assms(3) by (intro power_increasing) simp_all
  then have "f64_of_u64 k = of_nat (2 ^ j)" by (simp only: f64_of_u64_def assms(2) rnd64_of_nat)
  moreover have "of_nat (2 ^ j) = pow2 (int j)" by (simp add: pow2_nat)
  ultimately show ?thesis using rnd64_exact [OF assms(1), of "int j"] by (simp add: f64_mul_def)
qed

lemma ParseSize_exact:
  assumes "u \<in> set size_units" "size_mult u = Some k" "n \<le> 2 ^ 53" "n * unat k < 2 ^ 64"
  shows "ParseSize oob (dec n @ u) = Inr (of_nat n * k)"
proof -
  from size_mult_pow2 [OF assms(2)] obtain j where j: "j \<le> 40" "unat k = 2 ^ j" by blast
  have "of_nat (n * unat k) = of_nat n * k" by simp
  moreover have "f64_mul (of_nat n) (f64_of_u64 k) = of_nat (n * unat k)"
    unfolding j(2) by (rule f64_mul_pow2 [OF assms(3) j(2,1)])
  ultimately show ?thesis
    using ParseSize_dec [OF assms(1-3), of oob] u64_of_f64_nat [OF assms(4), of oob] by argo
qed

end
