(* ===== verification/Config_Properties.thy ===== *)
theory Config_Properties
  imports Daemon_Config Thin
begin

text \<open>What the loader and the validation of the configuration guarantee, and how sizes are read.\<close>


text \<open>
  C31. A configuration that \<open>Load\<close> returns is valid, and every environment variable that is set
  has the last word over the file and the defaults; with no file and no variable the result is the
  documented default. A missing file is reported as \<open>ErrFileNotFound\<close>.
\<close>

theorem load_valid_and_overridden:
  assumes "Load readFile unmarshal env path = Inr cfg"
  shows "Validate cfg = None \<and>
    (\<forall>v. env ''SLTV_LISTEN_UNIX'' = Some v \<longrightarrow> lc_Unix (cfg_Listen cfg) = v) \<and>
    (\<forall>v. env ''SLTV_LISTEN_TCP'' = Some v \<longrightarrow> lc_TCP (cfg_Listen cfg) = v) \<and>
    (\<forall>v. env ''SLTV_STATE_DIR'' = Some v \<longrightarrow> sc_StateDir (cfg_Storage cfg) = v) \<and>
    (\<forall>v. env ''SLTV_DEFAULT_VG'' = Some v \<longrightarrow> sc_DefaultVG (cfg_Storage cfg) = v) \<and>
    (\<forall>v. env ''SLTV_LIBVIRT_URI'' = Some v \<longrightarrow> vc_URI (cfg_Libvirt cfg) = v) \<and>
    (\<forall>v. env ''SLTV_NODE_ID'' = Some v \<longrightarrow> cc_NodeID (cfg_Cluster cfg) = v) \<and>
    (\<forall>v. env ''SLTV_CLUSTER_ENABLED'' = Some v \<longrightarrow> cc_Enabled (cfg_Cluster cfg) = parseBool v) \<and>
    (\<forall>v. env ''SLTV_ETCD_ENDPOINTS'' = Some v \<and> v \<noteq> [] \<longrightarrow> ec_Endpoints (cc_ETCD (cfg_Cluster cfg)) = splitCSV v) \<and>
    (\<forall>v. env ''SLTV_LOG_LEVEL'' = Some v \<longrightarrow> gc_Level (cfg_Log cfg) = v) \<and>
    (\<forall>v. env ''SLTV_LOG_FORMAT'' = Some v \<longrightarrow> gc_Format (cfg_Log cfg) = v) \<and>
    (path = [] \<and> (\<forall>n. env n = None) \<longrightarrow> cfg = Default) \<and>
    (path \<noteq> [] \<longrightarrow> readFile path \<noteq> NotExist)"
proof -
  from Load_Inr [OF assms] obtain cfg0 where v: "Validate cfg = None" and c: "cfg = applyEnv env cfg0"
    "path = [] \<longrightarrow> cfg0 = Default" by blast
  have "path \<noteq> [] \<longrightarrow> readFile path \<noteq> NotExist" using assms by (auto simp: Load_def)
  moreover have "path = [] \<and> (\<forall>n. env n = None) \<longrightarrow> cfg = Default" using c by (simp add: applyEnv_unset)
  ultimately show ?thesis using v by (intro conjI) (simp_all add: c(1) applyEnv_fields)
qed

definition one_var :: "string \<Rightarrow> string option" where
  "one_var n = (if n = ''SLTV_DEFAULT_VG'' then Some ''vg9'' else None)"

theorem load_valid_and_overridden_witness:
  "\<exists>cfg. Load (\<lambda>_. NotExist) (\<lambda>_. Inr) one_var [] = Inr cfg \<and> sc_DefaultVG (cfg_Storage cfg) = ''vg9''"
proof -
  have "Validate (applyEnv one_var Default) = None"
    by (simp add: Validate_def Default_def applyEnv_def one_var_def env_or_def second_def units)
  then have "Load (\<lambda>_. NotExist) (\<lambda>_. Inr) one_var [] = Inr (applyEnv one_var Default)" by (simp add: Load_def)
  from load_valid_and_overridden [OF this] this show ?thesis by (simp add: one_var_def)
qed

text \<open>
  \<open>ParseSize\<close> is exact on whole numbers up to \<open>2^53\<close> with any of the documented units, as long
  as the result fits in 64 bits: the number times the unit.
\<close>

theorem parse_size_exact:
  assumes "u \<in> set size_units" "size_mult u = Some k" "n \<le> 2 ^ 53" "n * unat k < 2 ^ 64"
  shows "ParseSize oob (dec n @ u) = Inr (of_nat n * k)"
  using assms by (rule ParseSize_exact)

theorem parse_size_exact_witness:
  "ParseSize (\<lambda>_. 0) ''10GiB'' = Inr 10737418240"
proof -
  have "dec 10 @ ''GiB'' = ''10GiB''" by code_simp
  moreover have "''GiB'' \<in> set size_units" by (simp add: size_units_def)
  moreover have "size_mult ''GiB'' = Some GiB" by code_simp
  moreover have "10 * unat GiB < 2 ^ 64" by (simp add: units)
  ultimately show ?thesis using parse_size_exact [of "''GiB''" GiB 10 "\<lambda>_. 0"] by (simp add: units)
qed

end
