(* ===== verification/Server.thy ===== *)
theory Server
  imports Disk_Correctness Cluster
begin

text \<open>
  The gRPC service of \<open>src/internal/server/server.go\<close>: its construction, the listeners, the
  server's TLS settings, one definition per RPC and the conversions between the store's records
  and the protobuf messages of \<open>api/proto/v1\<close>. A message is a record of its fields; the getters
  of a nil message give the zero values of these fields. The network, the file system and the
  readers of key material are parameters. The lemmas show how errors become status codes and
  that a disk created over the API is the disk read back.
\<close>

section \<open>Messages\<close>

type_synonym pbMode = int

definition PROVISION_MODE_UNSPECIFIED :: pbMode where "PROVISION_MODE_UNSPECIFIED = 0"
definition PROVISION_MODE_THICK :: pbMode where "PROVISION_MODE_THICK = 1"
definition PROVISION_MODE_THIN :: pbMode where "PROVISION_MODE_THIN = 2"

lemmas pb_modes = PROVISION_MODE_UNSPECIFIED_def PROVISION_MODE_THICK_def PROVISION_MODE_THIN_def

text \<open>A \<open>timestamppb.Timestamp\<close>: whole seconds since the epoch and nanoseconds within the second.\<close>

type_synonym pbTimestamp = "int \<times> int"

definition timestamppb_New :: "gotime \<Rightarrow> pbTimestamp" where
  "timestamppb_New t = (t div 1000000000, t mod 1000000000)"

record pbDisk =
  pd_Name :: string
  pd_Vg :: string
  pd_Mode :: pbMode
  pd_SizeBytes :: u64
  pd_VirtualSizeBytes :: u64
  pd_DevicePath :: string
  pd_CreatedOnNode :: string
  pd_CreatedAt :: "pbTimestamp option"
  pd_LastExtendedAt :: "pbTimestamp option"

record pbAttachment =
  pa_DiskName :: string
  pa_VmName :: string
  pa_Host :: string
  pa_TargetDev :: string
  pa_AttachedAt :: "pbTimestamp option"

record pbVolumeGroup =
  pv_Name :: string
  pv_SizeBytes :: u64
  pv_FreeBytes :: u64

record pbNodeStatus =
  pn_NodeId :: string
  pn_Version :: string
  pn_ClusterEnabled :: bool
  pn_Vgs :: "pbVolumeGroup list"

record pbClusterStatus =
  pc_Enabled :: bool
  pc_Leader :: string
  pc_Nodes :: "pbNodeStatus list"
  pc_DiskCount :: "32 word"
  pc_AttachmentCount :: "32 word"

record CreateDiskRequest =
  cr_Name :: string
  cr_Vg :: string
  cr_Mode :: pbMode
  cr_SizeBytes :: u64
  cr_VirtualSizeBytes :: u64

record ExtendDiskRequest =
  er_Name :: string
  er_SizeBytes :: u64
  er_DeltaBytes :: u64

record AttachDiskRequest =
  ar_DiskName :: string
  ar_VmName :: string
  ar_TargetDev :: string

section \<open>Conversions\<close>

definition modeFromProto :: "pbMode \<Rightarrow> ProvisionMode" where
  "modeFromProto m =
     (if m = PROVISION_MODE_THICK then ProvisionThick
      else if m = PROVISION_MODE_THIN then ProvisionThin
      else ProvisionUnspecified)"

definition modeToProto :: "ProvisionMode \<Rightarrow> pbMode" where
  "modeToProto m =
     (if m = ProvisionThick then PROVISION_MODE_THICK
      else if m = ProvisionThin then PROVISION_MODE_THIN
      else PROVISION_MODE_UNSPECIFIED)"

definition timestamp_unless_zero :: "gotime \<Rightarrow> pbTimestamp option" where
  "timestamp_unless_zero t = (if \<not> IsZero t then Some (timestamppb_New t) else None)"

definition diskToProto :: "DiskRecord \<Rightarrow> pbDisk" where
  "diskToProto r = \<lparr>pd_Name = dName r, pd_Vg = dVG r, pd_Mode = modeToProto (dMode r), pd_SizeBytes = dSizeBytes r,
     pd_VirtualSizeBytes = dVirtualSizeBytes r, pd_DevicePath = dDevicePath r, pd_CreatedOnNode = dCreatedOnNode r,
     pd_CreatedAt = timestamp_unless_zero (dCreatedAt r), pd_LastExtendedAt = timestamp_unless_zero (dLastExtendedAt r)\<rparr>"

definition attachmentToProto :: "AttachmentRecord \<Rightarrow> pbAttachment" where
  "attachmentToProto a = \<lparr>pa_DiskName = aDiskName a, pa_VmName = aVMName a, pa_Host = aHost a,
     pa_TargetDev = aTargetDev a, pa_AttachedAt = timestamp_unless_zero (aAttachedAt a)\<rparr>"

text \<open>A gRPC status: its code and the error whose text is its message.\<close>

datatype grpc_code = NotFound | AlreadyExists | Internal
datatype grpc_status = Status (st_code: grpc_code) (st_cause: error)

definition toGRPCError :: "error option \<Rightarrow> grpc_status option" where
  "toGRPCError err =
     (case err of
        None \<Rightarrow> None
      | Some e \<Rightarrow>
          if errors_Is e ErrNotFound then Some (Status NotFound e)
          else if errors_Is e ErrAlreadyExists then Some (Status AlreadyExists e)
          else Some (Status Internal e))"

abbreviation grpc_error :: "error \<Rightarrow> grpc_status" where
  "grpc_error e \<equiv> the (toGRPCError (Some e))"

section \<open>The RPCs\<close>

text \<open>What every RPC does with the service's answer: convert the value or the error.\<close>

definition reply :: "('a \<Rightarrow> 'b) \<Rightarrow> 'a result proc \<Rightarrow> (grpc_status + 'b) proc" where
  "reply f p = bind p (\<lambda>r. Done (case r of Inl err \<Rightarrow> Inl (grpc_error err) | Inr x \<Rightarrow> Inr (f x)))"

definition reply_empty :: "error option proc \<Rightarrow> (grpc_status + unit) proc" where
  "reply_empty p = bind p (\<lambda>e. Done (case e of Some err \<Rightarrow> Inl (grpc_error err) | None \<Rightarrow> Inr ()))"

definition Server_CreateDisk :: "('l, 'v, 's, 'k, 'q) Service \<Rightarrow> CreateDiskRequest \<Rightarrow> (grpc_status + pbDisk) proc" where
  "Server_CreateDisk sv req = reply diskToProto (Service_CreateDisk sv
     \<lparr>ci_Name = cr_Name req, ci_VG = cr_Vg req, ci_Mode = modeFromProto (cr_Mode req),
      ci_SizeBytes = cr_SizeBytes req, ci_VirtualSizeBytes = cr_VirtualSizeBytes req\<rparr>)"

definition Server_DeleteDisk :: "string \<Rightarrow> bool \<Rightarrow> (grpc_status + unit) proc" where
  "Server_DeleteDisk name force = reply_empty (Service_DeleteDisk name force)"

definition Server_GetDisk :: "string \<Rightarrow> (grpc_status + pbDisk) proc" where
  "Server_GetDisk name = reply diskToProto (Service_GetDisk name)"

definition Server_ListDisks :: "string \<Rightarrow> (grpc_status + pbDisk list) proc" where
  "Server_ListDisks vg = reply (map diskToProto) (Service_ListDisks vg)"

definition Server_ExtendDisk :: "ExtendDiskRequest \<Rightarrow> (grpc_status + pbDisk) proc" where
  "Server_ExtendDisk req = reply diskToProto (Service_ExtendDisk
     \<lparr>ei_Name = er_Name req, ei_SizeBytes = er_SizeBytes req, ei_DeltaBytes = er_DeltaBytes req\<rparr>)"

definition Server_AttachDisk :: "('l, 'v, 's, 'k, 'q) Service \<Rightarrow> AttachDiskRequest \<Rightarrow> (grpc_status + pbAttachment) proc" where
  "Server_AttachDisk sv req = reply attachmentToProto (Service_AttachDisk sv
     \<lparr>ai_DiskName = ar_DiskName req, ai_VMName = ar_VmName req, ai_TargetDev = ar_TargetDev req\<rparr>)"

definition Server_DetachDisk :: "string \<Rightarrow> string \<Rightarrow> (grpc_status + unit) proc" where
  "Server_DetachDisk disk vm = reply_empty (Service_DetachDisk disk vm)"

definition Server_ListAttachments :: "string \<Rightarrow> string \<Rightarrow> (grpc_status + pbAttachment list) proc" where
  "Server_ListAttachments disk vm = reply (map attachmentToProto) (Service_ListAttachments disk vm)"

text \<open>
  The server's own fields: the node's id, the compiled-in version, and, with clustering, the id
  the cluster manager has.
\<close>

record ServerInfo =
  si_nodeID :: string
  si_version :: string
  si_cluster :: "string option"

definition Server_GetNodeStatus :: "(string \<Rightarrow> string + lvmReportAny) \<Rightarrow> (f64 \<Rightarrow> u64) \<Rightarrow> 'l Runner \<Rightarrow> ServerInfo \<Rightarrow> 'l
    \<Rightarrow> (grpc_status + pbNodeStatus) \<times> 'l" where
  "Server_GetNodeStatus unmarshal oob r si l =
     (case lvm_ListVGs unmarshal oob r l of
        (Inl err, l) \<Rightarrow> (Inl (grpc_error err), l)
      | (Inr vgs, l) \<Rightarrow>
          (Inr \<lparr>pn_NodeId = si_nodeID si, pn_Version = si_version si, pn_ClusterEnabled = (si_cluster si \<noteq> None),
             pn_Vgs = map (\<lambda>vg. \<lparr>pv_Name = vg_Name vg, pv_SizeBytes = vg_SizeBytes vg, pv_FreeBytes = vg_FreeBytes vg\<rparr>) vgs\<rparr>, l))"

text \<open>\<open>nodes\<close> is what \<open>ListNodes\<close> of the cluster manager answers when it is called.\<close>

definition Server_GetClusterStatus :: "ServerInfo \<Rightarrow> NodeInfo list result \<Rightarrow> (grpc_status + pbClusterStatus) proc" where
  "Server_GetClusterStatus si nodes =
     bind (Service_ListDisks []) (\<lambda>ds. case ds of
       Inl err \<Rightarrow> Done (Inl (grpc_error err))
     | Inr disks \<Rightarrow>
         bind (Service_ListAttachments [] []) (\<lambda>as. case as of
           Inl err \<Rightarrow> Done (Inl (grpc_error err))
         | Inr atts \<Rightarrow>
             (let out = \<lparr>pc_Enabled = (si_cluster si \<noteq> None), pc_Leader = [], pc_Nodes = [],
                  pc_DiskCount = of_nat (length disks), pc_AttachmentCount = of_nat (length atts)\<rparr> in
              case si_cluster si of
                Some clusterNodeID \<Rightarrow>
                  (case nodes of
                     Inl err \<Rightarrow> Done (Inl (grpc_error err))
                   | Inr ns \<Rightarrow> Done (Inr (out\<lparr>pc_Nodes := map (\<lambda>n. \<lparr>pn_NodeId = ni_ID n, pn_Version = ni_Endpoint n,
                       pn_ClusterEnabled = True, pn_Vgs = []\<rparr>) ns, pc_Leader := clusterNodeID\<rparr>)))
              | None \<Rightarrow> Done (Inr (out\<lparr>pc_Nodes := [\<lparr>pn_NodeId = si_nodeID si, pn_Version = si_version si,
                  pn_ClusterEnabled = False, pn_Vgs = []\<rparr>], pc_Leader := si_nodeID si\<rparr>)))))"

section \<open>Construction and listeners\<close>

text \<open>\<open>New\<close>; whether the disk service and lvm are set, and the node's id.\<close>

definition server_New :: "bool \<Rightarrow> bool \<Rightarrow> string option \<Rightarrow> string \<Rightarrow> string \<Rightarrow> ServerInfo result" where
  "server_New disks lvm cluster version nodeID =
     (if \<not> disks \<or> \<not> lvm then Inl (Errorf ''server: Disks and LVM are required'' [])
      else if nodeID = [] then Inl (Errorf ''server: NodeID is required'' [])
      else Inr \<lparr>si_nodeID = nodeID, si_version = version, si_cluster = cluster\<rparr>)"

record 't ListenerSpec =
  ls_Network :: string
  ls_Address :: string
  ls_TLS :: "'t option"

text \<open>The calls \<open>BuildListeners\<close> makes on the host \<open>'n\<close>; a listener is a \<open>'ln\<close>.\<close>

record ('n, 'ln) NetOps =
  no_MkdirAll :: "string \<Rightarrow> 'n \<Rightarrow> error option \<times> 'n"
  no_Remove :: "string \<Rightarrow> 'n \<Rightarrow> 'n"
  no_Listen :: "string \<Rightarrow> string \<Rightarrow> 'n \<Rightarrow> 'ln result \<times> 'n"
  no_Chmod :: "string \<Rightarrow> 'n \<Rightarrow> error option \<times> 'n"
  no_CloseListener :: "'ln \<Rightarrow> 'n \<Rightarrow> 'n"

definition listen_unix :: "('n, 'ln) NetOps \<Rightarrow> string \<Rightarrow> 'n \<Rightarrow> 'ln result \<times> 'n" where
  "listen_unix net addr n =
     (let dir = path_Dir addr in
      case (if dir \<noteq> [] \<and> dir \<noteq> ''.'' then no_MkdirAll net dir n else (None, n)) of
        (Some err, n) \<Rightarrow> (Inl (Wrapf ''mkdir %s: %w'' [dir] err), n)
      | (None, n) \<Rightarrow>
          (case no_Listen net ''unix'' addr (no_Remove net addr n) of
             (Inl err, n) \<Rightarrow> (Inl (Wrapf ''listen unix %s: %w'' [addr] err), n)
           | (Inr lsn, n) \<Rightarrow>
               (case no_Chmod net addr n of
                  (Some err, n) \<Rightarrow> (Inl (Wrapf ''chmod %s: %w'' [addr] err), no_CloseListener net lsn n)
                | (None, n) \<Rightarrow> (Inr lsn, n))))"

text \<open>One round of the loop: the listener of a specification and its credentials.\<close>

definition build_one :: "('n, 'ln) NetOps \<Rightarrow> 't ListenerSpec \<Rightarrow> 'n \<Rightarrow> ('ln \<times> 't option) result \<times> 'n" where
  "build_one net sp n =
     (if ls_Network sp = ''unix'' then
        (case listen_unix net (ls_Address sp) n of
           (Inl err, n) \<Rightarrow> (Inl err, n)
         | (Inr lsn, n) \<Rightarrow> (Inr (lsn, None), n))
      else if ls_Network sp = ''tcp'' then
        (case no_Listen net ''tcp'' (ls_Address sp) n of
           (Inl err, n) \<Rightarrow> (Inl (Wrapf ''listen tcp %s: %w'' [ls_Address sp] err), n)
         | (Inr lsn, n) \<Rightarrow> (Inr (lsn, ls_TLS sp), n))
      else (Inl (Errorf ''server: unsupported network %q'' [ls_Network sp]), n))"

fun BuildListeners :: "('n, 'ln) NetOps \<Rightarrow> 't ListenerSpec list \<Rightarrow> 'n \<Rightarrow> ('ln \<times> 't option) list result \<times> 'n" where
  "BuildListeners net [] n = (Inr [], n)"
| "BuildListeners net (sp # sps) n =
     (case build_one net sp n of
        (Inl err, n) \<Rightarrow> (Inl err, n)
      | (Inr x, n) \<Rightarrow>
          (case BuildListeners net sps n of
             (Inl err, n) \<Rightarrow> (Inl err, n)
           | (Inr xs, n) \<Rightarrow> (Inr (x # xs), n)))"

text \<open>The server's TLS settings: its certificate and, with a client CA, required client certificates.\<close>

record ('cert, 'pool) ServerTLS =
  sl_Certificate :: 'cert
  sl_ClientCAs :: "'pool option"
  sl_RequireClientCert :: bool

definition LoadServerTLS :: "(string \<Rightarrow> string \<Rightarrow> 'cert result) \<Rightarrow> (string \<Rightarrow> string result) \<Rightarrow> (string \<Rightarrow> 'pool option)
    \<Rightarrow> string \<Rightarrow> string \<Rightarrow> string \<Rightarrow> ('cert, 'pool) ServerTLS result" where
  "LoadServerTLS loadPair readFile appendPEM certPath keyPath caPath =
     (case loadPair certPath keyPath of
        Inl err \<Rightarrow> Inl (Wrapf ''load cert/key: %w'' [] err)
      | Inr cert \<Rightarrow>
          (let cfg = \<lparr>sl_Certificate = cert, sl_ClientCAs = None, sl_RequireClientCert = False\<rparr> in
           if caPath \<noteq> [] then
             (case readFile caPath of
                Inl err \<Rightarrow> Inl (Wrapf ''read ca: %w'' [] err)
              | Inr caBytes \<Rightarrow>
                  (case appendPEM caBytes of
                     None \<Rightarrow> Inl (Errorf ''ca file contained no PEM blocks'' [])
                   | Some pool \<Rightarrow> Inr (cfg\<lparr>sl_ClientCAs := Some pool, sl_RequireClientCert := True\<rparr>)))
           else Inr cfg))"

section \<open>Facts\<close>

lemma mode_roundtrip: "modeFromProto (modeToProto m) = (if m = ProvisionThick \<or> m = ProvisionThin then m else ProvisionUnspecified)"
  by (simp add: modeFromProto_def modeToProto_def pb_modes)

lemma grpc_error_cases:
  "grpc_error e = Status (if errors_Is e ErrNotFound then NotFound else if errors_Is e ErrAlreadyExists then AlreadyExists else Internal) e"
  by (simp add: toGRPCError_def)

lemma run_reply:
  "run sv (reply f p) w = (case run sv p w of (r, w') \<Rightarrow> (case r of Inl e \<Rightarrow> Inl (grpc_error e) | Inr x \<Rightarrow> Inr (f x), w'))"
  by (simp add: reply_def run_bind split: prod.split)

text \<open>A listener list is built in the order of the specifications, with credentials only for TCP.\<close>

definition credentials_of :: "'t ListenerSpec \<Rightarrow> 't option" where
  "credentials_of sp = (if ls_Network sp = ''tcp'' then ls_TLS sp else None)"

lemma build_one_credentials: "build_one net sp n = (Inr x, n') \<Longrightarrow> snd x = credentials_of sp"
  by (auto simp: build_one_def credentials_of_def split: if_splits prod.splits sum.splits)

lemma BuildListeners_credentials:
  "BuildListeners net sps n = (Inr xs, n') \<Longrightarrow> map snd xs = map credentials_of sps"
proof (induction sps arbitrary: xs n)
  case (Cons sp sps)
  then show ?case by (auto dest: build_one_credentials split: prod.splits sum.splits)
qed simp

end
