(* ===== verification/Server_Properties.thy ===== *)
theory Server_Properties
  imports Server Sample_Service
begin

text \<open>What a client of the gRPC service sees.\<close>

section \<open>A disk over the API\<close>

lemma Server_GetDisk_exact:
  assumes "reliable_store (sv_Store sv) cat good ok" "good (w_store w)"
  shows "case cat_disks (cat (w_store w)) n of
      Some r \<Rightarrow> fst (run sv (Server_GetDisk n) w) = Inr (diskToProto r)
    | None \<Rightarrow> \<exists>e. fst (run sv (Server_GetDisk n) w) = Inl (Status NotFound e)"
proof (cases "cat_disks (cat (w_store w)) n")
  case None
  from reliable_store.get_disk_none [OF assms None] show ?thesis
    by (auto simp: None Server_GetDisk_def run_reply Service_GetDisk_def on_store_def toGRPCError_def)
next
  case (Some r)
  from reliable_store.get_disk_some [OF assms Some] show ?thesis
    by (auto simp: Some Server_GetDisk_def run_reply Service_GetDisk_def on_store_def)
qed

text \<open>What a successful \<open>CreateDisk\<close> request did to the catalog, and the message it answered with.\<close>

lemma Server_CreateDisk_outcome:
  assumes "store_contract (sv_Store sv) cat good ok" "good (w_store w)"
    and "run sv (Server_CreateDisk sv req) w = (Inr d, w')"
  obtains r inp' t where "d = diskToProto r" "good (w_store w')" "cat_disks (cat (w_store w)) (cr_Name req) = None"
    "cat (w_store w') = put_disk r (cat (w_store w))" "dName r = cr_Name req" "r = newDiskRecord sv inp' t"
    "normaliseCreate sv \<lparr>ci_Name = cr_Name req, ci_VG = cr_Vg req, ci_Mode = modeFromProto (cr_Mode req),
      ci_SizeBytes = cr_SizeBytes req, ci_VirtualSizeBytes = cr_VirtualSizeBytes req\<rparr> = Inr inp'"
proof -
  let ?inp = "\<lparr>ci_Name = cr_Name req, ci_VG = cr_Vg req, ci_Mode = modeFromProto (cr_Mode req),
      ci_SizeBytes = cr_SizeBytes req, ci_VirtualSizeBytes = cr_VirtualSizeBytes req\<rparr>"
  from assms(3) obtain r where r: "run sv (Service_CreateDisk sv ?inp) w = (Inr r, w')" "d = diskToProto r"
    by (auto simp: Server_CreateDisk_def run_reply split: prod.splits sum.splits)
  from store_contract.handler_outcome [OF assms(1) refl assms(2) r(1) CreateDisk_catalog]
  obtain inp' t where eff: "good (w_store w')" "cat_disks (cat (w_store w)) (dName r) = None"
    "cat (w_store w') = put_disk r (cat (w_store w))" "normaliseCreate sv ?inp = Inr inp'" "r = newDiskRecord sv inp' t" by auto
  moreover have "dName r = cr_Name req" using normaliseCreate_Inr(1) [OF eff(4)] eff(5) by (simp add: newDiskRecord_def)
  ultimately show thesis using that r(2) by metis
qed

text \<open>
  What the API created, it returns: after \<open>CreateDisk\<close> answered with a disk, \<open>GetDisk\<close> of its
  name answers with the same message; before, it answered with the status \<open>NotFound\<close>. The message
  carries the requested name and mode, and the requested size of a thick disk.
\<close>

theorem create_then_get_rpc:
  assumes "reliable_store (sv_Store sv) cat good ok" "good (w_store w)"
    and "run sv (Server_CreateDisk sv req) w = (Inr d, w')"
  shows "(\<exists>e. fst (run sv (Server_GetDisk (cr_Name req)) w) = Inl (Status NotFound e)) \<and>
    fst (run sv (Server_GetDisk (cr_Name req)) w') = Inr d \<and> pd_Name d = cr_Name req \<and>
    pd_Mode d = (if cr_Mode req = PROVISION_MODE_THIN then PROVISION_MODE_THIN else PROVISION_MODE_THICK) \<and>
    (cr_Mode req = PROVISION_MODE_THICK \<longrightarrow> pd_SizeBytes d = cr_SizeBytes req)"
proof -
  from Server_CreateDisk_outcome [OF reliable_store.axioms(1) [OF assms(1)] assms(2,3)]
  obtain r inp' t where r: "d = diskToProto r" and eff: "good (w_store w')" "cat_disks (cat (w_store w)) (cr_Name req) = None"
    "cat (w_store w') = put_disk r (cat (w_store w))" and name: "dName r = cr_Name req"
    and inp': "r = newDiskRecord sv inp' t" "normaliseCreate sv \<lparr>ci_Name = cr_Name req, ci_VG = cr_Vg req,
      ci_Mode = modeFromProto (cr_Mode req), ci_SizeBytes = cr_SizeBytes req, ci_VirtualSizeBytes = cr_VirtualSizeBytes req\<rparr> = Inr inp'" .
  note inp = normaliseCreate_Inr [OF inp'(2)]
  from eff(2) Server_GetDisk_exact [OF assms(1,2), of "cr_Name req"]
  have "\<exists>e. fst (run sv (Server_GetDisk (cr_Name req)) w) = Inl (Status NotFound e)" by simp
  moreover have "fst (run sv (Server_GetDisk (cr_Name req)) w') = Inr d"
    using Server_GetDisk_exact [OF assms(1) eff(1), of "cr_Name req"] name eff(3) r by simp
  moreover have "pd_Mode d = (if cr_Mode req = PROVISION_MODE_THIN then PROVISION_MODE_THIN else PROVISION_MODE_THICK)"
    using inp(6,7) r inp'(1)
    by (auto simp: diskToProto_def newDiskRecord_def modeToProto_def modeFromProto_def pb_modes split: if_splits)
  moreover have "cr_Mode req = PROVISION_MODE_THICK \<longrightarrow> pd_SizeBytes d = cr_SizeBytes req"
    using inp' r
    by (auto simp: diskToProto_def newDiskRecord_def normaliseCreate_def modeFromProto_def Let_def split: if_splits)
  ultimately show ?thesis using name r by (simp add: diskToProto_def)
qed

definition create_request :: CreateDiskRequest where
  "create_request = \<lparr>cr_Name = ''d1'', cr_Vg = [], cr_Mode = PROVISION_MODE_THICK, cr_SizeBytes = 8, cr_VirtualSizeBytes = 0\<rparr>"

theorem create_then_get_rpc_witness:
  "\<exists>d w'. run sample (Server_CreateDisk sample create_request) empty_world = (Inr d, w') \<and>
     fst (run sample (Server_GetDisk ''d1'') w') = Inr d \<and> pd_SizeBytes d = 8"
proof -
  have "Server_CreateDisk sample create_request = reply diskToProto (Service_CreateDisk sample thick_input)"
    by (simp add: Server_CreateDisk_def create_request_def thick_input_def modeFromProto_def)
  then have run: "run sample (Server_CreateDisk sample create_request) empty_world = (Inr (diskToProto d1_record), disk_world)"
    by (simp add: run_reply sample_create)
  from create_then_get_rpc [OF sample_reliable empty_world_good run] run show ?thesis
    by (simp add: create_request_def)
qed

section \<open>Status codes\<close>


section \<open>Status reports\<close>

lemma listing_counts:
  "lists_disks [] c ds \<Longrightarrow> card (ran (cat_disks c)) = length ds"
  "lists_atts [] [] c as \<Longrightarrow> card (ran (cat_atts c)) = length as"
proof -
  have d: "distinct xs" if "sorted_wrt (<) (map f xs)" for f :: "'a \<Rightarrow> 'b::linorder" and xs
    using that by (metis distinct_map strict_sorted_iff)
  show "card (ran (cat_disks c)) = length ds" if "lists_disks [] c ds"
    using that d [of dName ds] distinct_card [of ds] by (simp add: lists_disks_def)
  show "card (ran (cat_atts c)) = length as" if "lists_atts [] [] c as"
    using that d [of att_key as] distinct_card [of as] by (simp add: lists_atts_def)
qed

text \<open>
  \<open>GetClusterStatus\<close> of a node without clustering counts the disks and attachments of the
  catalog, modulo \<open>2^32\<close>, and names the node as the only node and the leader.
\<close>

theorem cluster_status_counts:
  assumes "reliable_store (sv_Store sv) cat good ok" "good (w_store w)"
  shows "\<exists>w' out. run sv (Server_GetClusterStatus \<lparr>si_nodeID = n, si_version = v, si_cluster = None\<rparr> nodes) w = (Inr out, w')
    \<and> unat (pc_DiskCount out) = card (ran (cat_disks (cat (w_store w)))) mod 2 ^ 32
    \<and> unat (pc_AttachmentCount out) = card (ran (cat_atts (cat (w_store w)))) mod 2 ^ 32
    \<and> pc_Leader out = n \<and> map pn_NodeId (pc_Nodes out) = [n] \<and> \<not> pc_Enabled out"
proof -
  let ?c = "cat (w_store w)"
  note contract = reliable_store.axioms(1) [OF assms(1)]
  obtain x s1 where l: "st_ListDisks (sv_Store sv) [] (w_store w) = (x, s1)" by fastforce
  with reliable_store.list_disks_rel [OF assms, of "[]"] obtain ds where ds: "x = Inr ds" by (cases x) auto
  from store_contract.list_disks [OF contract assms(2) l] ds have
    c1: "good s1" "cat s1 = ?c" "lists_disks [] ?c ds" by auto
  from reliable_store.list_atts_ok [OF assms(1) c1(1) store_contract.ok_Nil [OF contract], of "[]"] c1(2) obtain as s2 where
    c2: "st_ListAttachments (sv_Store sv) [] [] s1 = (Inr as, s2)" "lists_atts [] [] ?c as" by auto
  show ?thesis
    using l ds c2(1)
    by (simp add: Server_GetClusterStatus_def Service_ListDisks_def Service_ListAttachments_def run_bind on_store_def Let_def
        listing_counts(1) [OF c1(3)] listing_counts(2) [OF c2(2)] unat_of_nat take_bit_eq_mod)
qed

theorem cluster_status_counts_witness:
  "\<exists>w' out. run sample (Server_GetClusterStatus \<lparr>si_nodeID = ''n1'', si_version = ''dev'', si_cluster = None\<rparr> (Inr [])) disk_world
     = (Inr out, w') \<and> unat (pc_DiskCount out) = 1"
  using cluster_status_counts [OF sample_reliable sample_worlds_good(1), of "''n1''" "''dev''" "Inr []"]
  by (auto simp: disk_world_store)

end
