(* ===== verification/Cli.thy ===== *)
theory Cli
  imports Server Daemon_Config
begin

text \<open>
  The command-line client: \<open>src/internal/cli\<close> and the client library
  \<open>src/pkg/sltvclient/client.go\<close>. Each subcommand is a function of its flags and arguments over
  a connection to the service and a standard output whose writes may fail; it returns its error,
  if any. Cobra's reading of the command line, \<open>encoding/json\<close> on the generated messages,
  \<open>net/url\<close> and the gRPC connection are parameters; the tables of \<open>text/tabwriter\<close> are modelled
  for cells that contain no tab or line break.
\<close>

section \<open>Contexts\<close>

text \<open>A context is its deadline, on the clock of \<open>time.Now\<close>; the background context has none.\<close>

type_synonym ctx = "int option"

definition context_WithTimeout :: "int \<Rightarrow> ctx \<Rightarrow> int \<Rightarrow> ctx" where
  "context_WithTimeout now parent d = Some (case parent of None \<Rightarrow> now + d | Some t \<Rightarrow> min t (now + d))"

text \<open>\<open>withTimeout\<close>; a nil context is \<open>None\<close>.\<close>

definition withTimeout :: "int \<Rightarrow> ctx option \<Rightarrow> int \<Rightarrow> ctx" where
  "withTimeout now ctx d =
     (let ctx = (case ctx of None \<Rightarrow> None | Some ctx \<Rightarrow> ctx) in
      if d \<le> 0 then ctx else context_WithTimeout now ctx d)"

section \<open>Connecting\<close>

record rootFlags =
  rf_Addr :: string
  rf_TLSCert :: string
  rf_TLSKey :: string
  rf_TLSCA :: string
  rf_TLSServer :: string
  rf_JSON :: bool
  rf_Timeout :: int

record ('cert, 'pool) ClientTLS =
  ctl_ServerName :: string
  ctl_Certificate :: "'cert option"
  ctl_RootCAs :: "'pool option"

definition LoadClientTLS :: "(string \<Rightarrow> string \<Rightarrow> 'cert result) \<Rightarrow> (string \<Rightarrow> string result) \<Rightarrow> (string \<Rightarrow> 'pool option)
    \<Rightarrow> string \<Rightarrow> string \<Rightarrow> string \<Rightarrow> string \<Rightarrow> ('cert, 'pool) ClientTLS result" where
  "LoadClientTLS loadPair readFile appendPEM certPath keyPath caPath serverName =
     (let cfg = \<lparr>ctl_ServerName = serverName, ctl_Certificate = None, ctl_RootCAs = None\<rparr> in
      case (if certPath \<noteq> [] \<or> keyPath \<noteq> []
            then (case loadPair certPath keyPath of
                    Inl err \<Rightarrow> Inl (Wrapf ''load cert/key: %w'' [] err)
                  | Inr cert \<Rightarrow> Inr (cfg\<lparr>ctl_Certificate := Some cert\<rparr>))
            else Inr cfg) of
        Inl err \<Rightarrow> Inl err
      | Inr cfg \<Rightarrow>
          if caPath \<noteq> [] then
            (case readFile caPath of
               Inl err \<Rightarrow> Inl (Wrapf ''read ca: %w'' [] err)
             | Inr caBytes \<Rightarrow>
                 (case appendPEM caBytes of
                    None \<Rightarrow> Inl (Errorf ''ca file contained no PEM blocks'' [])
                  | Some pool \<Rightarrow> Inr (cfg\<lparr>ctl_RootCAs := Some pool\<rparr>)))
          else Inr cfg)"

text \<open>
  \<open>Options\<close>, and what \<open>Dial\<close> hands to \<open>grpc.NewClient\<close>: the target, the socket its dialer opens
  instead (for \<open>unix://\<close>), and the transport's TLS settings, none meaning no encryption. The
  context with the dial timeout is set up and not used.
\<close>

record 't DialOptions =
  dl_Address :: string
  dl_TLS :: "'t option"
  dl_DialTimeout :: int

record 't DialPlan =
  dp_target :: string
  dp_socket :: "string option"
  dp_TLS :: "'t option"

definition dial_plan :: "(string \<Rightarrow> string result) \<Rightarrow> 't DialOptions \<Rightarrow> 't DialPlan result" where
  "dial_plan urlPath opts =
     (if dl_Address opts = [] then Inl (Errorf ''sltvclient: address is required'' [])
      else if HasPrefix (dl_Address opts) ''unix://'' then
        (case urlPath (dl_Address opts) of
           Inl err \<Rightarrow> Inl (Wrapf ''parse unix address: %w'' [] err)
         | Inr p \<Rightarrow> Inr \<lparr>dp_target = ''unix'',
             dp_socket = Some (if p = [] then TrimPrefix (dl_Address opts) ''unix://'' else p), dp_TLS = None\<rparr>)
      else Inr \<lparr>dp_target = dl_Address opts, dp_socket = None, dp_TLS = dl_TLS opts\<rparr>)"

text \<open>\<open>Client\<close>: the connection with its stubs; the field is nil in a client that was not dialled.\<close>

record 'h SltvClient =
  cl_conn :: "'h option"

definition Dial :: "(string \<Rightarrow> string result) \<Rightarrow> ('t DialPlan \<Rightarrow> 'c \<Rightarrow> 'h result \<times> 'c) \<Rightarrow> int \<Rightarrow> ctx \<Rightarrow> 't DialOptions \<Rightarrow> 'c
    \<Rightarrow> 'h SltvClient result \<times> 'c" where
  "Dial urlPath newClient now ctx opts c =
     (case dial_plan urlPath opts of
        Inl err \<Rightarrow> (Inl err, c)
      | Inr plan \<Rightarrow>
          (let _ = (if 0 < dl_DialTimeout opts then context_WithTimeout now ctx (dl_DialTimeout opts) else ctx) in
           case newClient plan c of
             (Inl err, c) \<Rightarrow> (Inl (Wrapf ''dial %s: %w'' [dl_Address opts] err), c)
           | (Inr conn, c) \<Rightarrow> (Inr \<lparr>cl_conn = Some conn\<rparr>, c)))"

text \<open>\<open>Close\<close>, also of a nil client.\<close>

definition Client_Close :: "('h \<Rightarrow> 'c \<Rightarrow> error option \<times> 'c) \<Rightarrow> 'h SltvClient option \<Rightarrow> 'c \<Rightarrow> error option \<times> 'c" where
  "Client_Close closeConn cl c =
     (case cl of
        None \<Rightarrow> (None, c)
      | Some cl \<Rightarrow> (case cl_conn cl of None \<Rightarrow> (None, c) | Some conn \<Rightarrow> closeConn conn c))"

text \<open>
  What a command runs on: the clock, opening and closing connections, the RPC stubs, and the
  standard output.
\<close>

record ('t, 'h, 'c) Conn =
  rc_now :: "'c \<Rightarrow> int"
  rc_urlPath :: "string \<Rightarrow> string result"
  rc_LoadTLS :: "string \<Rightarrow> string \<Rightarrow> string \<Rightarrow> string \<Rightarrow> 't result"
  rc_NewClient :: "'t DialPlan \<Rightarrow> 'c \<Rightarrow> 'h result \<times> 'c"
  rc_CloseConn :: "'h \<Rightarrow> 'c \<Rightarrow> error option \<times> 'c"
  rc_CreateDisk :: "'h SltvClient \<Rightarrow> ctx \<Rightarrow> CreateDiskRequest \<Rightarrow> 'c \<Rightarrow> (grpc_status + pbDisk) \<times> 'c"
  rc_DeleteDisk :: "'h SltvClient \<Rightarrow> ctx \<Rightarrow> string \<Rightarrow> bool \<Rightarrow> 'c \<Rightarrow> (grpc_status + unit) \<times> 'c"
  rc_GetDisk :: "'h SltvClient \<Rightarrow> ctx \<Rightarrow> string \<Rightarrow> 'c \<Rightarrow> (grpc_status + pbDisk) \<times> 'c"
  rc_ListDisks :: "'h SltvClient \<Rightarrow> ctx \<Rightarrow> string \<Rightarrow> 'c \<Rightarrow> (grpc_status + pbDisk list) \<times> 'c"
  rc_ExtendDisk :: "'h SltvClient \<Rightarrow> ctx \<Rightarrow> ExtendDiskRequest \<Rightarrow> 'c \<Rightarrow> (grpc_status + pbDisk) \<times> 'c"
  rc_AttachDisk :: "'h SltvClient \<Rightarrow> ctx \<Rightarrow> AttachDiskRequest \<Rightarrow> 'c \<Rightarrow> (grpc_status + pbAttachment) \<times> 'c"
  rc_DetachDisk :: "'h SltvClient \<Rightarrow> ctx \<Rightarrow> string \<Rightarrow> string \<Rightarrow> 'c \<Rightarrow> (grpc_status + unit) \<times> 'c"
  rc_ListAttachments :: "'h SltvClient \<Rightarrow> ctx \<Rightarrow> string \<Rightarrow> string \<Rightarrow> 'c \<Rightarrow> (grpc_status + pbAttachment list) \<times> 'c"
  rc_GetNodeStatus :: "'h SltvClient \<Rightarrow> ctx \<Rightarrow> 'c \<Rightarrow> (grpc_status + pbNodeStatus) \<times> 'c"
  rc_GetClusterStatus :: "'h SltvClient \<Rightarrow> ctx \<Rightarrow> 'c \<Rightarrow> (grpc_status + pbClusterStatus) \<times> 'c"
  rc_Write :: "string \<Rightarrow> 'c \<Rightarrow> error option \<times> 'c"

definition dial :: "('t, 'h, 'c) Conn \<Rightarrow> ctx \<Rightarrow> rootFlags \<Rightarrow> 'c \<Rightarrow> 'h SltvClient result \<times> 'c" where
  "dial cn ctx rf c =
     (let opts = \<lparr>dl_Address = rf_Addr rf, dl_TLS = None, dl_DialTimeout = rf_Timeout rf\<rparr> in
      case (if \<not> HasPrefix (rf_Addr rf) ''unix://'' \<and> (rf_TLSCert rf \<noteq> [] \<or> rf_TLSCA rf \<noteq> [])
            then (case rc_LoadTLS cn (rf_TLSCert rf) (rf_TLSKey rf) (rf_TLSCA rf) (rf_TLSServer rf) of
                    Inl err \<Rightarrow> Inl err
                  | Inr tls \<Rightarrow> Inr (opts\<lparr>dl_TLS := Some tls\<rparr>))
            else Inr opts) of
        Inl err \<Rightarrow> (Inl err, c)
      | Inr opts \<Rightarrow> Dial (rc_urlPath cn) (rc_NewClient cn) (rc_now cn c) ctx opts c)"

section \<open>Printing\<close>

definition modeString :: "pbMode \<Rightarrow> string" where
  "modeString m =
     (if m = PROVISION_MODE_THICK then ''thick''
      else if m = PROVISION_MODE_THIN then ''thin''
      else ''unknown'')"

text \<open>The verb \<open>%.1f\<close> of a non-negative float: the exact value, rounded half to even at the first decimal.\<close>

definition fmt_1f :: "f64 \<Rightarrow> string" where
  "fmt_1f x = (let t = nat (round_even (x * 10)) in dec (t div 10) @ ''.'' @ dec (t mod 10))"

definition humanSize :: "u64 \<Rightarrow> string" where
  "humanSize n =
     (let k = 1024 :: u64; m = k * 1024; g = m * 1024; t = g * 1024 in
      if t \<le> n then fmt_1f (f64_div (f64_of_u64 n) (f64_of_u64 t)) @ ''T''
      else if g \<le> n then fmt_1f (f64_div (f64_of_u64 n) (f64_of_u64 g)) @ ''G''
      else if m \<le> n then fmt_1f (f64_div (f64_of_u64 n) (f64_of_u64 m)) @ ''M''
      else if k \<le> n then fmt_1f (f64_div (f64_of_u64 n) (f64_of_u64 k)) @ ''K''
      else dec (unat n) @ ''B'')"

text \<open>\<open>Format(time.RFC3339)\<close> of a UTC time, from the proleptic Gregorian calendar.\<close>

definition pad :: "nat \<Rightarrow> int \<Rightarrow> string" where
  "pad width n = (let s = dec (nat \<bar>n\<bar>) in (if n < 0 then ''-'' else []) @ replicate (width - length s) (CHR ''0'') @ s)"

definition civil_date :: "int \<Rightarrow> int \<times> int \<times> int" where
  "civil_date days =
     (let z = days + 719468; era = z div 146097; doe = z mod 146097;
          yoe = (doe - doe div 1460 + doe div 36524 - doe div 146096) div 365;
          doy = doe - (365 * yoe + yoe div 4 - yoe div 100);
          mp = (5 * doy + 2) div 153;
          d = doy - (153 * mp + 2) div 5 + 1;
          m = (if mp < 10 then mp + 3 else mp - 9)
      in (yoe + era * 400 + (if m \<le> 2 then 1 else 0), m, d))"

definition rfc3339 :: "pbTimestamp \<Rightarrow> string" where
  "rfc3339 ts =
     (let secs = fst ts; day = secs div 86400; r = secs mod 86400 in
      case civil_date day of (y, m, d) \<Rightarrow>
        pad 4 y @ ''-'' @ pad 2 m @ ''-'' @ pad 2 d @ ''T'' @ pad 2 (r div 3600) @ '':'' @ pad 2 (r div 60 mod 60)
          @ '':'' @ pad 2 (r mod 60) @ ''Z'')"

definition line :: "string \<Rightarrow> string" where
  "line s = s @ newline"

text \<open>A writer: each call of \<open>Write\<close> may fail; the world it writes to comes back either way.\<close>

type_synonym 'c writer = "string \<Rightarrow> 'c \<Rightarrow> error option \<times> 'c"

text \<open>\<open>errWriter\<close> and its \<open>printf\<close>: the first error is kept, and nothing is written after it.\<close>

record 'c errWriter =
  ew_w :: 'c
  ew_err :: "error option"

definition ew_printf :: "'c writer \<Rightarrow> string \<Rightarrow> 'c errWriter \<Rightarrow> 'c errWriter" where
  "ew_printf write text ew =
     (if ew_err ew = None then (case write text (ew_w ew) of (e, w) \<Rightarrow> \<lparr>ew_w = w, ew_err = e\<rparr>) else ew)"

definition ew_time :: "'c writer \<Rightarrow> string \<Rightarrow> pbTimestamp option \<Rightarrow> 'c errWriter \<Rightarrow> 'c errWriter" where
  "ew_time write label t ew = (case t of None \<Rightarrow> ew | Some ts \<Rightarrow> ew_printf write (line (label @ rfc3339 ts)) ew)"

text \<open>\<open>printJSON\<close>: \<open>encodeJSON\<close> is \<open>encoding/json\<close> with an indent of two blanks; its text is written at once.\<close>

definition printJSON :: "'c writer \<Rightarrow> ('a \<Rightarrow> string result) \<Rightarrow> 'a \<Rightarrow> 'c \<Rightarrow> error option \<times> 'c" where
  "printJSON write encodeJSON v c = (case encodeJSON v of Inl err \<Rightarrow> (Some err, c) | Inr text \<Rightarrow> write text c)"

definition printDisk :: "'c writer \<Rightarrow> (pbDisk \<Rightarrow> string result) \<Rightarrow> pbDisk \<Rightarrow> bool \<Rightarrow> 'c \<Rightarrow> error option \<times> 'c" where
  "printDisk write encodeJSON d asJSON c =
     (if asJSON then printJSON write encodeJSON d c
      else
        (let ew = \<lparr>ew_w = c, ew_err = None\<rparr>;
             ew = ew_printf write (line (''Name:    '' @ pd_Name d)) ew;
             ew = ew_printf write (line (''VG:      '' @ pd_Vg d)) ew;
             ew = ew_printf write (line (''Mode:    '' @ modeString (pd_Mode d))) ew;
             ew = ew_printf write (line (''Size:    '' @ humanSize (pd_SizeBytes d) @ '' ('' @ dec (unat (pd_SizeBytes d)) @ '' bytes)'')) ew;
             ew = ew_printf write (line (''Virtual: '' @ humanSize (pd_VirtualSizeBytes d) @ '' ('' @ dec (unat (pd_VirtualSizeBytes d)) @ '' bytes)'')) ew;
             ew = ew_printf write (line (''Device:  '' @ pd_DevicePath d)) ew;
             ew = ew_printf write (line (''Node:    '' @ pd_CreatedOnNode d)) ew;
             ew = ew_time write ''Created: '' (pd_CreatedAt d) ew;
             ew = ew_time write ''Extend:  '' (pd_LastExtendedAt d) ew
         in (ew_err ew, ew_w ew)))"

definition printAttachment :: "'c writer \<Rightarrow> (pbAttachment \<Rightarrow> string result) \<Rightarrow> pbAttachment \<Rightarrow> bool \<Rightarrow> 'c \<Rightarrow> error option \<times> 'c" where
  "printAttachment write encodeJSON a asJSON c =
     (if asJSON then printJSON write encodeJSON a c
      else
        (let ew = \<lparr>ew_w = c, ew_err = None\<rparr>;
             ew = ew_printf write (line (''Disk:   '' @ pa_DiskName a)) ew;
             ew = ew_printf write (line (''VM:     '' @ pa_VmName a)) ew;
             ew = ew_printf write (line (''Host:   '' @ pa_Host a)) ew;
             ew = ew_printf write (line (''Target: '' @ pa_TargetDev a)) ew;
             ew = ew_time write ''When:   '' (pa_AttachedAt a) ew
         in (ew_err ew, ew_w ew)))"

text \<open>
  A table of \<open>tabwriter\<close> with minimal width 0 and padding 2: every column but the last is as wide
  as its longest cell plus two blanks, counted in runes.
\<close>

definition rune_count :: "string \<Rightarrow> nat" where
  "rune_count s = length (filter (\<lambda>c. (of_char c :: nat) div 64 \<noteq> 2) s)"

definition column_widths :: "string list list \<Rightarrow> nat list" where
  "column_widths rows = map (\<lambda>i. Max (set (map (\<lambda>r. rune_count (r ! i)) rows)) + 2) [0..<length (hd rows) - 1]"

text \<open>
  The calls of \<open>Write\<close> that \<open>Flush\<close> makes: a cell that is not empty, its padding in runs of at
  most eight blanks, the line break of each line, and what follows the last line break, which is
  nothing. The first call that fails ends it.
\<close>

fun blanks :: "nat \<Rightarrow> string list" where
  "blanks n = (if 8 < n then replicate 8 (CHR '' '') # blanks (n - 8) else [replicate n (CHR '' '')])"

declare blanks.simps [simp del]

definition table_row :: "nat list \<Rightarrow> string list \<Rightarrow> string list" where
  "table_row ws r =
     concat (map (\<lambda>(w, s). (if s = [] then [] else [s]) @ blanks (w - rune_count s)) (zip ws (butlast r)))
       @ (if last r = [] then [] else [last r]) @ [newline]"

definition table :: "string list list \<Rightarrow> string list" where
  "table rows = concat (map (table_row (column_widths rows)) rows) @ [[]]"

fun write_all :: "'c writer \<Rightarrow> string list \<Rightarrow> 'c \<Rightarrow> error option \<times> 'c" where
  "write_all write [] c = (None, c)"
| "write_all write (s # ss) c = (case write s c of (Some err, c) \<Rightarrow> (Some err, c) | (None, c) \<Rightarrow> write_all write ss c)"

section \<open>The commands\<close>

datatype cli_error = Local error | Rpc grpc_status

text \<open>Every command dials, runs its body and closes the connection, whose error is dropped.\<close>

definition connected :: "('t, 'h, 'c) Conn \<Rightarrow> rootFlags \<Rightarrow> ('h SltvClient \<Rightarrow> ctx \<Rightarrow> 'c \<Rightarrow> cli_error option \<times> 'c) \<Rightarrow> 'c
    \<Rightarrow> cli_error option \<times> 'c" where
  "connected cn rf body c =
     (let ctx = withTimeout (rc_now cn c) (Some None) (rf_Timeout rf) in
      case dial cn ctx rf c of
        (Inl err, c) \<Rightarrow> (Some (Local err), c)
      | (Inr client, c) \<Rightarrow> (case body client ctx c of (e, c) \<Rightarrow> (e, snd (Client_Close (rc_CloseConn cn) (Some client) c))))"

text \<open>An answer: the error of the call, or what is made of the reply.\<close>

definition local_error :: "error option \<times> 'c \<Rightarrow> cli_error option \<times> 'c" where
  "local_error r = (case r of (e, c) \<Rightarrow> (map_option Local e, c))"

definition show_reply :: "('a \<Rightarrow> 'c \<Rightarrow> error option \<times> 'c) \<Rightarrow> (grpc_status + 'a) \<times> 'c \<Rightarrow> cli_error option \<times> 'c" where
  "show_reply print r = (case r of (Inl st, c) \<Rightarrow> (Some (Rpc st), c) | (Inr x, c) \<Rightarrow> local_error (print x c))"

definition silent :: "'a \<Rightarrow> 'c \<Rightarrow> error option \<times> 'c" where
  "silent _ c = (None, c)"

text \<open>A size flag: nothing when it is empty.\<close>

definition size_flag :: "(f64 \<Rightarrow> u64) \<Rightarrow> string \<Rightarrow> u64 result" where
  "size_flag oob s = (if s \<noteq> [] then ParseSize oob s else Inr 0)"

definition create_disk_cmd :: "(f64 \<Rightarrow> u64) \<Rightarrow> (pbDisk \<Rightarrow> string result) \<Rightarrow> ('t, 'h, 'c) Conn \<Rightarrow> rootFlags
    \<Rightarrow> string \<Rightarrow> string \<Rightarrow> bool \<Rightarrow> string \<Rightarrow> string \<Rightarrow> 'c \<Rightarrow> cli_error option \<times> 'c" where
  "create_disk_cmd oob encodeJSON cn rf name size' thin virtualSize vg = connected cn rf (\<lambda>client ctx c.
     case size_flag oob size' of
       Inl err \<Rightarrow> (Some (Local err), c)
     | Inr n \<Rightarrow>
         (case size_flag oob virtualSize of
            Inl err \<Rightarrow> (Some (Local err), c)
          | Inr v \<Rightarrow> show_reply (\<lambda>d. printDisk (rc_Write cn) encodeJSON d (rf_JSON rf)) (rc_CreateDisk cn client ctx
              \<lparr>cr_Name = name, cr_Vg = vg, cr_Mode = (if thin then PROVISION_MODE_THIN else PROVISION_MODE_THICK),
               cr_SizeBytes = n, cr_VirtualSizeBytes = v\<rparr> c)))"

definition delete_disk_cmd :: "('t, 'h, 'c) Conn \<Rightarrow> rootFlags \<Rightarrow> string \<Rightarrow> bool \<Rightarrow> 'c \<Rightarrow> cli_error option \<times> 'c" where
  "delete_disk_cmd cn rf name force = connected cn rf (\<lambda>client ctx c.
     show_reply silent (rc_DeleteDisk cn client ctx name force c))"

definition get_disk_cmd :: "(pbDisk \<Rightarrow> string result) \<Rightarrow> ('t, 'h, 'c) Conn \<Rightarrow> rootFlags \<Rightarrow> string \<Rightarrow> 'c \<Rightarrow> cli_error option \<times> 'c" where
  "get_disk_cmd encodeJSON cn rf name = connected cn rf (\<lambda>client ctx c.
     show_reply (\<lambda>d. printDisk (rc_Write cn) encodeJSON d (rf_JSON rf)) (rc_GetDisk cn client ctx name c))"

definition list_disks_cmd :: "(pbDisk list \<Rightarrow> string result) \<Rightarrow> ('t, 'h, 'c) Conn \<Rightarrow> rootFlags \<Rightarrow> string \<Rightarrow> 'c
    \<Rightarrow> cli_error option \<times> 'c" where
  "list_disks_cmd encodeJSON cn rf vg = connected cn rf (\<lambda>client ctx c.
     show_reply (\<lambda>ds. if rf_JSON rf then printJSON (rc_Write cn) encodeJSON ds
       else write_all (rc_Write cn) (table ([''NAME'', ''VG'', ''MODE'', ''SIZE'', ''VIRT'', ''DEVICE'']
         # map (\<lambda>d. [pd_Name d, pd_Vg d, modeString (pd_Mode d), humanSize (pd_SizeBytes d),
             humanSize (pd_VirtualSizeBytes d), pd_DevicePath d]) ds))) (rc_ListDisks cn client ctx vg c))"

definition extend_disk_cmd :: "(f64 \<Rightarrow> u64) \<Rightarrow> (pbDisk \<Rightarrow> string result) \<Rightarrow> ('t, 'h, 'c) Conn \<Rightarrow> rootFlags
    \<Rightarrow> string \<Rightarrow> string \<Rightarrow> string \<Rightarrow> 'c \<Rightarrow> cli_error option \<times> 'c" where
  "extend_disk_cmd oob encodeJSON cn rf name size' delta = connected cn rf (\<lambda>client ctx c.
     case size_flag oob size' of
       Inl err \<Rightarrow> (Some (Local err), c)
     | Inr n \<Rightarrow>
         (case (if delta \<noteq> [] then ParseSize oob (TrimPrefix delta ''+'') else Inr 0) of
            Inl err \<Rightarrow> (Some (Local err), c)
          | Inr d \<Rightarrow>
              if n = 0 \<and> d = 0 then (Some (Local (Errorf ''--size or --delta is required'' [])), c)
              else show_reply (\<lambda>d. printDisk (rc_Write cn) encodeJSON d (rf_JSON rf)) (rc_ExtendDisk cn client ctx
                \<lparr>er_Name = name, er_SizeBytes = n, er_DeltaBytes = d\<rparr> c)))"

definition attach_disk_cmd :: "(pbAttachment \<Rightarrow> string result) \<Rightarrow> ('t, 'h, 'c) Conn \<Rightarrow> rootFlags
    \<Rightarrow> string \<Rightarrow> string \<Rightarrow> string \<Rightarrow> 'c \<Rightarrow> cli_error option \<times> 'c" where
  "attach_disk_cmd encodeJSON cn rf disk vm target = connected cn rf (\<lambda>client ctx c.
     show_reply (\<lambda>a. printAttachment (rc_Write cn) encodeJSON a (rf_JSON rf)) (rc_AttachDisk cn client ctx
       \<lparr>ar_DiskName = disk, ar_VmName = vm, ar_TargetDev = target\<rparr> c))"

definition detach_disk_cmd :: "('t, 'h, 'c) Conn \<Rightarrow> rootFlags \<Rightarrow> string \<Rightarrow> string \<Rightarrow> 'c \<Rightarrow> cli_error option \<times> 'c" where
  "detach_disk_cmd cn rf disk vm = connected cn rf (\<lambda>client ctx c.
     show_reply silent (rc_DetachDisk cn client ctx disk vm c))"

definition list_attachments_cmd :: "(pbAttachment list \<Rightarrow> string result) \<Rightarrow> ('t, 'h, 'c) Conn \<Rightarrow> rootFlags
    \<Rightarrow> string \<Rightarrow> string \<Rightarrow> 'c \<Rightarrow> cli_error option \<times> 'c" where
  "list_attachments_cmd encodeJSON cn rf disk vm = connected cn rf (\<lambda>client ctx c.
     show_reply (\<lambda>as. if rf_JSON rf then printJSON (rc_Write cn) encodeJSON as
       else write_all (rc_Write cn) (table ([''DISK'', ''VM'', ''HOST'', ''TARGET'', ''ATTACHED_AT'']
         # map (\<lambda>a. [pa_DiskName a, pa_VmName a, pa_Host a, pa_TargetDev a,
             (case pa_AttachedAt a of None \<Rightarrow> [] | Some t \<Rightarrow> rfc3339 t)]) as))) (rc_ListAttachments cn client ctx disk vm c))"

definition fmt_bool :: "bool \<Rightarrow> string" where
  "fmt_bool b = (if b then ''true'' else ''false'')"

definition version_cmd :: "'c writer \<Rightarrow> string \<Rightarrow> 'c \<Rightarrow> cli_error option \<times> 'c" where
  "version_cmd write version c = local_error (write (line version) c)"

text \<open>
  The node's part of \<open>status\<close>: three lines, whose error ends the command, and the table of the
  volume groups, whose error is dropped.
\<close>

definition print_node :: "'c writer \<Rightarrow> pbNodeStatus \<Rightarrow> 'c \<Rightarrow> error option \<times> 'c" where
  "print_node write ns c =
     (let ew = \<lparr>ew_w = c, ew_err = None\<rparr>;
          ew = ew_printf write (line (''Node:    '' @ pn_NodeId ns)) ew;
          ew = ew_printf write (line (''Version: '' @ pn_Version ns)) ew;
          ew = ew_printf write (line (''Cluster: '' @ fmt_bool (pn_ClusterEnabled ns))) ew
      in if ew_err ew \<noteq> None then (ew_err ew, ew_w ew)
         else (None, snd (write_all write (table ([''VG'', ''SIZE'', ''FREE'']
           # map (\<lambda>v. [pv_Name v, humanSize (pv_SizeBytes v), humanSize (pv_FreeBytes v)]) (pn_Vgs ns))) (ew_w ew))))"

definition print_cluster :: "'c writer \<Rightarrow> pbClusterStatus \<Rightarrow> 'c \<Rightarrow> error option \<times> 'c" where
  "print_cluster write cs c =
     (let ew = \<lparr>ew_w = c, ew_err = None\<rparr>;
          ew = ew_printf write (newline @ line ''Cluster status'') ew;
          ew = ew_printf write (line (''  Enabled:        '' @ fmt_bool (pc_Enabled cs))) ew;
          ew = ew_printf write (line (''  Leader:         '' @ pc_Leader cs)) ew;
          ew = ew_printf write (line (''  Disks:          '' @ dec (unat (pc_DiskCount cs)))) ew;
          ew = ew_printf write (line (''  Attachments:    '' @ dec (unat (pc_AttachmentCount cs)))) ew;
          ew = ew_printf write (line ''  Nodes:'') ew;
          ew = fold (\<lambda>n. ew_printf write (line (''    - '' @ pn_NodeId n @ '' ('' @ pn_Version n @ '')''))) (pc_Nodes cs) ew
      in (ew_err ew, ew_w ew))"

definition status_cmd :: "(pbNodeStatus \<times> pbClusterStatus option \<Rightarrow> string result) \<Rightarrow> ('t, 'h, 'c) Conn \<Rightarrow> rootFlags \<Rightarrow> bool \<Rightarrow> 'c
    \<Rightarrow> cli_error option \<times> 'c" where
  "status_cmd encodeJSON cn rf clusterFlag = connected cn rf (\<lambda>client ctx c.
     case rc_GetNodeStatus cn client ctx c of
       (Inl st, c) \<Rightarrow> (Some (Rpc st), c)
     | (Inr ns, c) \<Rightarrow>
         if rf_JSON rf then
           (if clusterFlag
            then show_reply (\<lambda>cs. printJSON (rc_Write cn) encodeJSON (ns, Some cs)) (rc_GetClusterStatus cn client ctx c)
            else local_error (printJSON (rc_Write cn) encodeJSON (ns, None) c))
         else
           (case print_node (rc_Write cn) ns c of
              (Some err, c) \<Rightarrow> (Some (Local err), c)
            | (None, c) \<Rightarrow>
                if clusterFlag then show_reply (print_cluster (rc_Write cn)) (rc_GetClusterStatus cn client ctx c)
                else (None, c)))"

section \<open>The command line\<close>

text \<open>The subcommands with their arguments and flags.\<close>

datatype sctl_command =
    Version
  | CreateDisk string string bool string string
  | DeleteDisk string bool
  | GetDisk string
  | ListDisks string
  | ExtendDisk string string string
  | AttachDisk string string string
  | DetachDisk string string
  | ListAttachments string string
  | NodeStatus bool

text \<open>A flag has a type and a default; a command without a rule for its arguments takes any.\<close>

datatype flag_value = StringFlag string | BoolFlag bool | DurationFlag int

type_synonym flags = "string \<Rightarrow> flag_value"

fun string_of_flag :: "flag_value \<Rightarrow> string" where
  "string_of_flag (StringFlag s) = s"
| "string_of_flag _ = []"

fun bool_of_flag :: "flag_value \<Rightarrow> bool" where
  "bool_of_flag (BoolFlag b) = b"
| "bool_of_flag _ = False"

fun duration_of_flag :: "flag_value \<Rightarrow> int" where
  "duration_of_flag (DurationFlag d) = d"
| "duration_of_flag _ = 0"

datatype arg_rule = ExactArgs nat | ArbitraryArgs

text \<open>
  A command as it is given to cobra. Its function gets the arguments and the flags; \<open>None\<close> is the
  panic of an index outside the arguments.
\<close>

record cobra_command =
  cm_Use :: string
  cm_Args :: arg_rule
  cm_Flags :: "(string \<times> flag_value) list"
  cm_RunE :: "string list \<Rightarrow> flags \<Rightarrow> sctl_command option"

definition arg :: "string list \<Rightarrow> nat \<Rightarrow> string option" where
  "arg args i = (if i < length args then Some (args ! i) else None)"

definition newVersionCmd :: cobra_command where
  "newVersionCmd = \<lparr>cm_Use = ''version'', cm_Args = ArbitraryArgs, cm_Flags = [], cm_RunE = (\<lambda>_ _. Some Version)\<rparr>"

definition newCreateDiskCmd :: cobra_command where
  "newCreateDiskCmd = \<lparr>cm_Use = ''create-disk NAME'', cm_Args = ExactArgs 1,
     cm_Flags = [(''size'', StringFlag []), (''thin-prov'', BoolFlag False), (''virtual-size'', StringFlag []), (''vg'', StringFlag [])],
     cm_RunE = (\<lambda>args fl. map_option (\<lambda>name. CreateDisk name (string_of_flag (fl ''size'')) (bool_of_flag (fl ''thin-prov''))
       (string_of_flag (fl ''virtual-size'')) (string_of_flag (fl ''vg''))) (arg args 0))\<rparr>"

definition newDeleteDiskCmd :: cobra_command where
  "newDeleteDiskCmd = \<lparr>cm_Use = ''delete-disk NAME'', cm_Args = ExactArgs 1, cm_Flags = [(''force'', BoolFlag False)],
     cm_RunE = (\<lambda>args fl. map_option (\<lambda>name. DeleteDisk name (bool_of_flag (fl ''force''))) (arg args 0))\<rparr>"

definition newGetDiskCmd :: cobra_command where
  "newGetDiskCmd = \<lparr>cm_Use = ''get-disk NAME'', cm_Args = ExactArgs 1, cm_Flags = [],
     cm_RunE = (\<lambda>args fl. map_option GetDisk (arg args 0))\<rparr>"

definition newListDisksCmd :: cobra_command where
  "newListDisksCmd = \<lparr>cm_Use = ''list-disks'', cm_Args = ArbitraryArgs, cm_Flags = [(''vg'', StringFlag [])],
     cm_RunE = (\<lambda>_ fl. Some (ListDisks (string_of_flag (fl ''vg''))))\<rparr>"

definition newExtendDiskCmd :: cobra_command where
  "newExtendDiskCmd = \<lparr>cm_Use = ''extend-disk NAME'', cm_Args = ExactArgs 1,
     cm_Flags = [(''size'', StringFlag []), (''delta'', StringFlag [])],
     cm_RunE = (\<lambda>args fl. map_option (\<lambda>name. ExtendDisk name (string_of_flag (fl ''size'')) (string_of_flag (fl ''delta'')))
       (arg args 0))\<rparr>"

definition newAttachDiskCmd :: cobra_command where
  "newAttachDiskCmd = \<lparr>cm_Use = ''attach-disk DISK VM'', cm_Args = ExactArgs 2, cm_Flags = [(''target'', StringFlag [])],
     cm_RunE = (\<lambda>args fl. case (arg args 0, arg args 1) of
        (Some disk, Some vm) \<Rightarrow> Some (AttachDisk disk vm (string_of_flag (fl ''target'')))
      | _ \<Rightarrow> None)\<rparr>"

definition newDetachDiskCmd :: cobra_command where
  "newDetachDiskCmd = \<lparr>cm_Use = ''detach-disk DISK VM'', cm_Args = ExactArgs 2, cm_Flags = [],
     cm_RunE = (\<lambda>args fl. case (arg args 0, arg args 1) of (Some disk, Some vm) \<Rightarrow> Some (DetachDisk disk vm) | _ \<Rightarrow> None)\<rparr>"

definition newListAttachmentsCmd :: cobra_command where
  "newListAttachmentsCmd = \<lparr>cm_Use = ''list-attachments'', cm_Args = ArbitraryArgs,
     cm_Flags = [(''disk'', StringFlag []), (''vm'', StringFlag [])],
     cm_RunE = (\<lambda>_ fl. Some (ListAttachments (string_of_flag (fl ''disk'')) (string_of_flag (fl ''vm''))))\<rparr>"

definition newStatusCmd :: cobra_command where
  "newStatusCmd = \<lparr>cm_Use = ''status'', cm_Args = ArbitraryArgs, cm_Flags = [(''cluster'', BoolFlag False)],
     cm_RunE = (\<lambda>_ fl. Some (NodeStatus (bool_of_flag (fl ''cluster''))))\<rparr>"

text \<open>\<open>setupCommands\<close>: the persistent flags with their defaults and where they go, and the subcommands.\<close>

definition persistent_flags :: "(string \<times> flag_value) list" where
  "persistent_flags = [(''addr'', StringFlag ''unix:///run/sltv/sltvd.sock''), (''tls-cert'', StringFlag []),
     (''tls-key'', StringFlag []), (''tls-ca'', StringFlag []), (''tls-server-name'', StringFlag []),
     (''json'', BoolFlag False), (''timeout'', DurationFlag (30 * second))]"

definition rootFlags_of :: "flags \<Rightarrow> rootFlags" where
  "rootFlags_of fl = \<lparr>rf_Addr = string_of_flag (fl ''addr''), rf_TLSCert = string_of_flag (fl ''tls-cert''),
     rf_TLSKey = string_of_flag (fl ''tls-key''), rf_TLSCA = string_of_flag (fl ''tls-ca''),
     rf_TLSServer = string_of_flag (fl ''tls-server-name''), rf_JSON = bool_of_flag (fl ''json''),
     rf_Timeout = duration_of_flag (fl ''timeout'')\<rparr>"

definition setupCommands :: "cobra_command list" where
  "setupCommands = [newVersionCmd, newCreateDiskCmd, newDeleteDiskCmd, newGetDiskCmd, newListDisksCmd, newExtendDiskCmd,
     newAttachDiskCmd, newDetachDiskCmd, newListAttachmentsCmd, newStatusCmd]"

section \<open>The program\<close>

text \<open>The encoding of replies as indented JSON.\<close>

record json_encoder =
  je_disk :: "pbDisk \<Rightarrow> string result"
  je_disks :: "pbDisk list \<Rightarrow> string result"
  je_attachment :: "pbAttachment \<Rightarrow> string result"
  je_attachments :: "pbAttachment list \<Rightarrow> string result"
  je_status :: "pbNodeStatus \<times> pbClusterStatus option \<Rightarrow> string result"

fun run_command :: "(f64 \<Rightarrow> u64) \<Rightarrow> json_encoder \<Rightarrow> string \<Rightarrow> ('t, 'h, 'c) Conn \<Rightarrow> rootFlags \<Rightarrow> sctl_command \<Rightarrow> 'c
    \<Rightarrow> cli_error option \<times> 'c" where
  "run_command oob je version cn rf Version = version_cmd (rc_Write cn) version"
| "run_command oob je version cn rf (CreateDisk name sz thin virtualSize vg) =
     create_disk_cmd oob (je_disk je) cn rf name sz thin virtualSize vg"
| "run_command oob je version cn rf (DeleteDisk name force) = delete_disk_cmd cn rf name force"
| "run_command oob je version cn rf (GetDisk name) = get_disk_cmd (je_disk je) cn rf name"
| "run_command oob je version cn rf (ListDisks vg) = list_disks_cmd (je_disks je) cn rf vg"
| "run_command oob je version cn rf (ExtendDisk name sz delta) = extend_disk_cmd oob (je_disk je) cn rf name sz delta"
| "run_command oob je version cn rf (AttachDisk disk vm target) = attach_disk_cmd (je_attachment je) cn rf disk vm target"
| "run_command oob je version cn rf (DetachDisk disk vm) = detach_disk_cmd cn rf disk vm"
| "run_command oob je version cn rf (ListAttachments disk vm) = list_attachments_cmd (je_attachments je) cn rf disk vm"
| "run_command oob je version cn rf (NodeStatus clusterFlag) = status_cmd (je_status je) cn rf clusterFlag"

text \<open>
  What cobra's \<open>Execute\<close> makes of the command line: an error of its own, a help text, or the call
  of one command's function with the arguments and flags it has read.
\<close>

datatype cobra_reading = CobraError error | CobraHelp string | Invoke string "string list" flags

type_synonym cobra = "(string \<times> flag_value) list \<Rightarrow> cobra_command list \<Rightarrow> string list \<Rightarrow> cobra_reading"

text \<open>The name of a command is the first word of its usage line.\<close>

definition cm_Name :: "cobra_command \<Rightarrow> string" where
  "cm_Name cmd = takeWhile (\<lambda>ch. ch \<noteq> CHR '' '') (cm_Use cmd)"

text \<open>\<open>Run\<close>; \<open>None\<close> is a panic.\<close>

definition CLI_Run :: "cobra \<Rightarrow> (f64 \<Rightarrow> u64) \<Rightarrow> json_encoder \<Rightarrow> string \<Rightarrow> ('t, 'h, 'c) Conn \<Rightarrow> string list \<Rightarrow> 'c
    \<Rightarrow> (cli_error option \<times> 'c) option" where
  "CLI_Run execute oob je version cn args c =
     (case execute persistent_flags setupCommands args of
        CobraError err \<Rightarrow> Some (Some (Local err), c)
      | CobraHelp text \<Rightarrow> Some (None, snd (rc_Write cn text c))
      | Invoke name pos fl \<Rightarrow>
          (case find (\<lambda>cmd. cm_Name cmd = name) setupCommands of
             None \<Rightarrow> None
           | Some cmd \<Rightarrow> map_option (\<lambda>cmd. run_command oob je version cn (rootFlags_of fl) cmd c) (cm_RunE cmd pos fl)))"

text \<open>\<open>main\<close>: the error it prints on standard error and the exit status.\<close>

definition sctl_main :: "cobra \<Rightarrow> (f64 \<Rightarrow> u64) \<Rightarrow> json_encoder \<Rightarrow> string \<Rightarrow> ('t, 'h, 'c) Conn \<Rightarrow> string list \<Rightarrow> 'c
    \<Rightarrow> ((cli_error option \<times> nat) \<times> 'c) option" where
  "sctl_main execute oob je version cn args c =
     map_option (\<lambda>(e, c). ((e, if e = None then 0 else 1), c)) (CLI_Run execute oob je version cn args c)"

section \<open>Facts\<close>

text \<open>The \<open>errWriter\<close> is a loop of writes that stops at the first error.\<close>

definition ew_result :: "'c errWriter \<Rightarrow> error option \<times> 'c" where
  "ew_result ew = (ew_err ew, ew_w ew)"

lemma ew_printf_failed [simp]: "ew_printf write s \<lparr>ew_w = c, ew_err = Some err\<rparr> = \<lparr>ew_w = c, ew_err = Some err\<rparr>"
  by (simp add: ew_printf_def)

lemma ew_printf_first [simp]:
  "ew_printf write s \<lparr>ew_w = c, ew_err = None\<rparr> = (case write s c of (e, c) \<Rightarrow> \<lparr>ew_w = c, ew_err = e\<rparr>)"
  by (simp add: ew_printf_def)

lemma ew_fold_failed [simp]:
  "fold (ew_printf write) ss \<lparr>ew_w = c, ew_err = Some err\<rparr> = \<lparr>ew_w = c, ew_err = Some err\<rparr>"
  by (induction ss) simp_all

lemma ew_fold: "ew_result (fold (ew_printf write) ss \<lparr>ew_w = c, ew_err = None\<rparr>) = write_all write ss c"
  by (induction ss arbitrary: c) (auto simp: ew_result_def split: prod.split option.split)

definition time_line :: "string \<Rightarrow> pbTimestamp option \<Rightarrow> string list" where
  "time_line label t = (case t of None \<Rightarrow> [] | Some ts \<Rightarrow> [line (label @ rfc3339 ts)])"

lemma ew_time_fold: "ew_time write label t = fold (ew_printf write) (time_line label t)"
  by (cases t) (simp_all add: fun_eq_iff ew_time_def time_line_def)

text \<open>The lines of a disk and of an attachment.\<close>

definition disk_lines :: "pbDisk \<Rightarrow> string list" where
  "disk_lines d = [line (''Name:    '' @ pd_Name d), line (''VG:      '' @ pd_Vg d), line (''Mode:    '' @ modeString (pd_Mode d)),
     line (''Size:    '' @ humanSize (pd_SizeBytes d) @ '' ('' @ dec (unat (pd_SizeBytes d)) @ '' bytes)''),
     line (''Virtual: '' @ humanSize (pd_VirtualSizeBytes d) @ '' ('' @ dec (unat (pd_VirtualSizeBytes d)) @ '' bytes)''),
     line (''Device:  '' @ pd_DevicePath d), line (''Node:    '' @ pd_CreatedOnNode d)]
     @ time_line ''Created: '' (pd_CreatedAt d) @ time_line ''Extend:  '' (pd_LastExtendedAt d)"

definition attachment_lines :: "pbAttachment \<Rightarrow> string list" where
  "attachment_lines a = [line (''Disk:   '' @ pa_DiskName a), line (''VM:     '' @ pa_VmName a), line (''Host:   '' @ pa_Host a),
     line (''Target: '' @ pa_TargetDev a)] @ time_line ''When:   '' (pa_AttachedAt a)"

lemma printDisk_text: "printDisk write encodeJSON d False c = write_all write (disk_lines d) c"
  by (simp add: printDisk_def disk_lines_def ew_time_fold flip: ew_fold ew_result_def)

lemma printAttachment_text: "printAttachment write encodeJSON a False c = write_all write (attachment_lines a) c"
  by (simp add: printAttachment_def attachment_lines_def ew_time_fold flip: ew_fold ew_result_def)

end
