(* ===== verification/Cli_Properties.thy ===== *)
theory Cli_Properties
  imports Cli Server_Properties Config_Properties
begin

text \<open>What a user of \<open>sctl\<close> sees, from the flags through the connection and the service to the catalog.\<close>

section \<open>The command line\<close>

text \<open>
  What cobra documents of \<open>Execute\<close>: it calls the function of a command that was added, by its
  name and only with arguments that the command's rule admits.
\<close>

fun args_ok :: "arg_rule \<Rightarrow> string list \<Rightarrow> bool" where
  "args_ok (ExactArgs n) args \<longleftrightarrow> length args = n"
| "args_ok ArbitraryArgs args \<longleftrightarrow> True"

definition cobra_ok :: "cobra \<Rightarrow> bool" where
  "cobra_ok execute \<longleftrightarrow> (\<forall>pf cmds args name pos fl. execute pf cmds args = Invoke name pos fl \<longrightarrow>
     (\<exists>cmd \<in> set cmds. cm_Name cmd = name \<and> args_ok (cm_Args cmd) pos))"

lemma cobra_okD:
  "cobra_ok execute \<Longrightarrow> execute pf cmds args = Invoke name pos fl \<Longrightarrow>
   \<exists>cmd \<in> set cmds. cm_Name cmd = name \<and> args_ok (cm_Args cmd) pos"
  unfolding cobra_ok_def by blast

lemmas new_cmd_defs = newVersionCmd_def newCreateDiskCmd_def newDeleteDiskCmd_def newGetDiskCmd_def newListDisksCmd_def
  newExtendDiskCmd_def newAttachDiskCmd_def newDetachDiskCmd_def newListAttachmentsCmd_def newStatusCmd_def

text \<open>The names of the subcommands differ, so a name finds its command.\<close>

lemma setupCommands_names: "distinct (map cm_Name setupCommands)"
  by code_simp

lemma find_by_name: "distinct (map f xs) \<Longrightarrow> x \<in> set xs \<Longrightarrow> find (\<lambda>y. f y = f x) xs = Some x"
  by (induction xs) force+

lemma RunE_in_range:
  "cmd \<in> set setupCommands \<Longrightarrow> args_ok (cm_Args cmd) pos \<Longrightarrow> \<exists>c. cm_RunE cmd pos fl = Some c"
  by (auto simp: setupCommands_def new_cmd_defs arg_def)

lemma invoked_command:
  assumes "cobra_ok execute" "execute pf setupCommands args = Invoke name pos fl"
  obtains cmd r where "cmd \<in> set setupCommands" "cm_Name cmd = name" "cm_RunE cmd pos fl = Some r"
    "find (\<lambda>c. cm_Name c = name) setupCommands = Some cmd"
proof -
  from cobra_okD [OF assms] obtain cmd where cmd: "cmd \<in> set setupCommands" "cm_Name cmd = name" "args_ok (cm_Args cmd) pos" by blast
  with RunE_in_range [OF cmd(1,3)] find_by_name [OF setupCommands_names cmd(1)] that show thesis by blast
qed

text \<open>
  However the command line reads, \<open>sctl\<close> does not index outside its arguments: \<open>main\<close> ends,
  with status 0 exactly when there is no error to print, after running one of the ten commands
  with the flags cobra has read, printing the help, or failing before anything was done.
\<close>

theorem sctl_does_not_panic:
  assumes "cobra_ok execute"
  shows "\<exists>e c'. sctl_main execute oob je version cn args c = Some ((e, if e = None then 0 else 1), c') \<and>
    ((\<exists>err. e = Some (Local err) \<and> c' = c) \<or> (\<exists>help. e = None \<and> c' = snd (rc_Write cn help c)) \<or>
     (\<exists>fl cmd. run_command oob je version cn (rootFlags_of fl) cmd c = (e, c')))"
proof (cases "execute persistent_flags setupCommands args")
  case (Invoke name pos fl)
  from invoked_command [OF assms this] obtain cmd r where r: "cm_RunE cmd pos fl = Some r"
    and "find (\<lambda>c. cm_Name c = name) setupCommands = Some cmd" .
  moreover obtain e c' where run: "run_command oob je version cn (rootFlags_of fl) r c = (e, c')" by fastforce
  ultimately have "sctl_main execute oob je version cn args c = Some ((e, if e = None then 0 else 1), c')"
    using Invoke r by (simp add: sctl_main_def CLI_Run_def)
  with run show ?thesis by blast
qed (auto simp: sctl_main_def CLI_Run_def)

section \<open>From the command line to the catalog\<close>

text \<open>
  A connection as gRPC promises it: every request reaches the server's method on the service's
  world and its answer comes back. Dialling and closing succeed and do not touch the world;
  \<open>nodes\<close> is what the cluster's listing answers. The standard output is the text written so far.
\<close>

definition on_service :: "('w \<Rightarrow> 'a \<times> 'w) \<Rightarrow> 'w \<times> 'o \<Rightarrow> 'a \<times> 'w \<times> 'o" where
  "on_service f c = (case f (fst c) of (r, w) \<Rightarrow> (r, w, snd c))"

definition stdout :: "('w \<times> string) writer" where
  "stdout s c = (None, fst c, snd c @ s)"

definition served_by :: "(string \<Rightarrow> string + lvmReportAny) \<Rightarrow> (f64 \<Rightarrow> u64) \<Rightarrow> ('l, 'v, 's, 'k, 'q) Service \<Rightarrow> ServerInfo
    \<Rightarrow> NodeInfo list result \<Rightarrow> ('t, unit, ('l, 'v, 's, 'k, 'q) World \<times> string) Conn" where
  "served_by unmarshal oob sv si nodes = \<lparr>rc_now = (\<lambda>_. 0), rc_urlPath = (\<lambda>a. Inr (TrimPrefix a ''unix://'')),
     rc_LoadTLS = (\<lambda>_ _ _ _. Inl (ExecError ''no key material'')), rc_NewClient = (\<lambda>_ c. (Inr (), c)),
     rc_CloseConn = (\<lambda>_ c. (None, c)),
     rc_CreateDisk = (\<lambda>_ _ req. on_service (run sv (Server_CreateDisk sv req))),
     rc_DeleteDisk = (\<lambda>_ _ n f. on_service (run sv (Server_DeleteDisk n f))),
     rc_GetDisk = (\<lambda>_ _ n. on_service (run sv (Server_GetDisk n))),
     rc_ListDisks = (\<lambda>_ _ vg. on_service (run sv (Server_ListDisks vg))),
     rc_ExtendDisk = (\<lambda>_ _ req. on_service (run sv (Server_ExtendDisk req))),
     rc_AttachDisk = (\<lambda>_ _ req. on_service (run sv (Server_AttachDisk sv req))),
     rc_DetachDisk = (\<lambda>_ _ d v. on_service (run sv (Server_DetachDisk d v))),
     rc_ListAttachments = (\<lambda>_ _ d v. on_service (run sv (Server_ListAttachments d v))),
     rc_GetNodeStatus = (\<lambda>_ _. on_service (\<lambda>w. case Server_GetNodeStatus unmarshal oob (sv_LVM sv) si (w_lvm w) of
       (r, l) \<Rightarrow> (r, w\<lparr>w_lvm := l\<rparr>))),
     rc_GetClusterStatus = (\<lambda>_ _. on_service (run sv (Server_GetClusterStatus si nodes))),
     rc_Write = stdout\<rparr>"

text \<open>The flags when the command line sets none.\<close>

definition unset :: "(string \<times> flag_value) list \<Rightarrow> flags" where
  "unset fs f = (case map_of fs f of None \<Rightarrow> StringFlag [] | Some v \<Rightarrow> v)"

definition default_flags :: rootFlags where
  "default_flags = rootFlags_of (unset persistent_flags)"

lemma default_flags_text [simp]: "rf_JSON default_flags = False"
  by code_simp

text \<open>With the default flags the socket is dialled without TLS, and a command is its body with 30 seconds.\<close>

lemma connected_served [simp]:
  "connected (served_by unmarshal oob sv si nodes) default_flags body c = body \<lparr>cl_conn = Some ()\<rparr> (Some (30 * second)) c"
proof -
  have "HasPrefix (rf_Addr default_flags) ''unix://''" "rf_Addr default_flags \<noteq> []" "rf_Timeout default_flags = 30 * second"
    by code_simp+
  moreover have "0 < second" by (simp add: second_def)
  ultimately show ?thesis
    by (simp add: connected_def dial_def Dial_def dial_plan_def served_by_def withTimeout_def context_WithTimeout_def
        Client_Close_def split: prod.split)
qed


lemma write_all_stdout [simp]: "write_all stdout ss c = (None, fst c, snd c @ concat ss)"
  by (induction ss arbitrary: c) (simp_all add: stdout_def)


section \<open>Sequences of command lines\<close>

text \<open>The methods of the server keep the catalog's invariant, since the requests behind them do.\<close>

definition keeps_catalog :: "(string \<Rightarrow> bool) \<Rightarrow> 'a proc \<Rightarrow> bool" where
  "keeps_catalog ok p \<longleftrightarrow>
     (\<forall>c. catalog_ok ok c \<longrightarrow> catsafe False ok (unwatched :: unit monitor) p c () (\<lambda>_ c' _. catalog_ok ok c'))"

lemma keeps_catalog_reply [intro]: "keeps_catalog ok p \<Longrightarrow> keeps_catalog ok (reply f p)"
  by (simp add: keeps_catalog_def reply_def catsafe_bind)

lemma keeps_catalog_reply_empty [intro]: "keeps_catalog ok p \<Longrightarrow> keeps_catalog ok (reply_empty p)"
  by (simp add: keeps_catalog_def reply_empty_def catsafe_bind)

lemma keeps_catalog_reads [intro]:
  "keeps_catalog ok (Service_GetDisk n)" "keeps_catalog ok (Service_ListDisks vg)"
  "ok d \<Longrightarrow> keeps_catalog ok (Service_ListAttachments d v)"
  by (simp_all add: keeps_catalog_def Service_GetDisk_def Service_ListDisks_def Service_ListAttachments_def)









lemma ew_printf_stdout [simp]: "fst (ew_w (ew_printf stdout s ew)) = fst (ew_w ew)"
  by (simp add: ew_printf_def stdout_def)

lemma ew_fold_stdout [simp]: "fst (ew_w (fold (\<lambda>x. ew_printf stdout (f x)) xs ew)) = fst (ew_w ew)"
  by (induction xs arbitrary: ew) simp_all




















text \<open>A reading of the command line that knows \<open>--flag=value\<close> for strings and \<open>--flag\<close> for switches.\<close>

definition flag_name :: "string \<Rightarrow> string" where
  "flag_name s = takeWhile (\<lambda>ch. ch \<noteq> CHR ''='') (drop 2 s)"

definition read_flag :: "(string \<times> flag_value) list \<Rightarrow> string \<Rightarrow> flag_value option" where
  "read_flag fs s =
     (case map_of fs (flag_name s) of
        Some (StringFlag _) \<Rightarrow> Some (StringFlag (drop (length (flag_name s) + 3) s))
      | Some (BoolFlag _) \<Rightarrow> Some (BoolFlag True)
      | _ \<Rightarrow> None)"

definition plain_cobra :: cobra where
  "plain_cobra pf cmds args =
     (case args of
        [] \<Rightarrow> CobraHelp ''usage''
      | name # rest \<Rightarrow>
          (case find (\<lambda>cmd. cm_Name cmd = name) cmds of
             None \<Rightarrow> CobraError (Errorf ''unknown command'' [name])
           | Some cmd \<Rightarrow>
               let known = pf @ cm_Flags cmd; given = filter (\<lambda>s. HasPrefix s ''--'') rest;
                   pos = filter (\<lambda>s. \<not> HasPrefix s ''--'') rest in
               if list_ex (\<lambda>s. read_flag known s = None) given then CobraError (Errorf ''unknown flag'' [])
               else if args_ok (cm_Args cmd) pos
               then Invoke name pos (fold (\<lambda>s fl. fl(flag_name s := the (read_flag known s))) given (unset known))
               else CobraError (Errorf ''arguments'' [])))"

lemma plain_cobra_ok: "cobra_ok plain_cobra"
  by (auto simp: cobra_ok_def plain_cobra_def Let_def find_Some_iff split: list.splits option.splits if_splits)

definition sample_conn :: "(unit, unit, sample_world \<times> string) Conn" where
  "sample_conn = served_by (\<lambda>_. Inl []) (\<lambda>_. 0) sample \<lparr>si_nodeID = ''n1'', si_version = ''dev'', si_cluster = None\<rparr> (Inr [])"

definition no_json :: json_encoder where
  "no_json = \<lparr>je_disk = (\<lambda>_. Inr []), je_disks = (\<lambda>_. Inr []), je_attachment = (\<lambda>_. Inr []), je_attachments = (\<lambda>_. Inr []),
     je_status = (\<lambda>_. Inr [])\<rparr>"

theorem sctl_does_not_panic_witness:
  "\<exists>e c'. sctl_main plain_cobra (\<lambda>_. 0) no_json ''dev'' sample_conn [''attach-disk'', ''d1''] (empty_world, [])
     = Some ((e, if e = None then 0 else 1), c')"
  using sctl_does_not_panic [OF plain_cobra_ok, of "\<lambda>_. 0" no_json "''dev''" sample_conn "[''attach-disk'', ''d1'']" "(empty_world, [])"]
  by blast



end
