(* ===== verification/Daemon.thy ===== *)
theory Daemon
  imports Thin Server Daemon_Config Bolt_Store
begin

text \<open>
  The daemon \<open>src/cmd/sltvd/main.go\<close> and the constructors it calls: loading the configuration
  with the fallback to the defaults, the logger's settings, and \<open>run\<close>, which opens the catalog
  (etcd with clustering, bbolt without), builds the disk service, the thin manager and the
  server, listens, and releases everything on the way out. \<open>run\<close> is composed of the models of
  the constructors of the other packages; what the operating system, bbolt and etcd do on the
  host's state \<open>'n\<close> is a parameter. Besides the host's state, \<open>run\<close> yields its error, the disk
  service it built and the trace of what it opened, started and released.
\<close>

section \<open>Constructors\<close>

text \<open>\<open>version.String\<close> of the three link-time variables.\<close>

definition version_String :: "string \<Rightarrow> string \<Rightarrow> string \<Rightarrow> string" where
  "version_String v commit date = v @ '' ('' @ commit @ '', built '' @ date @ '')''"

text \<open>\<open>lvm.New\<close> and \<open>NewVirshClient\<close>: a missing runner is replaced by the executing one.\<close>

definition lvm_New :: "'x Runner \<Rightarrow> 'x Runner option \<Rightarrow> 'x Runner" where
  "lvm_New combined r = (case r of None \<Rightarrow> ExecRunner_Run combined | Some r \<Rightarrow> r)"

definition NewVirshClient :: "'v Runner \<Rightarrow> (string \<Rightarrow> string list \<Rightarrow> string \<Rightarrow> 'v \<Rightarrow> (string \<times> string option) \<times> 'v)
    \<Rightarrow> string \<Rightarrow> 'v Runner option \<Rightarrow> 'v VirshClient" where
  "NewVirshClient combined with_stdin uri r =
     \<lparr>vc_r = (case r of None \<Rightarrow> ExecRunner_Run combined | Some r \<Rightarrow> r), vc_with_stdin = with_stdin, vc_uri = uri\<rparr>"

text \<open>
  \<open>ExecQemuImgRunner\<close> over \<open>combined\<close> (running a program) and \<open>remove\<close> (\<open>os.Remove\<close>, which
  tells a missing file apart).
\<close>

datatype remove_result = Removed | NoSuchFile | RemoveFailed error

definition ExecQemu_CreateQcow2 :: "'q Runner \<Rightarrow> string \<Rightarrow> u64 \<Rightarrow> 'q \<Rightarrow> error option \<times> 'q" where
  "ExecQemu_CreateQcow2 combined imagePath virtualSizeBytes q =
     (case combined ''qemu-img'' [''create'', ''-f'', ''qcow2'', imagePath, dec (unat virtualSizeBytes)] q of
        ((out, Some err), q) \<Rightarrow> (Some (Wrapf ''qemu-img create: %w: %s'' [TrimSpace out] (ExecError err)), q)
      | ((_, None), q) \<Rightarrow> (None, q))"

definition ExecQemu_DDOver :: "'q Runner \<Rightarrow> string \<Rightarrow> string \<Rightarrow> 'q \<Rightarrow> error option \<times> 'q" where
  "ExecQemu_DDOver combined src dst q =
     (case combined ''dd'' [''if='' @ src, ''of='' @ dst, ''bs=1M'', ''conv=notrunc''] q of
        ((out, Some err), q) \<Rightarrow> (Some (Wrapf ''dd: %w: %s'' [TrimSpace out] (ExecError err)), q)
      | ((_, None), q) \<Rightarrow> (None, q))"

definition ExecQemu_RemoveFile :: "(string \<Rightarrow> 'q \<Rightarrow> remove_result \<times> 'q) \<Rightarrow> string \<Rightarrow> 'q \<Rightarrow> error option \<times> 'q" where
  "ExecQemu_RemoveFile remove path q =
     (if path = [] then (None, q)
      else (case remove path q of
              (RemoveFailed err, q) \<Rightarrow> (Some err, q)
            | (_, q) \<Rightarrow> (None, q)))"

definition execQemuImgRunner :: "'q Runner \<Rightarrow> (string \<Rightarrow> 'q \<Rightarrow> remove_result \<times> 'q) \<Rightarrow> 'q QemuImgRunner" where
  "execQemuImgRunner combined remove = \<lparr>qi_CreateQcow2 = ExecQemu_CreateQcow2 combined,
     qi_DDOver = ExecQemu_DDOver combined, qi_RemoveFile = ExecQemu_RemoveFile remove\<rparr>"

text \<open>\<open>disk.New\<close>; an interface that is nil is \<open>None\<close>.\<close>

record ('l, 'v, 's, 'k, 'q) DiskOptions =
  do_LVM :: "'l Runner option"
  do_Libvirt :: "'v Client option"
  do_Store :: "'s Store option"
  do_Locker :: "'k Locker option"
  do_QemuImg :: "'q QemuImgRunner option"
  do_DefaultVG :: string
  do_DefaultThinInitial :: u64
  do_NodeID :: string
  do_TempDir :: string

definition disk_New :: "'q QemuImgRunner \<Rightarrow> string \<Rightarrow> (nat \<Rightarrow> gotime) \<Rightarrow> (nat \<Rightarrow> int) \<Rightarrow> ('l, 'v, 's, 'k, 'q) DiskOptions
    \<Rightarrow> ('l, 'v, 's, 'k, 'q) Service result" where
  "disk_New execQemu osTempDir now nanos o' =
     (case (do_LVM o', do_Libvirt o', do_Store o', do_Locker o') of
        (Some lvm, Some virt, Some st, Some lk) \<Rightarrow>
          if do_NodeID o' = [] then Inl (Errorf ''disk.New: NodeID is required'' [])
          else Inr \<lparr>sv_LVM = lvm, sv_Libvirt = virt, sv_Store = st, sv_Locker = lk,
            sv_QemuImg = (case do_QemuImg o' of None \<Rightarrow> execQemu | Some qi \<Rightarrow> qi),
            sv_DefaultVG = do_DefaultVG o', sv_DefaultThinInitial = do_DefaultThinInitial o',
            sv_NodeID = do_NodeID o', sv_TempDir = (if do_TempDir o' = [] then osTempDir else do_TempDir o'),
            sv_Now = now, sv_UnixNano = nanos\<rparr>
      | _ \<Rightarrow> Inl (Errorf ''disk.New: LVM, Libvirt, Store, and Locker are required'' []))"

section \<open>main\<close>

text \<open>The configuration \<open>main\<close> runs with: a missing file falls back to the defaults and the environment.\<close>

definition main_config :: "(string \<Rightarrow> read_result) \<Rightarrow> (string \<Rightarrow> SltvdConfig \<Rightarrow> SltvdConfig result) \<Rightarrow> (string \<Rightarrow> string option)
    \<Rightarrow> string \<Rightarrow> SltvdConfig result" where
  "main_config readFile unmarshal env path =
     (case Load readFile unmarshal env path of
        Inl err \<Rightarrow> if errors_Is err ErrFileNotFound then Load readFile unmarshal env [] else Inl err
      | Inr cfg \<Rightarrow> Inr cfg)"

datatype log_level = LevelDebug | LevelInfo | LevelWarn | LevelError
datatype log_handler = TextHandler log_level | JSONHandler log_level

definition newLogger :: "LogConfig \<Rightarrow> log_handler" where
  "newLogger cfg =
     (let level =
        (if gc_Level cfg = ''debug'' then LevelDebug
         else if gc_Level cfg = ''info'' then LevelInfo
         else if gc_Level cfg = ''warn'' then LevelWarn
         else if gc_Level cfg = ''error'' then LevelError
         else LevelInfo)
      in if gc_Format cfg = ''text'' then TextHandler level else JSONHandler level)"

section \<open>run\<close>

datatype daemon_event =
    MadeStateDir string
  | JoinedCluster ClusterOptions
  | OpenedStore string
  | StartedThin ThinManager
  | Listening "(string \<times> string) list"
  | Serving
  | GracefulStops
  | ClosedListeners
  | StoppedThin
  | LeftCluster
  | ClosedStore

text \<open>
  The implementations \<open>run\<close> wires together: lvm, virsh on a URI, the etcd store under a prefix,
  the bbolt store, the locks of a cluster manager under its prefix, qemu-img, and the clocks.
\<close>

record ('l, 'v, 's, 'k, 'q) Parts =
  pt_LVM :: "'l Runner"
  pt_Libvirt :: "string \<Rightarrow> 'v Client"
  pt_EtcdStore :: "string \<Rightarrow> 's Store"
  pt_BoltStore :: "'s Store"
  pt_EtcdLocker :: "string \<Rightarrow> 'k Locker"
  pt_QemuImg :: "'q QemuImgRunner"
  pt_OsTempDir :: string
  pt_Now :: "nat \<Rightarrow> gotime"
  pt_UnixNano :: "nat \<Rightarrow> int"
  pt_Version :: string

text \<open>
  The host: directories and sockets, the etcd packages, bbolt files, key material, and what
  the goroutines do to it between the listeners and the end of the shutdown.
\<close>

record ('n, 'ln, 'cert, 'pool, 'b, 'u) Host =
  h_Hostname :: "string result"
  h_net :: "('n, 'ln) NetOps"
  h_etcd :: "('n, 'cert, 'pool) EtcdLib"
  h_openDB :: "string \<Rightarrow> 'n \<Rightarrow> 'b result \<times> 'n"
  h_closeDB :: "'b \<Rightarrow> 'n \<Rightarrow> 'n"
  h_db :: "('b, 'u) BoltDB"
  h_mkBucket :: "string \<Rightarrow> 'u \<Rightarrow> error option \<times> 'u"
  h_loadPair :: "string \<Rightarrow> string \<Rightarrow> 'cert result"
  h_readFile :: "string \<Rightarrow> string result"
  h_appendPEM :: "string \<Rightarrow> 'pool option"
  h_serve :: "('ln \<times> ('cert, 'pool) ServerTLS option) list \<Rightarrow> 'n \<Rightarrow> 'n"

definition cluster_options :: "string \<Rightarrow> string \<Rightarrow> SltvdConfig \<Rightarrow> ClusterOptions" where
  "cluster_options node version cfg =
     (let etcd = cc_ETCD (cfg_Cluster cfg) in
      \<lparr>co_Endpoints = ec_Endpoints etcd, co_NodeID = node, co_Prefix = ''/sltv'', co_LockTTL = ec_LockTTL etcd,
       co_DialTimeout = 5 * second,
       co_TLS = \<lparr>tf_Cert = ct_Cert (ec_TLS etcd), tf_Key = ct_Key (ec_TLS etcd), tf_CA = ct_CA (ec_TLS etcd)\<rparr>,
       co_Version = version\<rparr>)"

text \<open>The catalog that was opened: the cluster manager or the bbolt database.\<close>

datatype 'b catalog_handle = InCluster Manager | InFile 'b

definition state_db :: "SltvdConfig \<Rightarrow> string" where
  "state_db cfg = path_Join (sc_StateDir (cfg_Storage cfg)) ''state.db''"

definition open_catalog :: "('n, 'ln, 'cert, 'pool, 'b, 'u) Host \<Rightarrow> string \<Rightarrow> string \<Rightarrow> SltvdConfig \<Rightarrow> 'n
    \<Rightarrow> 'b catalog_handle result \<times> 'n" where
  "open_catalog h node version cfg n =
     (if cc_Enabled (cfg_Cluster cfg) then
        (case NewManager (h_etcd h) (buildTLSConfig (h_loadPair h) (h_readFile h) (h_appendPEM h))
                (case h_Hostname h of Inl _ \<Rightarrow> [] | Inr host \<Rightarrow> host) (cluster_options node version cfg) n of
           (Inl err, n) \<Rightarrow> (Inl (Wrapf ''init cluster: %w'' [] err), n)
         | (Inr m, n) \<Rightarrow> (Inr (InCluster m), n))
      else
        (case OpenBoltStore (no_MkdirAll (h_net h)) (h_openDB h) (h_closeDB h) (h_db h) (h_mkBucket h) (state_db cfg) n of
           (Inl err, n) \<Rightarrow> (Inl (Wrapf ''open bolt store: %w'' [] err), n)
         | (Inr b, n) \<Rightarrow> (Inr (InFile b), n)))"

definition close_catalog :: "('n, 'ln, 'cert, 'pool, 'b, 'u) Host \<Rightarrow> 'b catalog_handle \<Rightarrow> 'n \<Rightarrow> 'n" where
  "close_catalog h c n =
     (case c of InCluster _ \<Rightarrow> lib_CloseClient (h_etcd h) (lib_CloseSession (h_etcd h) n) | InFile b \<Rightarrow> h_closeDB h b n)"

text \<open>The store and the locks of the mode, and how the trace shows its opening and its end.\<close>

definition catalog_store :: "('l, 'v, 's, 'k, 'q) Parts \<Rightarrow> 'b catalog_handle \<Rightarrow> 's Store" where
  "catalog_store parts c = (case c of InCluster _ \<Rightarrow> pt_EtcdStore parts ''/sltv'' | InFile _ \<Rightarrow> pt_BoltStore parts)"

definition catalog_locker :: "('l, 'v, 's, 'k, 'q) Parts \<Rightarrow> 'b catalog_handle \<Rightarrow> 'k Locker" where
  "catalog_locker parts c = (case c of InCluster m \<Rightarrow> pt_EtcdLocker parts (mg_prefix m) | InFile _ \<Rightarrow> noopLocker)"

definition opened_event :: "string \<Rightarrow> string \<Rightarrow> SltvdConfig \<Rightarrow> 'b catalog_handle \<Rightarrow> daemon_event" where
  "opened_event node version cfg c =
     (case c of InCluster _ \<Rightarrow> JoinedCluster (cluster_options node version cfg) | InFile _ \<Rightarrow> OpenedStore (state_db cfg))"

definition closed_event :: "'b catalog_handle \<Rightarrow> daemon_event" where
  "closed_event c = (case c of InCluster _ \<Rightarrow> LeftCluster | InFile _ \<Rightarrow> ClosedStore)"

definition disk_options :: "('l, 'v, 's, 'k, 'q) Parts \<Rightarrow> 'b catalog_handle \<Rightarrow> string \<Rightarrow> SltvdConfig
    \<Rightarrow> ('l, 'v, 's, 'k, 'q) DiskOptions" where
  "disk_options parts c node cfg = \<lparr>do_LVM = Some (pt_LVM parts),
     do_Libvirt = Some (pt_Libvirt parts (vc_URI (cfg_Libvirt cfg))), do_Store = Some (catalog_store parts c),
     do_Locker = Some (catalog_locker parts c), do_QemuImg = Some (pt_QemuImg parts),
     do_DefaultVG = sc_DefaultVG (cfg_Storage cfg), do_DefaultThinInitial = hc_DefaultInitialSize (cfg_Thin cfg),
     do_NodeID = node, do_TempDir = path_Join (sc_StateDir (cfg_Storage cfg)) ''tmp''\<rparr>"

definition thin_options :: "string \<Rightarrow> SltvdConfig \<Rightarrow> ThinOptions" where
  "thin_options node cfg = \<lparr>to_Disks = True, to_Libvirt = True, to_Store = True,
     to_PollInterval = hc_PollInterval (cfg_Thin cfg), to_FreeThresholdPercent = hc_FreeThresholdPercent (cfg_Thin cfg),
     to_ExtendStepPercent = hc_ExtendStepPercent (cfg_Thin cfg), to_NodeID = node\<rparr>"

text \<open>The listeners: the Unix socket, and TCP with TLS.\<close>

definition listener_specs :: "(string \<Rightarrow> string \<Rightarrow> string \<Rightarrow> 't result) \<Rightarrow> SltvdConfig \<Rightarrow> 't ListenerSpec list result" where
  "listener_specs loadTLS cfg =
     (let specs = (if lc_Unix (cfg_Listen cfg) \<noteq> []
                   then [\<lparr>ls_Network = ''unix'', ls_Address = lc_Unix (cfg_Listen cfg), ls_TLS = None\<rparr>] else []) in
      if lc_TCP (cfg_Listen cfg) \<noteq> [] then
        (case loadTLS (ct_Cert (cfg_TLS cfg)) (ct_Key (cfg_TLS cfg)) (ct_CA (cfg_TLS cfg)) of
           Inl err \<Rightarrow> Inl (Wrapf ''load tls: %w'' [] err)
         | Inr tls \<Rightarrow> Inr (specs @ [\<lparr>ls_Network = ''tcp'', ls_Address = lc_TCP (cfg_Listen cfg), ls_TLS = Some tls\<rparr>]))
      else Inr specs)"

text \<open>The last part of \<open>run\<close>: listening, serving until a signal or a failed listener, and the shutdown.\<close>

definition serve_until_done :: "('n, 'ln, 'cert, 'pool, 'b, 'u) Host \<Rightarrow> SltvdConfig \<Rightarrow> 'n
    \<Rightarrow> (error option \<times> daemon_event list) \<times> 'n" where
  "serve_until_done h cfg n =
     (case listener_specs (LoadServerTLS (h_loadPair h) (h_readFile h) (h_appendPEM h)) cfg of
        Inl err \<Rightarrow> ((Some err, []), n)
      | Inr specs \<Rightarrow>
          (case BuildListeners (h_net h) specs n of
             (Inl err, n) \<Rightarrow> ((Some (Wrapf ''build listeners: %w'' [] err), []), n)
           | (Inr lns, n) \<Rightarrow>
               ((None, [Listening (map (\<lambda>sp. (ls_Network sp, ls_Address sp)) specs), Serving, GracefulStops, ClosedListeners]),
                fold (no_CloseListener (h_net h)) (map fst lns) (h_serve h lns n))))"

text \<open>\<open>run\<close> once the catalog is open; it is closed again in every case.\<close>

definition run_services :: "('l, 'v, 's, 'k, 'q) Parts \<Rightarrow> ('n, 'ln, 'cert, 'pool, 'b, 'u) Host \<Rightarrow> string \<Rightarrow> SltvdConfig
    \<Rightarrow> 'b catalog_handle \<Rightarrow> 'n \<Rightarrow> (error option \<times> daemon_event list \<times> ('l, 'v, 's, 'k, 'q) Service option) \<times> 'n" where
  "run_services parts h node cfg c n =
     (case disk_New (pt_QemuImg parts) (pt_OsTempDir parts) (pt_Now parts) (pt_UnixNano parts) (disk_options parts c node cfg) of
        Inl err \<Rightarrow> ((Some (Wrapf ''init disk service: %w'' [] err), [], None), n)
      | Inr svc \<Rightarrow>
          (case thin_New (thin_options node cfg) of
             Inl err \<Rightarrow> ((Some (Wrapf ''init thin manager: %w'' [] err), [], Some svc), n)
           | Inr m \<Rightarrow>
               (case server_New True True (if cc_Enabled (cfg_Cluster cfg) then Some node else None) (pt_Version parts) node of
                  Inl err \<Rightarrow> ((Some (Wrapf ''init server: %w'' [] err), [StartedThin m, StoppedThin], Some svc), n)
                | Inr srv \<Rightarrow>
                    (case serve_until_done h cfg n of
                       ((e, evs), n) \<Rightarrow> ((e, StartedThin m # evs @ [StoppedThin], Some svc), n)))))"

definition daemon_run :: "('l, 'v, 's, 'k, 'q) Parts \<Rightarrow> ('n, 'ln, 'cert, 'pool, 'b, 'u) Host \<Rightarrow> SltvdConfig \<Rightarrow> 'n
    \<Rightarrow> (error option \<times> daemon_event list \<times> ('l, 'v, 's, 'k, 'q) Service option) \<times> 'n" where
  "daemon_run parts h cfg n =
     (let node = EffectiveNodeID (h_Hostname h) cfg; made = MadeStateDir (sc_StateDir (cfg_Storage cfg)) in
      case no_MkdirAll (h_net h) (sc_StateDir (cfg_Storage cfg)) n of
        (Some err, n) \<Rightarrow> ((Some (Wrapf ''mkdir state dir: %w'' [] err), [], None), n)
      | (None, n) \<Rightarrow>
          (case open_catalog h node (pt_Version parts) cfg n of
             (Inl err, n) \<Rightarrow> ((Some err, [made], None), n)
           | (Inr c, n) \<Rightarrow>
               (case run_services parts h node cfg c n of
                  ((e, evs, svc), n) \<Rightarrow>
                    ((e, [made, opened_event node (pt_Version parts) cfg c] @ evs @ [closed_event c], svc), close_catalog h c n))))"

text \<open>
  \<open>main\<close>: what it prints on standard output, the messages it leaves on standard error and in the
  log, and its exit status. \<open>fatal\<close> is a message and status 1.
\<close>

definition DefaultPath :: string where
  "DefaultPath = ''/etc/sltv/sltvd.yaml''"

record SltvdFlags =
  sf_config :: string
  sf_version :: bool

definition default_SltvdFlags :: SltvdFlags where
  "default_SltvdFlags = \<lparr>sf_config = DefaultPath, sf_version = False\<rparr>"

datatype main_message =
    ConfigNotFound string
  | FatalLoadConfig error
  | LogStarting string string
  | LogExited error
  | LogShutdownComplete

definition sltvd_main :: "string \<Rightarrow> (string \<Rightarrow> read_result) \<Rightarrow> (string \<Rightarrow> SltvdConfig \<Rightarrow> SltvdConfig result) \<Rightarrow> (string \<Rightarrow> string option)
    \<Rightarrow> ('l, 'v, 's, 'k, 'q) Parts \<Rightarrow> ('n, 'ln, 'cert, 'pool, 'b, 'u) Host \<Rightarrow> SltvdFlags \<Rightarrow> 'n
    \<Rightarrow> (string \<times> main_message list \<times> nat) \<times> 'n" where
  "sltvd_main versionString readFile unmarshal env parts h flags n =
     (if sf_version flags then ((versionString @ newline, [], 0), n)
      else
        (let missing = (case Load readFile unmarshal env (sf_config flags) of
               Inl err \<Rightarrow> if errors_Is err ErrFileNotFound then [ConfigNotFound (sf_config flags)] else []
             | Inr _ \<Rightarrow> []) in
         case main_config readFile unmarshal env (sf_config flags) of
           Inl err \<Rightarrow> (([], missing @ [FatalLoadConfig err], 1), n)
         | Inr cfg \<Rightarrow>
             (case daemon_run parts h cfg n of
                ((e, _), n) \<Rightarrow>
                  (([], missing @ [LogStarting versionString (EffectiveNodeID (h_Hostname h) cfg)]
                      @ [case e of Some err \<Rightarrow> LogExited err | None \<Rightarrow> LogShutdownComplete],
                    if e = None then 0 else 1), n))))"

section \<open>Facts\<close>

lemma thin_New_of_valid:
  assumes "Validate cfg = None" "node \<noteq> []"
  shows "\<exists>m. thin_New (thin_options node cfg) = Inr m \<and> thin_valid m \<and> tm_nodeID m = node
    \<and> tm_freeThresholdPercent m = hc_FreeThresholdPercent (cfg_Thin cfg)
    \<and> tm_extendStepPercent m = hc_ExtendStepPercent (cfg_Thin cfg)"
  using assms by (auto simp: Validate_def thin_New_def thin_options_def thin_valid_def second_def Let_def split: if_splits)

text \<open>What each event releases.\<close>

fun releases :: "daemon_event \<Rightarrow> daemon_event \<Rightarrow> bool" where
  "releases LeftCluster (JoinedCluster _) = True"
| "releases ClosedStore (OpenedStore _) = True"
| "releases StoppedThin (StartedThin _) = True"
| "releases ClosedListeners (Listening _) = True"
| "releases _ _ = False"

text \<open>Openings and releases nest like brackets: a stack of what is open.\<close>

fun holds_open :: "daemon_event list \<Rightarrow> daemon_event list \<Rightarrow> daemon_event list option" where
  "holds_open stack [] = Some stack"
| "holds_open stack (e # es) =
     (case e of
        JoinedCluster _ \<Rightarrow> holds_open (e # stack) es
      | OpenedStore _ \<Rightarrow> holds_open (e # stack) es
      | StartedThin _ \<Rightarrow> holds_open (e # stack) es
      | Listening _ \<Rightarrow> holds_open (e # stack) es
      | MadeStateDir _ \<Rightarrow> holds_open stack es
      | Serving \<Rightarrow> holds_open stack es
      | GracefulStops \<Rightarrow> holds_open stack es
      | _ \<Rightarrow> (case stack of [] \<Rightarrow> None | latest # rest \<Rightarrow> if releases e latest then holds_open rest es else None))"

lemma serve_until_done_nests:
  "serve_until_done h cfg n = ((e, evs), n') \<Longrightarrow> holds_open (s # stack) (evs @ es) = holds_open (s # stack) es"
  by (auto simp: serve_until_done_def split: sum.splits prod.splits)

lemma run_services_nests:
  "run_services parts h node cfg c n = ((e, evs, svc), n') \<Longrightarrow> holds_open (s # stack) (evs @ es) = holds_open (s # stack) es"
  by (auto simp: run_services_def serve_until_done_nests split: sum.splits prod.splits)

lemma daemon_run_nests: "holds_open [] (fst (snd (fst (daemon_run parts h cfg n)))) = Some []"
  by (auto simp: daemon_run_def Let_def opened_event_def closed_event_def run_services_nests
      split: option.splits sum.splits prod.splits catalog_handle.splits)

end
