(* ===== verification/Shutdown.thy ===== *)
theory Shutdown
  imports Daemon
begin

text \<open>
  The end of \<open>run\<close> in \<open>src/cmd/sltvd/main.go\<close>, from the start of the serving goroutines on: one
  goroutine per listener in \<open>Serve\<close> with a channel for their errors, the requests they have
  accepted, the thin manager's loop, and \<open>run\<close> itself, which waits for a signal or an error,
  starts a \<open>GracefulStop\<close> for every server, waits for ten seconds and releases what it holds. A
  move of one of them is a function of the state; the schedule is arbitrary. Of the gRPC package
  it is used that a graceful stop ends the accepting of requests, that \<open>Serve\<close> may return from then
  on, without an error unless it was called after the stop, and that \<open>Serve\<close> closes its listener.
\<close>

section \<open>State\<close>

text \<open>A serving goroutine: not yet in \<open>Serve\<close>, in it, with an error to send, or done.\<close>

datatype serve_go = Starting | Accepting | SendsErr error | ServeDone

text \<open>\<open>GracefulStop\<close> of a server: not called, its goroutine started, under way.\<close>

datatype stop_go = NoStop | Spawned | Stopping

record ListenerState =
  li_serve :: serve_go
  li_stop :: stop_go
  li_open :: bool
  li_active :: nat

text \<open>
  \<open>run\<close>: in its \<open>select\<close>, starting the graceful stops, waiting for \<open>stopCtx\<close>, and in its deferred
  calls: closing the listeners, stopping the thin manager, closing the catalog.
\<close>

datatype run_phase = RunSelects | RunStopping nat | RunWaits | RunCloses nat | RunStopsThin | RunClosesCatalog | RunReturned

text \<open>\<open>ds_chosen\<close> and \<open>ds_log\<close> record when the \<open>select\<close> ended and what was released.\<close>

record DaemonState =
  ds_phase :: run_phase
  ds_servers :: "ListenerState list"
  ds_errCh :: "error list"
  ds_signal :: bool
  ds_clock :: int
  ds_stopCtx :: int
  ds_thin :: bool
  ds_catalog :: bool
  ds_chosen :: "int option"
  ds_log :: "daemon_event list"

definition listening :: ListenerState where
  "listening = \<lparr>li_serve = Starting, li_stop = NoStop, li_open = True, li_active = 0\<rparr>"

definition goroutines_started :: "nat \<Rightarrow> int \<Rightarrow> DaemonState" where
  "goroutines_started n now = \<lparr>ds_phase = RunSelects, ds_servers = replicate n listening, ds_errCh = [], ds_signal = False,
     ds_clock = now, ds_stopCtx = 0, ds_thin = True, ds_catalog = True, ds_chosen = None, ds_log = [Serving]\<rparr>"

section \<open>Moves\<close>

datatype daemon_move =
    ServeCalled nat | AcceptRPC nat | ReplyRPC nat | ServeFails nat error | ServeEnds nat | SendErr nat | StopServer nat
  | SignalArrives | TimePasses int | ThinEnds | SelectSignal | SelectErr | MainNext

text \<open>The error of \<open>Serve\<close> on a server that was stopped before.\<close>

definition ErrServerStopped :: error where
  "ErrServerStopped = ExecError ''grpc: the server has been stopped''"

definition update_server :: "nat \<Rightarrow> (ListenerState \<Rightarrow> ListenerState option) \<Rightarrow> DaemonState \<Rightarrow> DaemonState option" where
  "update_server i f s =
     (if i < length (ds_servers s)
      then map_option (\<lambda>l. s\<lparr>ds_servers := (ds_servers s)[i := l]\<rparr>) (f (ds_servers s ! i)) else None)"

text \<open>What a server does.\<close>

fun server_move :: "daemon_move \<Rightarrow> ListenerState \<Rightarrow> ListenerState option" where
  "server_move (ServeCalled _) l =
     (if li_serve l = Starting
      then Some (if li_stop l = Stopping then l\<lparr>li_serve := SendsErr ErrServerStopped, li_open := False\<rparr>
                 else l\<lparr>li_serve := Accepting\<rparr>)
      else None)"
| "server_move (AcceptRPC _) l =
     (if li_serve l = Accepting \<and> li_open l \<and> li_stop l \<noteq> Stopping then Some (l\<lparr>li_active := li_active l + 1\<rparr>) else None)"
| "server_move (ReplyRPC _) l = (if 0 < li_active l then Some (l\<lparr>li_active := li_active l - 1\<rparr>) else None)"
| "server_move (ServeFails _ err) l =
     (if li_serve l = Accepting \<and> li_stop l \<noteq> Stopping then Some (l\<lparr>li_serve := SendsErr err, li_open := False\<rparr>) else None)"
| "server_move (ServeEnds _) l =
     (if li_serve l = Accepting \<and> li_stop l = Stopping then Some (l\<lparr>li_serve := ServeDone, li_open := False\<rparr>) else None)"
| "server_move (StopServer _) l =
     (if li_stop l = Spawned then Some (l\<lparr>li_stop := Stopping, li_open := li_serve l = Starting \<and> li_open l\<rparr>) else None)"
| "server_move _ l = None"

text \<open>
  What \<open>run\<close> does next once its \<open>select\<close> has ended; it waits for \<open>stopCtx\<close> and, in \<open>thinMgr.Stop\<close>,
  for the loop to end. The last step closes the catalog, which the trace shows as \<open>closing\<close>.
\<close>

definition main_next :: "daemon_event \<Rightarrow> DaemonState \<Rightarrow> DaemonState option" where
  "main_next closing s =
     (case ds_phase s of
        RunSelects \<Rightarrow> None
      | RunStopping i \<Rightarrow>
          if i < length (ds_servers s)
          then Some (s\<lparr>ds_servers := (ds_servers s)[i := (ds_servers s ! i)\<lparr>li_stop := Spawned\<rparr>], ds_phase := RunStopping (i + 1)\<rparr>)
          else Some (s\<lparr>ds_phase := RunWaits, ds_log := ds_log s @ [GracefulStops]\<rparr>)
      | RunWaits \<Rightarrow> if ds_stopCtx s \<le> ds_clock s then Some (s\<lparr>ds_phase := RunCloses 0\<rparr>) else None
      | RunCloses i \<Rightarrow>
          if i < length (ds_servers s)
          then Some (s\<lparr>ds_servers := (ds_servers s)[i := (ds_servers s ! i)\<lparr>li_open := False\<rparr>], ds_phase := RunCloses (i + 1)\<rparr>)
          else Some (s\<lparr>ds_phase := RunStopsThin, ds_log := ds_log s @ [ClosedListeners]\<rparr>)
      | RunStopsThin \<Rightarrow>
          if ds_thin s then None else Some (s\<lparr>ds_phase := RunClosesCatalog, ds_log := ds_log s @ [StoppedThin]\<rparr>)
      | RunClosesCatalog \<Rightarrow> Some (s\<lparr>ds_phase := RunReturned, ds_catalog := False, ds_log := ds_log s @ [closing]\<rparr>)
      | RunReturned \<Rightarrow> None)"

text \<open>The end of the \<open>select\<close>: the ten seconds of \<open>stopCtx\<close> begin.\<close>

definition begin_stop :: "DaemonState \<Rightarrow> DaemonState" where
  "begin_stop s = s\<lparr>ds_phase := RunStopping 0, ds_stopCtx := ds_clock s + 10 * second, ds_chosen := Some (ds_clock s)\<rparr>"

text \<open>The loop of the thin manager ends when a signal has cancelled its context, or in \<open>Stop\<close>.\<close>

fun make_move :: "daemon_event \<Rightarrow> daemon_move \<Rightarrow> DaemonState \<Rightarrow> DaemonState option" where
  "make_move closing (ServeCalled i) s = update_server i (server_move (ServeCalled i)) s"
| "make_move closing (AcceptRPC i) s = update_server i (server_move (AcceptRPC i)) s"
| "make_move closing (ReplyRPC i) s = update_server i (server_move (ReplyRPC i)) s"
| "make_move closing (ServeFails i err) s = update_server i (server_move (ServeFails i err)) s"
| "make_move closing (ServeEnds i) s = update_server i (server_move (ServeEnds i)) s"
| "make_move closing (StopServer i) s = update_server i (server_move (StopServer i)) s"
| "make_move closing (SendErr i) s =
     (if i < length (ds_servers s) \<and> length (ds_errCh s) < length (ds_servers s)
      then (case li_serve (ds_servers s ! i) of
              SendsErr e \<Rightarrow> Some (s\<lparr>ds_servers := (ds_servers s)[i := (ds_servers s ! i)\<lparr>li_serve := ServeDone\<rparr>],
                ds_errCh := ds_errCh s @ [e]\<rparr>)
            | _ \<Rightarrow> None)
      else None)"
| "make_move closing SignalArrives s = Some (s\<lparr>ds_signal := True\<rparr>)"
| "make_move closing (TimePasses d) s = (if 0 \<le> d then Some (s\<lparr>ds_clock := ds_clock s + d\<rparr>) else None)"
| "make_move closing ThinEnds s =
     (if ds_thin s \<and> (ds_signal s \<or> ds_phase s = RunStopsThin) then Some (s\<lparr>ds_thin := False\<rparr>) else None)"
| "make_move closing SelectSignal s = (if ds_phase s = RunSelects \<and> ds_signal s then Some (begin_stop s) else None)"
| "make_move closing SelectErr s =
     (if ds_phase s = RunSelects then (case ds_errCh s of [] \<Rightarrow> None | _ # es \<Rightarrow> Some (begin_stop (s\<lparr>ds_errCh := es\<rparr>))) else None)"
| "make_move closing MainNext s = main_next closing s"

inductive daemon_step :: "daemon_event \<Rightarrow> DaemonState \<Rightarrow> DaemonState \<Rightarrow> bool" for closing where
  moves: "make_move closing m s = Some s' \<Longrightarrow> daemon_step closing s s'"

text \<open>A schedule: the moves in turn, each of which must be possible.\<close>

fun make_moves :: "daemon_event \<Rightarrow> daemon_move list \<Rightarrow> DaemonState \<Rightarrow> DaemonState option" where
  "make_moves closing [] s = Some s"
| "make_moves closing (m # ms) s = Option.bind (make_move closing m s) (make_moves closing ms)"

lemma make_moves_reach: "make_moves closing ms s = Some s' \<Longrightarrow> (daemon_step closing)\<^sup>*\<^sup>* s s'"
proof (induction ms arbitrary: s)
  case (Cons m ms)
  then obtain s1 where "make_move closing m s = Some s1" "make_moves closing ms s1 = Some s'" by (auto simp: bind_eq_Some_conv)
  then show ?case using Cons.IH moves by (blast intro: converse_rtranclp_into_rtranclp)
qed simp

section \<open>The invariant\<close>

text \<open>How far \<open>run\<close> has come: the servers it has begun to stop, the listeners it has closed, what it has recorded.\<close>

definition stops_begun :: "nat \<Rightarrow> run_phase \<Rightarrow> nat" where
  "stops_begun n p = (case p of RunSelects \<Rightarrow> 0 | RunStopping i \<Rightarrow> i | _ \<Rightarrow> n)"

definition closes_done :: "nat \<Rightarrow> run_phase \<Rightarrow> nat" where
  "closes_done n p = (case p of RunSelects \<Rightarrow> 0 | RunStopping i \<Rightarrow> 0 | RunWaits \<Rightarrow> 0 | RunCloses i \<Rightarrow> i | _ \<Rightarrow> n)"

definition waited :: "run_phase \<Rightarrow> bool" where
  "waited p = (case p of RunSelects \<Rightarrow> False | RunStopping i \<Rightarrow> False | RunWaits \<Rightarrow> False | _ \<Rightarrow> True)"

definition log_at :: "daemon_event \<Rightarrow> run_phase \<Rightarrow> daemon_event list" where
  "log_at closing p =
     (case p of RunSelects \<Rightarrow> [Serving] | RunStopping _ \<Rightarrow> [Serving]
      | RunWaits \<Rightarrow> [Serving, GracefulStops] | RunCloses _ \<Rightarrow> [Serving, GracefulStops]
      | RunStopsThin \<Rightarrow> [Serving, GracefulStops, ClosedListeners]
      | RunClosesCatalog \<Rightarrow> [Serving, GracefulStops, ClosedListeners, StoppedThin]
      | RunReturned \<Rightarrow> [Serving, GracefulStops, ClosedListeners, StoppedThin, closing])"

definition may_fail :: "ListenerState \<Rightarrow> nat" where
  "may_fail l = (if li_serve l = ServeDone then 0 else 1)"

definition main_inv :: "daemon_event \<Rightarrow> DaemonState \<Rightarrow> bool" where
  "main_inv closing s \<longleftrightarrow>
     (ds_phase s \<noteq> RunSelects \<longrightarrow> ds_chosen s = Some (ds_stopCtx s - 10 * second)) \<and>
     (waited (ds_phase s) \<longrightarrow> ds_stopCtx s \<le> ds_clock s) \<and>
     (ds_phase s \<in> {RunClosesCatalog, RunReturned} \<longrightarrow> \<not> ds_thin s) \<and>
     (ds_catalog s \<longleftrightarrow> ds_phase s \<noteq> RunReturned) \<and>
     ds_log s = log_at closing (ds_phase s)"

definition servers_inv :: "nat \<Rightarrow> DaemonState \<Rightarrow> bool" where
  "servers_inv n s \<longleftrightarrow> length (ds_servers s) = n \<and>
     length (ds_errCh s) + sum_list (map may_fail (ds_servers s)) \<le> n \<and>
     (\<forall>i < n. (i < stops_begun n (ds_phase s) \<longrightarrow> li_stop (ds_servers s ! i) \<noteq> NoStop) \<and>
       (i < closes_done n (ds_phase s) \<longrightarrow> \<not> li_open (ds_servers s ! i)))"

definition shutdown_inv :: "daemon_event \<Rightarrow> nat \<Rightarrow> DaemonState \<Rightarrow> bool" where
  "shutdown_inv closing n s \<longleftrightarrow> main_inv closing s \<and> servers_inv n s"

lemma shutdown_inv_start: "shutdown_inv closing n (goroutines_started n now)"
  by (simp add: shutdown_inv_def main_inv_def servers_inv_def goroutines_started_def listening_def stops_begun_def closes_done_def
      waited_def log_at_def may_fail_def sum_list_replicate)

text \<open>A move of a server never reopens a listener or takes a stop back, and an error is sent at most once.\<close>

lemma server_move_keeps:
  "server_move m l = Some l' \<Longrightarrow> may_fail l' \<le> may_fail l \<and> (li_stop l \<noteq> NoStop \<longrightarrow> li_stop l' \<noteq> NoStop) \<and> (\<not> li_open l \<longrightarrow> \<not> li_open l')"
  by (cases m) (auto simp: may_fail_def split: if_splits)

lemma sum_may_fail_update:
  "i < length ls \<Longrightarrow> sum_list (map may_fail (ls[i := l])) + may_fail (ls ! i) = sum_list (map may_fail ls) + may_fail l"
proof (induction ls arbitrary: i)
  case (Cons q ls)
  then show ?case by (cases i) (simp_all add: add.commute add.left_commute)
qed simp

text \<open>Putting a server in the place of another keeps the invariant of the servers when it is at most as able to fail.\<close>

lemma servers_inv_update:
  assumes "servers_inv n s" "i < n" "may_fail l \<le> may_fail (ds_servers s ! i)"
    and "i < stops_begun n p \<longrightarrow> li_stop l \<noteq> NoStop" "i < closes_done n p \<longrightarrow> \<not> li_open l"
    and "\<And>j. j < n \<Longrightarrow> j \<noteq> i \<Longrightarrow> (j < stops_begun n p \<longrightarrow> j < stops_begun n (ds_phase s)) \<and>
      (j < closes_done n p \<longrightarrow> j < closes_done n (ds_phase s))"
  shows "servers_inv n (s\<lparr>ds_servers := (ds_servers s)[i := l], ds_phase := p\<rparr>)"
proof -
  have "sum_list (map may_fail ((ds_servers s)[i := l])) \<le> sum_list (map may_fail (ds_servers s))"
    using sum_may_fail_update [of i "ds_servers s" l] assms(1-3) by (simp add: servers_inv_def)
  with assms show ?thesis by (auto simp: servers_inv_def nth_list_update)
qed

lemma servers_inv_server_move:
  assumes "servers_inv n s" "update_server i (server_move m) s = Some s'"
  shows "servers_inv n s'"
proof -
  from assms(2) obtain l where l: "i < length (ds_servers s)" "server_move m (ds_servers s ! i) = Some l"
    "s' = s\<lparr>ds_servers := (ds_servers s)[i := l]\<rparr>" by (auto simp: update_server_def split: if_splits)
  have "servers_inv n (s\<lparr>ds_servers := (ds_servers s)[i := l], ds_phase := ds_phase s\<rparr>)"
    using server_move_keeps [OF l(2)] l(1) assms(1)
    by (intro servers_inv_update) (auto simp: servers_inv_def)
  then show ?thesis using l(3) by simp
qed

lemma main_inv_server_move: "main_inv closing s \<Longrightarrow> update_server i f s = Some s' \<Longrightarrow> main_inv closing s'"
  by (auto simp: update_server_def main_inv_def split: if_splits)

text \<open>\<open>run\<close> alone: the phases with a loop replace one server, the others none.\<close>

lemmas phase_defs = waited_def log_at_def stops_begun_def closes_done_def

lemma main_inv_main_next:
  assumes "main_inv closing s" "main_next closing s = Some s'"
  shows "main_inv closing s'"
  using assms by (cases "ds_phase s") (auto simp: main_next_def main_inv_def phase_defs split: if_splits)

lemma servers_inv_main_next:
  assumes "servers_inv n s" "main_next closing s = Some s'"
  shows "servers_inv n s'"
proof (cases "\<exists>i. i < length (ds_servers s) \<and> (ds_phase s = RunStopping i \<or> ds_phase s = RunCloses i)")
  case True
  then obtain i where i: "i < n" "ds_phase s = RunStopping i \<or> ds_phase s = RunCloses i"
    using assms(1) by (auto simp: servers_inv_def)
  have "servers_inv n (s\<lparr>ds_servers := (ds_servers s)[i := (ds_servers s ! i)\<lparr>li_stop := Spawned\<rparr>], ds_phase := RunStopping (i + 1)\<rparr>)"
    if "ds_phase s = RunStopping i"
    using that i(1) assms(1) by (intro servers_inv_update) (auto simp: phase_defs may_fail_def)
  moreover have "servers_inv n (s\<lparr>ds_servers := (ds_servers s)[i := (ds_servers s ! i)\<lparr>li_open := False\<rparr>], ds_phase := RunCloses (i + 1)\<rparr>)"
    if "ds_phase s = RunCloses i"
    using that i(1) assms(1) by (intro servers_inv_update) (auto simp: phase_defs may_fail_def servers_inv_def)
  ultimately show ?thesis using i assms by (auto simp: main_next_def servers_inv_def)
next
  case False
  then show ?thesis using assms
    by (cases "ds_phase s") (auto simp: main_next_def servers_inv_def phase_defs split: if_splits)
qed

lemma shutdown_inv_main_next:
  "shutdown_inv closing n s \<Longrightarrow> main_next closing s = Some s' \<Longrightarrow> shutdown_inv closing n s'"
  unfolding shutdown_inv_def by (blast intro: main_inv_main_next servers_inv_main_next)

text \<open>A signal, the clock and the end of the thin loop.\<close>

lemma shutdown_inv_outside:
  assumes "shutdown_inv closing n s" "s' = s\<lparr>ds_signal := b, ds_clock := t, ds_thin := th\<rparr>" "ds_clock s \<le> t" "th \<longrightarrow> ds_thin s"
  shows "shutdown_inv closing n s'"
proof -
  have "waited (ds_phase s) \<Longrightarrow> ds_stopCtx s \<le> t" "ds_phase s \<in> {RunClosesCatalog, RunReturned} \<Longrightarrow> \<not> th"
    using assms(1,3,4) unfolding shutdown_inv_def main_inv_def by fastforce+
  then show ?thesis using assms(1) by (simp add: assms(2) shutdown_inv_def main_inv_def servers_inv_def)
qed

lemma shutdown_inv_send:
  assumes "shutdown_inv closing n s" "make_move closing (SendErr i) s = Some s'"
  shows "shutdown_inv closing n s'"
proof -
  from assms(2) obtain e where i: "i < length (ds_servers s)" "li_serve (ds_servers s ! i) = SendsErr e"
    and s': "s' = s\<lparr>ds_servers := (ds_servers s)[i := (ds_servers s ! i)\<lparr>li_serve := ServeDone\<rparr>], ds_errCh := ds_errCh s @ [e]\<rparr>"
    by (auto split: if_splits serve_go.splits)
  let ?l = "(ds_servers s ! i)\<lparr>li_serve := ServeDone\<rparr>"
  have "Suc (sum_list (map may_fail ((ds_servers s)[i := ?l]))) = sum_list (map may_fail (ds_servers s))"
    using sum_may_fail_update [OF i(1), of ?l] i(2) by (simp add: may_fail_def)
  moreover have "li_stop ((ds_servers s)[i := ?l] ! j) = li_stop (ds_servers s ! j)"
    "li_open ((ds_servers s)[i := ?l] ! j) = li_open (ds_servers s ! j)" for j
    by (cases "j = i"; simp add: i(1))+
  ultimately have "servers_inv n s'" using assms(1) by (simp add: s' shutdown_inv_def servers_inv_def)
  moreover have "main_inv closing s'" using assms(1) by (simp add: s' shutdown_inv_def main_inv_def)
  ultimately show ?thesis by (simp add: shutdown_inv_def)
qed

lemma shutdown_inv_begin_stop:
  "shutdown_inv closing n s \<Longrightarrow> ds_phase s = RunSelects \<Longrightarrow> length es \<le> length (ds_errCh s) \<Longrightarrow>
   shutdown_inv closing n (begin_stop (s\<lparr>ds_errCh := es\<rparr>))"
  by (auto simp: shutdown_inv_def main_inv_def servers_inv_def begin_stop_def waited_def log_at_def stops_begun_def closes_done_def)

lemma shutdown_inv_step:
  assumes "shutdown_inv closing n s" "daemon_step closing s s'"
  shows "shutdown_inv closing n s'"
proof -
  from assms(2) obtain m where m: "make_move closing m s = Some s'" by cases
  have server: "shutdown_inv closing n s'" if "update_server i (server_move m) s = Some s'" for i
    using that assms(1) servers_inv_server_move main_inv_server_move by (auto simp: shutdown_inv_def)
  show ?thesis
  proof (cases m)
    case SendErr
    with m shutdown_inv_send [OF assms(1)] show ?thesis by blast
  next
    case MainNext
    with m shutdown_inv_main_next [OF assms(1)] show ?thesis by simp
  next
    case SelectSignal
    with m shutdown_inv_begin_stop [OF assms(1), of "ds_errCh s"] show ?thesis by (auto split: if_splits)
  next
    case SelectErr
    with m shutdown_inv_begin_stop [OF assms(1)] show ?thesis by (auto split: if_splits list.splits)
  next
    case SignalArrives
    with m show ?thesis by (intro shutdown_inv_outside [OF assms(1), where b = True and t = "ds_clock s" and th = "ds_thin s"]) auto
  next
    case (TimePasses d)
    with m show ?thesis
      by (intro shutdown_inv_outside [OF assms(1), where b = "ds_signal s" and t = "ds_clock s + d" and th = "ds_thin s"]) (simp_all split: if_splits)
  next
    case ThinEnds
    with m show ?thesis
      by (intro shutdown_inv_outside [OF assms(1), where b = "ds_signal s" and t = "ds_clock s" and th = False]) (simp_all split: if_splits)
  qed (use m server in auto)
qed

interpretation shutdown: step_invariant "daemon_step closing" "shutdown_inv closing n" for closing n
  by unfold_locales (rule shutdown_inv_step)

text \<open>A goroutine with an error has room in the channel.\<close>

lemma error_channel_room:
  assumes "shutdown_inv closing n s" "i < n" "li_serve (ds_servers s ! i) = SendsErr e"
  shows "\<exists>s'. make_move closing (SendErr i) s = Some s'"
proof -
  have "may_fail (ds_servers s ! i) \<in> set (map may_fail (ds_servers s))"
    using assms nth_mem [of i "ds_servers s"] by (auto simp: shutdown_inv_def servers_inv_def)
  then have "1 \<le> sum_list (map may_fail (ds_servers s))"
    using member_le_sum_list [of "may_fail (ds_servers s ! i)" "map may_fail (ds_servers s)"] assms(3) by (simp add: may_fail_def)
  with assms show ?thesis by (auto simp: shutdown_inv_def servers_inv_def)
qed

section \<open>Returning\<close>

text \<open>The calls \<open>run\<close> has still to make once its \<open>select\<close> has ended.\<close>

definition calls_left :: "nat \<Rightarrow> run_phase \<Rightarrow> nat" where
  "calls_left n p = (case p of RunSelects \<Rightarrow> 2 * n + 7 | RunStopping i \<Rightarrow> (n - i) + n + 6 | RunWaits \<Rightarrow> n + 5 | RunCloses i \<Rightarrow> (n - i) + 4
     | RunStopsThin \<Rightarrow> 3 | RunClosesCatalog \<Rightarrow> 2 | RunReturned \<Rightarrow> 0)"

text \<open>What \<open>run\<close> waits for comes by itself: the ten seconds pass, and the loop ends when it is stopped.\<close>

definition awaited :: "DaemonState \<Rightarrow> daemon_move list" where
  "awaited s =
     (case ds_phase s of
        RunWaits \<Rightarrow> [TimePasses (max 0 (ds_stopCtx s - ds_clock s))]
      | RunStopsThin \<Rightarrow> if ds_thin s then [ThinEnds] else []
      | _ \<Rightarrow> [])"

lemma run_goes_on:
  assumes "ds_phase s \<noteq> RunSelects" "ds_phase s \<noteq> RunReturned"
  shows "\<exists>s'. make_moves closing (awaited s @ [MainNext]) s = Some s' \<and> ds_phase s' \<noteq> RunSelects \<and>
    length (ds_servers s') = length (ds_servers s) \<and>
    calls_left (length (ds_servers s)) (ds_phase s') < calls_left (length (ds_servers s)) (ds_phase s)"
  using assms by (cases "ds_phase s") (auto simp: awaited_def main_next_def calls_left_def)

lemma run_can_return:
  assumes "ds_phase s \<noteq> RunSelects"
  shows "\<exists>s'. (daemon_step closing)\<^sup>*\<^sup>* s s' \<and> ds_phase s' = RunReturned"
  using assms
proof (induction "calls_left (length (ds_servers s)) (ds_phase s)" arbitrary: s rule: less_induct)
  case less
  show ?case
  proof (cases "ds_phase s = RunReturned")
    case False
    from run_goes_on [OF less.prems False] obtain s' where s': "make_moves closing (awaited s @ [MainNext]) s = Some s'"
      "ds_phase s' \<noteq> RunSelects" "length (ds_servers s') = length (ds_servers s)"
      "calls_left (length (ds_servers s)) (ds_phase s') < calls_left (length (ds_servers s)) (ds_phase s)" by blast
    from less.hyps [of s'] s' obtain t where "(daemon_step closing)\<^sup>*\<^sup>* s' t" "ds_phase t = RunReturned" by auto
    with make_moves_reach [OF s'(1)] show ?thesis by (metis rtranclp_trans)
  qed blast
qed

lemma select_ends:
  assumes "ds_signal s \<or> ds_errCh s \<noteq> []"
  shows "\<exists>s'. (daemon_step closing)\<^sup>*\<^sup>* s s' \<and> ds_phase s' \<noteq> RunSelects"
proof (cases "ds_phase s = RunSelects")
  case True
  with assms have "\<exists>m \<in> {SelectSignal, SelectErr}. \<exists>s'. make_move closing m s = Some s' \<and> ds_phase s' \<noteq> RunSelects"
    by (auto simp: begin_stop_def split: list.splits)
  then show ?thesis using moves by blast
qed blast

end
