(* ===== verification/Daemon_Properties.thy ===== *)
theory Daemon_Properties
  imports Shutdown Sample_Service
begin

text \<open>What the daemon's start and end guarantee.\<close>

section \<open>Starting on an obliging host\<close>

text \<open>A host on which every call of the operating system, bbolt and etcd that \<open>run\<close> makes succeeds.\<close>

definition host_obliges :: "('n, 'ln, 'cert, 'pool, 'b, 'u) Host \<Rightarrow> bool" where
  "host_obliges h \<longleftrightarrow>
     (\<forall>d n. fst (no_MkdirAll (h_net h) d n) = None) \<and>
     (\<forall>nw a n. \<exists>l. fst (no_Listen (h_net h) nw a n) = Inr l) \<and>
     (\<forall>p n. fst (no_Chmod (h_net h) p n) = None) \<and>
     (\<forall>p n. \<exists>b. fst (h_openDB h p n) = Inr b) \<and>
     (\<forall>b. fst (bolt_Update (h_db h) (make_buckets (h_mkBucket h)) b) = None) \<and>
     (\<forall>es t c n. fst (lib_New (h_etcd h) es t c n) = None) \<and>
     (\<forall>t n. fst (lib_NewSession (h_etcd h) t n) = None) \<and>
     (\<forall>k v n. fst (lib_PutLeased (h_etcd h) k v n) = None) \<and>
     (\<forall>c k. \<exists>x. h_loadPair h c k = Inr x) \<and> (\<forall>p. \<exists>x. h_readFile h p = Inr x) \<and> (\<forall>b. \<exists>x. h_appendPEM h b = Some x)"

lemma fst_eqD: "fst p = x \<Longrightarrow> \<exists>y. p = (x, y)"
  by (cases p) simp

lemma host_obligesD:
  assumes "host_obliges h"
  shows "\<exists>n'. no_MkdirAll (h_net h) d n = (None, n')" "\<exists>l n'. no_Listen (h_net h) nw a n = (Inr l, n')"
    "\<exists>n'. no_Chmod (h_net h) p n = (None, n')" "\<exists>b n'. h_openDB h p n = (Inr b, n')"
    "\<exists>b'. bolt_Update (h_db h) (make_buckets (h_mkBucket h)) b = (None, b')"
    "\<exists>n'. lib_New (h_etcd h) es t c n = (None, n')" "\<exists>n'. lib_NewSession (h_etcd h) ttl n = (None, n')"
    "\<exists>n'. lib_PutLeased (h_etcd h) k v n = (None, n')"
    "\<exists>x. h_loadPair h ce ke = Inr x" "\<exists>x. h_readFile h p = Inr x" "\<exists>x. h_appendPEM h ca = Some x"
  using assms unfolding host_obliges_def by (metis fst_eqD)+

lemma path_Clean_not_Nil: "path_Clean p \<noteq> []"
  by (simp add: path_Clean_def Let_def)

lemma path_Join_not_Nil: "b \<noteq> [] \<Longrightarrow> path_Join a b \<noteq> []"
  by (simp add: path_Join_def path_Clean_not_Nil)

lemma mkdir_obliged:
  "host_obliges h \<Longrightarrow> \<exists>n'. (if b then no_MkdirAll (h_net h) d n else (None, n)) = (None, n')"
  using host_obligesD(1) [of h d n] by simp

lemma NewManager_obliged:
  assumes "host_obliges h" "co_Endpoints opts \<noteq> []" "co_NodeID opts \<noteq> []" "co_Prefix opts = ''/sltv''"
  shows "\<exists>n'. NewManager (h_etcd h) (buildTLSConfig (h_loadPair h) (h_readFile h) (h_appendPEM h)) host opts n
    = (Inr \<lparr>mg_prefix = ''/sltv'', mg_nodeID = co_NodeID opts\<rparr>, n')"
proof -
  note ok = host_obligesD [OF assms(1)]
  obtain cert ca pool where key: "h_loadPair h (tf_Cert (co_TLS opts)) (tf_Key (co_TLS opts)) = Inr cert"
    "h_readFile h (tf_CA (co_TLS opts)) = Inr ca" "h_appendPEM h ca = Some pool" using ok(9-11) by metis
  have "\<exists>conf. buildTLSConfig (h_loadPair h) (h_readFile h) (h_appendPEM h) (co_TLS opts) = Inr conf"
    by (simp add: buildTLSConfig_def Let_def key)
  then obtain conf where tls: "buildTLSConfig (h_loadPair h) (h_readFile h) (h_appendPEM h) (co_TLS opts) = Inr conf" ..
  have same: "co_Endpoints (cluster_defaults opts) = co_Endpoints opts" "co_NodeID (cluster_defaults opts) = co_NodeID opts"
    "co_Prefix (cluster_defaults opts) = ''/sltv''" "co_TLS (cluster_defaults opts) = co_TLS opts"
    "co_Version (cluster_defaults opts) = co_Version opts"
    by (simp_all add: cluster_defaults_def Let_def assms(4))
  have trim: "TrimRight ''/sltv'' (CHR ''/'') = ''/sltv''" by code_simp
  obtain n1 where n1: "lib_New (h_etcd h) (co_Endpoints opts) (co_DialTimeout (cluster_defaults opts)) conf n = (None, n1)"
    using ok(6) by blast
  obtain n2 where n2: "lib_NewSession (h_etcd h) (whole_seconds (co_LockTTL (cluster_defaults opts))) n1 = (None, n2)"
    using ok(7) by blast
  obtain n3 where n3: "registerNode (h_etcd h) host \<lparr>mg_prefix = ''/sltv'', mg_nodeID = co_NodeID opts\<rparr> (co_Version opts) n2 = (None, n3)"
    using ok(8) [of "nodeKey \<lparr>mg_prefix = ''/sltv'', mg_nodeID = co_NodeID opts\<rparr>" "host @ ''|'' @ co_Version opts" n2]
    by (auto simp: registerNode_def)
  show ?thesis
    using assms(2,3) tls n1 n2 n3 by (simp add: NewManager_def Let_def same trim)
qed

lemma OpenBoltStore_obliged:
  assumes "host_obliges h" "p \<noteq> []"
  shows "\<exists>b n'. OpenBoltStore (no_MkdirAll (h_net h)) (h_openDB h) (h_closeDB h) (h_db h) (h_mkBucket h) p n = (Inr b, n')"
proof -
  note ok = host_obligesD [OF assms(1)]
  obtain n1 where n1: "(if path_Dir p \<noteq> [] \<and> path_Dir p \<noteq> ''.'' then no_MkdirAll (h_net h) (path_Dir p) n else (None, n)) = (None, n1)"
    using mkdir_obliged [OF assms(1)] by blast
  obtain b n2 where n2: "h_openDB h p n1 = (Inr b, n2)" using ok(4) by blast
  obtain b' where "bolt_Update (h_db h) (make_buckets (h_mkBucket h)) b = (None, b')" using ok(5) by blast
  with assms(2) n1 n2 show ?thesis by (simp add: OpenBoltStore_def Let_def)
qed

text \<open>The catalog opens in the mode that the configuration asks for.\<close>

lemma open_catalog_obliged:
  assumes "host_obliges h" "Validate cfg = None" "node \<noteq> []"
  shows "\<exists>c n'. open_catalog h node version cfg n = (Inr c, n') \<and>
    (if cc_Enabled (cfg_Cluster cfg) then c = InCluster \<lparr>mg_prefix = ''/sltv'', mg_nodeID = node\<rparr> else \<exists>b. c = InFile b)"
proof (cases "cc_Enabled (cfg_Cluster cfg)")
  case True
  with assms(2) have "ec_Endpoints (cc_ETCD (cfg_Cluster cfg)) \<noteq> []" by (auto simp: Validate_def split: if_splits)
  then have "co_Endpoints (cluster_options node version cfg) \<noteq> []" "co_NodeID (cluster_options node version cfg) = node"
    "co_Prefix (cluster_options node version cfg) = ''/sltv''" by (simp_all add: cluster_options_def Let_def)
  with NewManager_obliged [OF assms(1) this(1) _ this(3)] assms(3) obtain n' where
    "NewManager (h_etcd h) (buildTLSConfig (h_loadPair h) (h_readFile h) (h_appendPEM h))
       (case h_Hostname h of Inl _ \<Rightarrow> [] | Inr host \<Rightarrow> host) (cluster_options node version cfg) n
     = (Inr \<lparr>mg_prefix = ''/sltv'', mg_nodeID = node\<rparr>, n')" by metis
  with True show ?thesis by (simp add: open_catalog_def)
next
  case False
  have "state_db cfg \<noteq> []" by (simp add: state_db_def path_Join_not_Nil)
  from OpenBoltStore_obliged [OF assms(1) this] obtain b n' where
    "OpenBoltStore (no_MkdirAll (h_net h)) (h_openDB h) (h_closeDB h) (h_db h) (h_mkBucket h) (state_db cfg) n = (Inr b, n')" by blast
  with False show ?thesis by (simp add: open_catalog_def)
qed

lemma build_one_obliged:
  assumes "host_obliges h" "ls_Network sp = ''unix'' \<or> ls_Network sp = ''tcp''"
  shows "\<exists>x n'. build_one (h_net h) sp n = (Inr x, n')"
proof -
  note ok = host_obligesD [OF assms(1)]
  obtain n1 where n1: "(if path_Dir (ls_Address sp) \<noteq> [] \<and> path_Dir (ls_Address sp) \<noteq> ''.''
      then no_MkdirAll (h_net h) (path_Dir (ls_Address sp)) n else (None, n)) = (None, n1)"
    using mkdir_obliged [OF assms(1)] by blast
  obtain l n2 where n2: "no_Listen (h_net h) ''unix'' (ls_Address sp) (no_Remove (h_net h) (ls_Address sp) n1) = (Inr l, n2)"
    using ok(2) by blast
  obtain n3 where n3: "no_Chmod (h_net h) (ls_Address sp) n2 = (None, n3)" using ok(3) by blast
  obtain l' n' where t: "no_Listen (h_net h) ''tcp'' (ls_Address sp) n = (Inr l', n')" using ok(2) by blast
  show ?thesis using assms(2) n1 n2 n3 t by (auto simp: build_one_def listen_unix_def Let_def)
qed

lemma BuildListeners_obliged:
  assumes "host_obliges h" "\<forall>sp\<in>set sps. ls_Network sp = ''unix'' \<or> ls_Network sp = ''tcp''"
  shows "\<exists>xs n'. BuildListeners (h_net h) sps n = (Inr xs, n')"
  using assms(2)
proof (induction sps arbitrary: n)
  case (Cons sp sps)
  from build_one_obliged [OF assms(1), of sp] Cons.prems obtain x n1 where x: "build_one (h_net h) sp n = (Inr x, n1)"
    by (metis list.set_intros(1))
  from Cons.IH [of n1] Cons.prems obtain xs n2 where "BuildListeners (h_net h) sps n1 = (Inr xs, n2)" by auto
  with x show ?case by simp
qed simp

text \<open>The addresses the configuration asks to listen on.\<close>

definition listen_addresses :: "SltvdConfig \<Rightarrow> (string \<times> string) list" where
  "listen_addresses cfg =
     filter (\<lambda>(_, a). a \<noteq> []) [(''unix'', lc_Unix (cfg_Listen cfg)), (''tcp'', lc_TCP (cfg_Listen cfg))]"

lemma listener_specs_loaded:
  assumes "\<exists>t. loadTLS (ct_Cert (cfg_TLS cfg)) (ct_Key (cfg_TLS cfg)) (ct_CA (cfg_TLS cfg)) = Inr t"
  shows "\<exists>specs. listener_specs loadTLS cfg = Inr specs \<and>
    map (\<lambda>sp. (ls_Network sp, ls_Address sp)) specs = listen_addresses cfg \<and>
    (\<forall>sp\<in>set specs. ls_Network sp = ''unix'' \<or> ls_Network sp = ''tcp'')"
  using assms by (cases "lc_Unix (cfg_Listen cfg) = []"; cases "lc_TCP (cfg_Listen cfg) = []")
    (auto simp: listener_specs_def listen_addresses_def)

lemma serve_obliged:
  assumes "host_obliges h"
  shows "\<exists>n'. serve_until_done h cfg n =
    ((None, [Listening (listen_addresses cfg), Serving, GracefulStops, ClosedListeners]), n')"
proof -
  note ok = host_obligesD [OF assms]
  obtain cert ca pool where "h_loadPair h (ct_Cert (cfg_TLS cfg)) (ct_Key (cfg_TLS cfg)) = Inr cert"
    "h_readFile h (ct_CA (cfg_TLS cfg)) = Inr ca" "h_appendPEM h ca = Some pool" using ok(9-11) by metis
  then have "\<exists>t. LoadServerTLS (h_loadPair h) (h_readFile h) (h_appendPEM h)
      (ct_Cert (cfg_TLS cfg)) (ct_Key (cfg_TLS cfg)) (ct_CA (cfg_TLS cfg)) = Inr t"
    by (simp add: LoadServerTLS_def Let_def)
  from listener_specs_loaded [of "LoadServerTLS (h_loadPair h) (h_readFile h) (h_appendPEM h)", OF this] obtain specs where specs: "listener_specs (LoadServerTLS (h_loadPair h) (h_readFile h) (h_appendPEM h)) cfg = Inr specs"
    "map (\<lambda>sp. (ls_Network sp, ls_Address sp)) specs = listen_addresses cfg"
    "\<forall>sp\<in>set specs. ls_Network sp = ''unix'' \<or> ls_Network sp = ''tcp''" by blast
  from BuildListeners_obliged [OF assms specs(3)] obtain lns n1 where "BuildListeners (h_net h) specs n = (Inr lns, n1)" by blast
  with specs show ?thesis by (simp add: serve_until_done_def)
qed

text \<open>The disk service that \<open>run\<close> builds over an open catalog, and everything up to closing it.\<close>

definition wired_service :: "('l, 'v, 's, 'k, 'q) Parts \<Rightarrow> 'b catalog_handle \<Rightarrow> string \<Rightarrow> SltvdConfig
    \<Rightarrow> ('l, 'v, 's, 'k, 'q) Service" where
  "wired_service parts c node cfg = \<lparr>sv_LVM = pt_LVM parts, sv_Libvirt = pt_Libvirt parts (vc_URI (cfg_Libvirt cfg)),
     sv_Store = catalog_store parts c, sv_Locker = catalog_locker parts c, sv_QemuImg = pt_QemuImg parts,
     sv_DefaultVG = sc_DefaultVG (cfg_Storage cfg), sv_DefaultThinInitial = hc_DefaultInitialSize (cfg_Thin cfg),
     sv_NodeID = node, sv_TempDir = path_Join (sc_StateDir (cfg_Storage cfg)) ''tmp'', sv_Now = pt_Now parts,
     sv_UnixNano = pt_UnixNano parts\<rparr>"

lemma run_services_obliged:
  assumes "host_obliges h" "Validate cfg = None" "node \<noteq> []"
  obtains m n' where "run_services parts h node cfg c n = ((None, [StartedThin m, Listening (listen_addresses cfg), Serving,
      GracefulStops, ClosedListeners, StoppedThin], Some (wired_service parts c node cfg)), n')"
    "thin_valid m" "tm_nodeID m = node" "tm_freeThresholdPercent m = hc_FreeThresholdPercent (cfg_Thin cfg)"
    "tm_extendStepPercent m = hc_ExtendStepPercent (cfg_Thin cfg)"
proof -
  have disk: "disk_New (pt_QemuImg parts) (pt_OsTempDir parts) (pt_Now parts) (pt_UnixNano parts) (disk_options parts c node cfg)
      = Inr (wired_service parts c node cfg)"
    using assms(3) by (simp add: disk_New_def disk_options_def wired_service_def path_Join_not_Nil)
  from thin_New_of_valid [OF assms(2,3)] obtain m where m: "thin_New (thin_options node cfg) = Inr m" "thin_valid m" "tm_nodeID m = node"
    "tm_freeThresholdPercent m = hc_FreeThresholdPercent (cfg_Thin cfg)"
    "tm_extendStepPercent m = hc_ExtendStepPercent (cfg_Thin cfg)" by blast
  from serve_obliged [OF assms(1)] obtain n' where
    "serve_until_done h cfg n = ((None, [Listening (listen_addresses cfg), Serving, GracefulStops, ClosedListeners]), n')" by blast
  with assms(3) m that show thesis by (simp add: run_services_def disk server_New_def)
qed

lemma daemon_run_obliged:
  fixes h :: "('n, 'ln, 'cert, 'pool, 'b, 'u) Host"
  assumes "Validate cfg = None" "host_obliges h"
  obtains c :: "'b catalog_handle" and m n' where "daemon_run parts h cfg n = ((None,
      [MadeStateDir (sc_StateDir (cfg_Storage cfg)), opened_event (EffectiveNodeID (h_Hostname h) cfg) (pt_Version parts) cfg c,
       StartedThin m, Listening (listen_addresses cfg), Serving, GracefulStops, ClosedListeners, StoppedThin, closed_event c],
      Some (wired_service parts c (EffectiveNodeID (h_Hostname h) cfg) cfg)), n')"
    "if cc_Enabled (cfg_Cluster cfg) then c = InCluster \<lparr>mg_prefix = ''/sltv'', mg_nodeID = EffectiveNodeID (h_Hostname h) cfg\<rparr>
     else \<exists>b. c = InFile b"
    "thin_valid m" "tm_nodeID m = EffectiveNodeID (h_Hostname h) cfg"
    "tm_freeThresholdPercent m = hc_FreeThresholdPercent (cfg_Thin cfg)"
    "tm_extendStepPercent m = hc_ExtendStepPercent (cfg_Thin cfg)"
proof -
  define node where "node = EffectiveNodeID (h_Hostname h) cfg"
  have node: "node \<noteq> []" unfolding node_def by (rule EffectiveNodeID_not_Nil)
  from host_obligesD(1) [OF assms(2)] obtain n1 where
    n1: "no_MkdirAll (h_net h) (sc_StateDir (cfg_Storage cfg)) n = (None, n1)" by blast
  from open_catalog_obliged [OF assms(2,1) node, of "pt_Version parts" n1] obtain c n2 where
    c: "open_catalog h node (pt_Version parts) cfg n1 = (Inr c, n2)"
      "if cc_Enabled (cfg_Cluster cfg) then c = InCluster \<lparr>mg_prefix = ''/sltv'', mg_nodeID = node\<rparr> else \<exists>b. c = InFile b" by blast
  from run_services_obliged [OF assms(2,1) node] obtain m n3 where
    "run_services parts h node cfg c n2 = ((None, [StartedThin m, Listening (listen_addresses cfg), Serving,
      GracefulStops, ClosedListeners, StoppedThin], Some (wired_service parts c node cfg)), n3)"
    and m: "thin_valid m" "tm_nodeID m = node" "tm_freeThresholdPercent m = hc_FreeThresholdPercent (cfg_Thin cfg)"
      "tm_extendStepPercent m = hc_ExtendStepPercent (cfg_Thin cfg)" .
  with n1 c(1) have "daemon_run parts h cfg n = ((None,
      [MadeStateDir (sc_StateDir (cfg_Storage cfg)), opened_event node (pt_Version parts) cfg c,
       StartedThin m, Listening (listen_addresses cfg), Serving, GracefulStops, ClosedListeners, StoppedThin, closed_event c],
      Some (wired_service parts c node cfg)), close_catalog h c n3)" by (simp add: daemon_run_def node_def Let_def)
  from that [OF this [unfolded node_def] c(2) [unfolded node_def] m [unfolded node_def]] show thesis .
qed







text \<open>
  \<open>main\<close> without a configuration file: on a host on which every call succeeds it says so, runs with
  the defaults and the environment, and exits with status 0.
\<close>

lemma main_without_config_file:
  assumes "readFile (sf_config flags) = NotExist" "sf_config flags \<noteq> []" "\<not> sf_version flags"
    and "Validate (applyEnv env Default) = None" "host_obliges h"
  shows "fst (sltvd_main version readFile unmarshal env parts h flags n) =
    ([], [ConfigNotFound (sf_config flags), LogStarting version (EffectiveNodeID (h_Hostname h) (applyEnv env Default)),
      LogShutdownComplete], 0)"
proof -
  from daemon_run_obliged [OF assms(4,5), of parts n] obtain evs svc n' where
    run: "daemon_run parts h (applyEnv env Default) n = ((None, evs, svc), n')" by metis
  have "Load readFile unmarshal env (sf_config flags) = Inl (Wrapf ''%w: %s'' [sf_config flags] ErrFileNotFound)"
    "Load readFile unmarshal env [] = Inr (applyEnv env Default)"
    using assms(1,2,4) by (simp_all add: Load_def)
  moreover have "errors_Is (Wrapf ''%w: %s'' [sf_config flags] ErrFileNotFound) ErrFileNotFound" by simp
  ultimately show ?thesis using assms(3) run by (simp add: sltvd_main_def main_config_def Let_def del: errors_Is.simps)
qed

section \<open>Releasing\<close>


section \<open>The service of the configured mode\<close>

lemma NewManager_prefix:
  assumes "NewManager lib tls host opts s = (Inr m, s')" "co_Prefix opts = ''/sltv''"
  shows "mg_prefix m = ''/sltv''"
proof -
  have "TrimRight ''/sltv'' (CHR ''/'') = ''/sltv''" by code_simp
  with assms show ?thesis
    by (auto simp: NewManager_def Let_def cluster_defaults_def split: if_splits sum.splits option.splits prod.splits)
qed

lemma disk_New_wired:
  "disk_New execQemu osTempDir now nanos (disk_options parts c node cfg) = Inr svc \<Longrightarrow>
   sv_Store svc = catalog_store parts c \<and> sv_Locker svc = catalog_locker parts c"
  by (auto simp: disk_New_def disk_options_def split: if_splits)

text \<open>On any host: a service that \<open>run\<close> has built uses the store and the locks of the configured mode.\<close>

lemma daemon_run_service:
  assumes "daemon_run parts h cfg n = ((e, evs, Some svc), n')"
  shows "sv_Store svc = (if cc_Enabled (cfg_Cluster cfg) then pt_EtcdStore parts ''/sltv'' else pt_BoltStore parts)"
    "sv_Locker svc = (if cc_Enabled (cfg_Cluster cfg) then pt_EtcdLocker parts ''/sltv'' else noopLocker)"
proof -
  let ?node = "EffectiveNodeID (h_Hostname h) cfg"
  from assms obtain n1 n2 c where c: "open_catalog h ?node (pt_Version parts) cfg n1 = (Inr c, n2)"
    and svc: "snd (snd (fst (run_services parts h ?node cfg c n2))) = Some svc"
    by (auto simp: daemon_run_def Let_def split: option.splits sum.splits prod.splits)
  from svc have "sv_Store svc = catalog_store parts c \<and> sv_Locker svc = catalog_locker parts c"
    by (auto simp: run_services_def dest: disk_New_wired split: sum.splits prod.splits)
  moreover from c have "if cc_Enabled (cfg_Cluster cfg) then \<exists>m. c = InCluster m \<and> mg_prefix m = ''/sltv'' else \<exists>b. c = InFile b"
    by (auto simp: open_catalog_def cluster_options_def Let_def dest!: NewManager_prefix split: if_splits sum.splits prod.splits)
  ultimately show "sv_Store svc = (if cc_Enabled (cfg_Cluster cfg) then pt_EtcdStore parts ''/sltv'' else pt_BoltStore parts)"
    "sv_Locker svc = (if cc_Enabled (cfg_Cluster cfg) then pt_EtcdLocker parts ''/sltv'' else noopLocker)"
    by (auto simp: catalog_store_def catalog_locker_def split: if_splits)
qed

section \<open>Shutting down\<close>



definition slow_shutdown :: "daemon_move list" where
  "slow_shutdown = [ServeCalled 0, AcceptRPC 0, SignalArrives, SelectSignal, MainNext, MainNext, StopServer 0, ThinEnds,
     TimePasses (10 * second), MainNext, MainNext, MainNext, MainNext, MainNext]"


text \<open>
  \<open>run\<close> does not wait for the graceful stops: a request that is accepted before the signal and
  takes longer than ten seconds is still being served when the catalog has been closed under it
  and \<open>run\<close> has returned.
\<close>

theorem request_outlives_catalog:
  "map_option (\<lambda>s. (ds_phase s, ds_catalog s, map li_active (ds_servers s), map li_stop (ds_servers s)))
     (make_moves ClosedStore slow_shutdown (goroutines_started 1 0))
   = Some (RunReturned, False, [1], [Stopping])"
  by code_simp

end
